(* ===== verification/Gbas_Prelude.thy ===== *)
theory Gbas_Prelude
  imports Main "HOL-Library.Char_ord" "HOL-Library.Word"
begin

text \<open>
  Prelude of the gbas development: the result type shared by all components
  (\<open>'e + 'a\<close>, with \<open>Inl\<close> for a thrown exception), its bind with the rules that drive
  the proofs, the loops over lists that stop at the first exception, the machine
  integers of the code, decimal output of a natural number, and a few facts on lists.
\<close>

section \<open>Machine integers\<close>

type_synonym u8 = "8 word"
type_synonym u16 = "16 word"
type_synonym u32 = "32 word"
type_synonym u64 = "64 word"

named_theorems word_narrow \<open>conversions to a narrower word\<close>

lemma ucast_plus [word_narrow]: "(ucast (x + y :: u64) :: u32) = ucast x + ucast y"
proof transfer
  fix x y :: int
  have "take_bit 32 (take_bit 64 x + take_bit 64 y) =
      take_bit 32 (take_bit 32 (take_bit 64 x) + take_bit 32 (take_bit 64 y))"
    by (simp only: take_bit_add)
  also have "\<dots> = take_bit 32 (x + y)"
    by (simp add: min_def take_bit_add)
  finally show "take_bit LENGTH(32) (take_bit LENGTH(64) (x + y)) =
      take_bit LENGTH(32) (take_bit LENGTH(64) x + take_bit LENGTH(64) y)"
    by (simp add: min_def)
qed

lemma ucast_scast [word_narrow]: "(ucast (scast (a :: u32) :: u64) :: u32) = a"
  by transfer (simp add: take_bit_signed_take_bit min_def)

lemma ucast_of_nat [word_narrow]: "(ucast (of_nat n :: u64) :: u32) = of_nat n"
  by transfer (simp add: min_def)

lemma scast_of_nat: "n < 2 ^ 31 \<Longrightarrow> (scast (of_nat n :: u32) :: u64) = of_nat n"
  by transfer (simp add: signed_take_bit_int_eq_self take_bit_int_eq_self)

section \<open>Results: a value or an exception\<close>

named_theorems result_iff \<open>when a composed result is a value or an exception\<close>

definition rbind :: "'e + 'a \<Rightarrow> ('a \<Rightarrow> 'e + 'b) \<Rightarrow> 'e + 'b" where
  "rbind m f = (case m of Inl e \<Rightarrow> Inl e | Inr a \<Rightarrow> f a)"

lemma rbind_simps [simp]:
  "rbind (Inl e) f = Inl e"
  "rbind (Inr a) f = f a"
  by (simp_all add: rbind_def)

lemma rbind_cong [fundef_cong]:
  "m = m' \<Longrightarrow> (\<And>a. m' = Inr a \<Longrightarrow> f a = g a) \<Longrightarrow> rbind m f = rbind m' g"
  by (cases m') auto

lemma rbind_Inr_iff [result_iff]:
  "rbind m f = Inr b \<longleftrightarrow> (\<exists>a. m = Inr a \<and> f a = Inr b)"
  by (cases m) auto

lemma rbind_Inl_iff [result_iff]:
  "rbind m f = Inl e \<longleftrightarrow> m = Inl e \<or> (\<exists>a. m = Inr a \<and> f a = Inl e)"
  by (cases m) auto

lemma rbind_assoc: "rbind (rbind m f) g = rbind m (\<lambda>a. rbind (f a) g)"
  by (cases m) auto

lemma if_Inr_iff [result_iff]:
  "(if c then x else Inl e) = Inr b \<longleftrightarrow> c \<and> x = Inr b"
  "(if c then Inl e else x) = Inr b \<longleftrightarrow> \<not> c \<and> x = Inr b"
  by auto

definition is_value :: "'e + 'a \<Rightarrow> bool" where
  "is_value m = (case m of Inl _ \<Rightarrow> False | Inr _ \<Rightarrow> True)"

lemma is_value_simps [simp]: "\<not> is_value (Inl e)" "is_value (Inr a)"
  by (simp_all add: is_value_def)

lemma is_value_iff: "is_value m \<longleftrightarrow> (\<exists>a. m = Inr a)"
  by (cases m) auto

text \<open>The loop \<open>for (x : xs) out.push_back(f(x))\<close> where \<open>f\<close> may throw.\<close>

fun map_result :: "('a \<Rightarrow> 'e + 'b) \<Rightarrow> 'a list \<Rightarrow> 'e + 'b list" where
  "map_result f [] = Inr []"
| "map_result f (x # xs) = rbind (f x) (\<lambda>y. rbind (map_result f xs) (\<lambda>ys. Inr (y # ys)))"

lemma map_result_cong [fundef_cong]:
  "xs = ys \<Longrightarrow> (\<And>x. x \<in> set ys \<Longrightarrow> f x = g x) \<Longrightarrow> map_result f xs = map_result g ys"
proof (induction ys arbitrary: xs)
  case Nil
  then show ?case by simp
next
  case (Cons y ys)
  then have "map_result f ys = map_result g ys" by simp
  with Cons.prems show ?case by simp
qed

lemma map_result_Inr_iff:
  "map_result f xs = Inr ys \<longleftrightarrow> list_all2 (\<lambda>x y. f x = Inr y) xs ys"
  by (induction xs arbitrary: ys) (auto simp: result_iff list_all2_Cons1)

section \<open>State and exceptions together\<close>

text \<open>
  An operation on an object of type \<open>'s\<close> that may throw. The object comes back also when
  it throws: the changes made before the throw stay, as they do in the code.
\<close>

type_synonym ('e, 's, 'a) operation = "'s \<Rightarrow> ('e + 'a) \<times> 's"

definition sreturn :: "'a \<Rightarrow> ('e, 's, 'a) operation" where
  "sreturn a s = (Inr a, s)"

definition sthrow :: "'e \<Rightarrow> ('e, 's, 'a) operation" where
  "sthrow e s = (Inl e, s)"

definition sread :: "('s \<Rightarrow> 'e + 'a) \<Rightarrow> ('e, 's, 'a) operation" where
  "sread f s = (f s, s)"

definition smodify :: "('s \<Rightarrow> 's) \<Rightarrow> ('e, 's, unit) operation" where
  "smodify f s = (Inr (), f s)"

definition sbind :: "('e, 's, 'a) operation \<Rightarrow> ('a \<Rightarrow> ('e, 's, 'b) operation) \<Rightarrow> ('e, 's, 'b) operation" where
  "sbind m f s = (case m s of (Inl e, t) \<Rightarrow> (Inl e, t) | (Inr a, t) \<Rightarrow> f a t)"

definition sthen :: "('e, 's, 'a) operation \<Rightarrow> ('e, 's, 'b) operation \<Rightarrow> ('e, 's, 'b) operation" where
  "sthen m n = sbind m (\<lambda>_. n)"

lemma s_simps [simp]:
  "sreturn a s = (Inr a, s)"
  "sthrow e s = (Inl e, s)"
  "sread f s = (f s, s)"
  "smodify g s = (Inr (), g s)"
  by (simp_all add: sreturn_def sthrow_def sread_def smodify_def)

lemma sbind_Inr [simp]: "m s = (Inr a, t) \<Longrightarrow> sbind m f s = f a t"
  by (simp add: sbind_def)

lemma sbind_Inl [simp]: "m s = (Inl e, t) \<Longrightarrow> sbind m f s = (Inl e, t)"
  by (simp add: sbind_def)

lemma sthen_Inr [simp]: "m s = (Inr a, t) \<Longrightarrow> sthen m n s = n t"
  by (simp add: sthen_def)

lemma sthen_Inl [simp]: "m s = (Inl e, t) \<Longrightarrow> sthen m n s = (Inl e, t)"
  by (simp add: sthen_def)

lemma sbind_Inr_iff [result_iff]:
  "sbind m f s = (Inr b, t) \<longleftrightarrow> (\<exists>a u. m s = (Inr a, u) \<and> f a u = (Inr b, t))"
  by (auto simp: sbind_def split: prod.splits sum.splits)

lemma sbind_Inl_iff [result_iff]:
  "sbind m f s = (Inl x, t) \<longleftrightarrow> m s = (Inl x, t) \<or> (\<exists>a u. m s = (Inr a, u) \<and> f a u = (Inl x, t))"
  by (auto simp: sbind_def split: prod.splits sum.splits)

lemma sthen_Inr_iff [result_iff]:
  "sthen m n s = (Inr b, t) \<longleftrightarrow> (\<exists>a u. m s = (Inr a, u) \<and> n u = (Inr b, t))"
  by (simp add: sthen_def result_iff)

lemma sthen_Inl_iff [result_iff]:
  "sthen m n s = (Inl x, t) \<longleftrightarrow> m s = (Inl x, t) \<or> (\<exists>a u. m s = (Inr a, u) \<and> n u = (Inl x, t))"
  by (simp add: sthen_def result_iff)

text \<open>A choice between an operation and an exception.\<close>

lemma if_sthrow_iff [result_iff]:
  "(if c then m else sthrow x) s = (Inr b, t) \<longleftrightarrow> c \<and> m s = (Inr b, t)"
  "(if c then sthrow x else m) s = (Inr b, t) \<longleftrightarrow> \<not> c \<and> m s = (Inr b, t)"
  by simp_all

text \<open>An operation whose exceptions are values of another type.\<close>

definition slift :: "('e \<Rightarrow> 'f) \<Rightarrow> ('e, 's, 'a) operation \<Rightarrow> ('f, 's, 'a) operation" where
  "slift f m s = (case m s of (Inl e, t) \<Rightarrow> (Inl (f e), t) | (Inr a, t) \<Rightarrow> (Inr a, t))"

lemma slift_simps [simp]:
  "m s = (Inr a, t) \<Longrightarrow> slift f m s = (Inr a, t)"
  "m s = (Inl e, t) \<Longrightarrow> slift f m s = (Inl (f e), t)"
  by (simp_all add: slift_def)

lemma snd_slift [simp]: "snd (slift f m s) = snd (m s)"
  by (auto simp: slift_def split: prod.split sum.split)

lemma fst_slift [simp]: "fst (slift f m s) = map_sum f id (fst (m s))"
  by (auto simp: slift_def split: prod.split sum.split)

text \<open>A loop over a list that stops at the first throw.\<close>

fun sforeach :: "('a \<Rightarrow> ('e, 's, unit) operation) \<Rightarrow> 'a list \<Rightarrow> ('e, 's, unit) operation" where
  "sforeach f [] = sreturn ()"
| "sforeach f (x # xs) = sthen (f x) (sforeach f xs)"

text \<open>
  An invariant that an operation keeps whether or not it throws, and that therefore
  every composition keeps.
\<close>

locale preserved =
  fixes inv :: "'s \<Rightarrow> bool"
begin

definition keeps :: "('e, 's, 'a) operation \<Rightarrow> bool" where
  "keeps m \<longleftrightarrow> (\<forall>s. inv s \<longrightarrow> inv (snd (m s)))"

lemma keepsI: "(\<And>s. inv s \<Longrightarrow> inv (snd (m s))) \<Longrightarrow> keeps m"
  by (simp add: keeps_def)

lemma keepsD: "keeps m \<Longrightarrow> inv s \<Longrightarrow> inv (snd (m s))"
  by (simp add: keeps_def)

lemma keeps_basic [simp]: "keeps (sreturn a)" "keeps (sthrow e)" "keeps (sread f)"
  by (simp_all add: keeps_def)

lemma keeps_sbind: "keeps m \<Longrightarrow> (\<And>a. keeps (f a)) \<Longrightarrow> keeps (sbind m f)"
  unfolding keeps_def sbind_def by (fastforce split: prod.splits sum.splits)

lemma keeps_sthen: "keeps m \<Longrightarrow> keeps n \<Longrightarrow> keeps (sthen m n)"
  unfolding sthen_def by (rule keeps_sbind)

lemma keeps_slift: "keeps m \<Longrightarrow> keeps (slift f m)"
  by (simp add: keeps_def)

lemma keeps_sforeach: "(\<And>x. x \<in> set xs \<Longrightarrow> keeps (f x)) \<Longrightarrow> keeps (sforeach f xs)"
  by (induction xs) (auto intro: keeps_sthen)

end

text \<open>
  Simulation: operations on a concrete and on an abstract state with the same results,
  from related states to related states. Loops over simulating bodies simulate.
\<close>

locale simulation =
  fixes abs :: "'s \<Rightarrow> 't" and inv :: "'s \<Rightarrow> bool"
    and step :: "'a \<Rightarrow> ('e, 's, unit) operation" and astep :: "'a \<Rightarrow> ('e, 't, unit) operation"
  assumes step_sim: "inv s \<Longrightarrow> astep x (abs s) = (fst (step x s), abs (snd (step x s)))"
    and step_inv: "inv s \<Longrightarrow> inv (snd (step x s))"
begin

lemma foreach_sim:
  "inv s \<Longrightarrow> sforeach astep xs (abs s) = (fst (sforeach step xs s), abs (snd (sforeach step xs s)))"
proof (induction xs arbitrary: s)
  case Nil
  then show ?case by simp
next
  case (Cons x xs)
  obtain r t where st: "step x s = (r, t)" by (cases "step x s")
  then have ast: "astep x (abs s) = (r, abs t)" and t: "inv t"
    using step_sim [OF Cons.prems, of x] step_inv [OF Cons.prems, of x] by simp_all
  show ?case
  proof (cases r)
    case (Inl e)
    with st ast show ?thesis by simp
  next
    case (Inr u)
    with st ast Cons.IH [OF t] show ?thesis by simp
  qed
qed

lemma foreach_inv: "inv s \<Longrightarrow> inv (snd (sforeach step xs s))"
proof (induction xs arbitrary: s)
  case Nil
  then show ?case by simp
next
  case (Cons x xs)
  obtain r t where st: "step x s = (r, t)" by (cases "step x s")
  with step_inv [OF Cons.prems, of x] Cons.IH [of t] show ?case by (cases r) simp_all
qed

end

section \<open>Characters and numbers as text\<close>

abbreviation (input) newline :: char where "newline \<equiv> CHR 0x0A"
abbreviation (input) nul :: char where "nul \<equiv> CHR 0x00"

definition digit_char :: "nat \<Rightarrow> char" where
  "digit_char d = char_of (48 + d)"

fun show_nat :: "nat \<Rightarrow> string" where
  "show_nat n = (if n < 10 then [digit_char n] else show_nat (n div 10) @ [digit_char (n mod 10)])"

declare show_nat.simps [simp del]

lemma show_nat_code [code]:
  "show_nat n = (if n < 10 then [digit_char n] else show_nat (n div 10) @ [digit_char (n mod 10)])"
  by (rule show_nat.simps)

lemma show_nat_nonempty [simp]: "show_nat n \<noteq> []"
  by (subst show_nat.simps) simp

section \<open>Lists\<close>

text \<open>\<open>std::find_if\<close> as a distance from the start; the length of the list is \<open>end()\<close>.\<close>

definition find_if :: "('a \<Rightarrow> bool) \<Rightarrow> 'a list \<Rightarrow> nat" where
  "find_if P xs = length (takeWhile (\<lambda>x. \<not> P x) xs)"

lemma find_if_le: "find_if P xs \<le> length xs"
  by (simp add: find_if_def length_takeWhile_le)

lemma find_if_less_iff: "find_if P xs < length xs \<longleftrightarrow> (\<exists>x \<in> set xs. P x)"
  by (induction xs) (auto simp: find_if_def)

lemma nth_find_if: "find_if P xs < length xs \<Longrightarrow> P (xs ! find_if P xs)"
  by (induction xs) (auto simp: find_if_def)

lemma find_if_unique:
  "i < length xs \<Longrightarrow> P (xs ! i) \<Longrightarrow> (\<And>j. j < i \<Longrightarrow> \<not> P (xs ! j)) \<Longrightarrow> find_if P xs = i"
proof (induction xs arbitrary: i)
  case Nil
  then show ?case by simp
next
  case (Cons x xs)
  then show ?case
  proof (cases i)
    case 0
    with Cons show ?thesis by (simp add: find_if_def)
  next
    case (Suc j)
    have "\<not> P x" using Cons.prems(3) [of 0] Suc by simp
    moreover have "find_if P xs = j"
      using Cons.IH [of j] Cons.prems Suc by fastforce
    ultimately show ?thesis using Suc by (simp add: find_if_def)
  qed
qed

lemma drop_eq_Cons_nth: "i < length xs \<Longrightarrow> drop i xs = xs ! i # drop (Suc i) xs"
  by (simp add: Cons_nth_drop_Suc)

text \<open>A concatenation has each part at the length of the parts before it.\<close>

lemma concat_split:
  assumes "i < length xs"
  shows "concat (map f xs) = concat (map f (take i xs)) @ f (xs ! i) @ concat (map f (drop (Suc i) xs))"
proof -
  have "xs = take i xs @ xs ! i # drop (Suc i) xs"
    using assms by (rule id_take_nth_drop)
  then show ?thesis
    by (metis concat.simps(2) concat_append list.simps(9) map_append)
qed

lemma concat_part:
  assumes "i < length xs"
  shows "take (length (f (xs ! i))) (drop (length (concat (map f (take i xs)))) (concat (map f xs))) = f (xs ! i)"
  unfolding concat_split [OF assms, of f] by simp

lemma takeWhile_all: "list_all P xs \<Longrightarrow> takeWhile P (xs @ ys) = xs @ takeWhile P ys"
  by (induction xs) auto

lemma dropWhile_all: "list_all P xs \<Longrightarrow> dropWhile P (xs @ ys) = dropWhile P ys"
  by (induction xs) auto

lemma list_all_takeWhile [simp]: "list_all P (takeWhile P xs)"
  by (induction xs) auto

lemma length_dropWhile_less [simp]: "length (dropWhile P xs) < Suc (length xs)"
  by (simp add: length_dropWhile_le less_Suc_eq_le)

end
