(* ===== verification/Char_Utils.thy ===== *)
theory Char_Utils
  imports Gbas_Prelude
begin

text \<open>
  The character and token predicates of \<open>include/char_utils.hpp\<close>. A C++ \<open>char\<close> is a
  HOL \<open>char\<close>, that is a byte. The comparisons of the code agree with the unsigned
  order on \<open>char\<close> used here whether or not the platform's \<open>char\<close> is signed: every
  range tested lies in ASCII, and a byte above 127 is outside of it either way.
\<close>

definition isAlpha :: "char \<Rightarrow> bool" where
  "isAlpha c \<longleftrightarrow> (c \<ge> CHR ''A'' \<and> c \<le> CHR ''Z'') \<or> (c \<ge> CHR ''a'' \<and> c \<le> CHR ''z'')"

definition isDigit :: "char \<Rightarrow> bool" where
  "isDigit c \<longleftrightarrow> c \<ge> CHR ''0'' \<and> c \<le> CHR ''9''"

definition isAlphaNumeric :: "char \<Rightarrow> bool" where
  "isAlphaNumeric c \<longleftrightarrow> isAlpha c \<or> isDigit c"

definition isNumber :: "string \<Rightarrow> bool" where
  "isNumber tok = (if length tok = 0 then False else list_all isDigit tok)"

definition isNumericOp :: "char \<Rightarrow> bool" where
  "isNumericOp c \<longleftrightarrow> c = CHR ''+'' \<or> c = CHR ''-'' \<or> c = CHR ''*'' \<or> c = CHR ''/''"

definition isMaybeSection :: "string \<Rightarrow> bool" where
  "isMaybeSection tok =
     (if length tok = 0 then False
      else if \<not> isAlpha (tok ! 0) then False
      else list_all (\<lambda>c. isAlphaNumeric c \<or> c = CHR ''_'' \<or> c = CHR ''.'') (drop 1 tok))"

lemmas char_class_defs = isAlpha_def isDigit_def isAlphaNumeric_def isNumericOp_def

text \<open>The classes of characters that a token may hold, and their separation.\<close>

lemma alnum_not_special [simp]:
  "\<not> isAlphaNumeric CHR '' ''" "\<not> isAlphaNumeric CHR '';''" "\<not> isAlphaNumeric CHR 0x22"
  "\<not> isAlphaNumeric CHR ''(''" "\<not> isAlphaNumeric CHR '')''" "\<not> isAlphaNumeric CHR '',''"
  "\<not> isAlphaNumeric CHR '':''" "\<not> isAlphaNumeric CHR ''.''" "\<not> isAlphaNumeric CHR ''-''"
  "\<not> isAlphaNumeric CHR ''_''" "\<not> isAlphaNumeric CHR 0x5C" "\<not> isAlphaNumeric CHR 0x00"
  "\<not> isAlphaNumeric CHR ''+''" "\<not> isAlphaNumeric CHR ''*''" "\<not> isAlphaNumeric CHR ''/''"
  by (simp_all add: char_class_defs)

lemma digit_not_special [simp]:
  "\<not> isDigit CHR ''-''" "\<not> isDigit CHR '' ''" "\<not> isDigit CHR ''_''" "\<not> isDigit CHR ''+''"
  by (simp_all add: char_class_defs)

lemma numericop_not_special [simp]:
  "\<not> isNumericOp CHR '' ''" "\<not> isNumericOp CHR '';''" "\<not> isNumericOp CHR 0x22"
  "\<not> isNumericOp CHR ''(''" "\<not> isNumericOp CHR '')''" "\<not> isNumericOp CHR '',''"
  "\<not> isNumericOp CHR '':''" "\<not> isNumericOp CHR 0x00"
  by (simp_all add: char_class_defs)

lemma numericop_not_alnum: "isNumericOp c \<Longrightarrow> \<not> isAlphaNumeric c"
  by (auto simp: isNumericOp_def)

lemma digit_alnum: "isDigit c \<Longrightarrow> isAlphaNumeric c"
  by (simp add: isAlphaNumeric_def)

end
