(* ===== verification/Tokenizer.thy ===== *)
theory Tokenizer
  imports Char_Utils
begin

text \<open>
  The tokenizer of \<open>include/tokenizer.hpp\<close> and \<open>src/tokenizer.cpp\<close>: a state machine
  that reads one line character by character. The local variables of
  \<open>Tokenizer::tokenize\<close> are the fields of \<open>tstate\<close>; one iteration of its
  \<open>while\<close> loop is \<open>tok_step\<close>, the loop is \<open>tok_line\<close>, the \<open>for\<close> loop over
  \<open>std::getline\<close> is \<open>tokenize_lines\<close>. A throw is \<open>Inl\<close> of the exception and the
  text that \<open>logError\<close> has written to \<open>std::cerr\<close>.
\<close>

type_synonym Token = string
type_synonym TokenList = "Token list"

datatype State = START_LINE | START_TOKEN | STRING_TOKEN | TOKEN | END_TOKEN | END_LINE

datatype TokenizerException = TokenizerException (tex_msg: string) (tex_line: nat) (tex_col: nat)

type_synonym tok_failure = "TokenizerException \<times> string"

record tstate =
  t_state :: State
  t_pos :: nat
  t_tokbuf :: string
  t_tokens :: TokenList
  t_lineno :: nat

definition reserved :: "Token list" where
  "reserved = [''EOL'', ''EOF'']"

definition isReserved :: "Token \<Rightarrow> bool" where
  "isReserved tok \<longleftrightarrow> List.member reserved tok"

abbreviation (input) dquote :: char where "dquote \<equiv> CHR 0x22"
abbreviation (input) backslash :: char where "backslash \<equiv> CHR 0x5C"

section \<open>The standard library the tokenizer uses\<close>

text \<open>
  \<open>std::getline\<close> on a stream with the given remaining contents: the characters up to
  the next newline, which is consumed and dropped, or up to the end; it fails when
  nothing is left. \<open>line[pos]\<close> of a \<open>std::string\<close> is the NUL character at
  \<open>pos == size()\<close>. \<open>c_str\<close> read as a C string stops at the first NUL.
\<close>

definition getline :: "string \<Rightarrow> (string \<times> string) option" where
  "getline s = (if s = [] then None
     else Some (takeWhile (\<lambda>c. c \<noteq> newline) s, drop 1 (dropWhile (\<lambda>c. c \<noteq> newline) s)))"

definition char_at :: "string \<Rightarrow> nat \<Rightarrow> char" where
  "char_at line i = (if i < length line then line ! i else nul)"

definition c_str :: "string \<Rightarrow> string" where
  "c_str s = takeWhile (\<lambda>c. c \<noteq> nul) s"

lemma getline_shorter: "getline s = Some (l, r) \<Longrightarrow> length r < length s"
proof -
  assume "getline s = Some (l, r)"
  then have ne: "s \<noteq> []" and r: "r = drop 1 (dropWhile (\<lambda>c. c \<noteq> newline) s)"
    by (auto simp: getline_def split: if_splits)
  have "length (dropWhile (\<lambda>c. c \<noteq> newline) s) \<le> length s"
    by (rule length_dropWhile_le)
  moreover have "0 < length s" using ne by simp
  ultimately show ?thesis unfolding r length_drop by linarith
qed

section \<open>Error reports\<close>

definition logError :: "string \<Rightarrow> string \<Rightarrow> nat \<Rightarrow> nat \<Rightarrow> string" where
  "logError msg line lineno col =
     ''Line '' @ show_nat lineno @ '': '' @ msg @ [newline] @
     line @ [newline] @
     (replicate (col + 1) CHR ''-'')[col := CHR ''^''] @ [newline]"

definition tok_throw :: "string \<Rightarrow> string \<Rightarrow> string \<Rightarrow> nat \<Rightarrow> nat \<Rightarrow> tok_failure" where
  "tok_throw what msg line lineno col =
     (TokenizerException what lineno col, logError msg (c_str line) lineno col)"

section \<open>The state machine\<close>

definition tok_step :: "string \<Rightarrow> tstate \<Rightarrow> tok_failure + tstate" where
  "tok_step line s =
    (let curr = char_at line (t_pos s) in
     case t_state s of
       START_LINE \<Rightarrow>
         if t_pos s \<ge> length line then
           Inr (s\<lparr>t_lineno := t_lineno s + 1, t_state := END_LINE\<rparr>)
         else if curr = CHR '' '' then Inr (s\<lparr>t_pos := t_pos s + 1\<rparr>)
         else Inr (s\<lparr>t_state := START_TOKEN\<rparr>)
     | START_TOKEN \<Rightarrow>
         let s = s\<lparr>t_tokbuf := []\<rparr> in
         if t_pos s \<ge> length line \<or> curr = CHR '';'' then
           Inr (s\<lparr>t_lineno := t_lineno s + 1, t_state := END_LINE\<rparr>)
         else if curr = CHR '' '' then Inr (s\<lparr>t_pos := t_pos s + 1\<rparr>)
         else if isAlphaNumeric curr \<or> curr = CHR ''.'' \<or> curr = CHR ''_'' \<or> curr = backslash then
           Inr (s\<lparr>t_state := TOKEN\<rparr>)
         else if curr = dquote then
           Inr (s\<lparr>t_tokbuf := t_tokbuf s @ [curr], t_pos := t_pos s + 1, t_state := STRING_TOKEN\<rparr>)
         else if curr = CHR ''('' \<or> curr = CHR '')'' \<or> curr = CHR '','' then
           Inr (s\<lparr>t_tokbuf := t_tokbuf s @ [curr], t_pos := t_pos s + 1, t_state := END_TOKEN\<rparr>)
         else if isNumericOp curr then
           Inr (s\<lparr>t_tokbuf := t_tokbuf s @ [curr], t_pos := t_pos s + 1, t_state := END_TOKEN\<rparr>)
         else Inl (tok_throw (''Invalid token'' @ line) ''Invalid token'' line (t_lineno s) (t_pos s))
     | STRING_TOKEN \<Rightarrow>
         if t_pos s \<ge> length line then
           Inl (tok_throw ''Unterminated string'' ''Unterminated string'' line (t_lineno s) (t_pos s))
         else if curr = dquote then
           Inr (s\<lparr>t_tokbuf := t_tokbuf s @ [curr], t_pos := t_pos s + 1, t_state := END_TOKEN\<rparr>)
         else
           Inr (s\<lparr>t_tokbuf := t_tokbuf s @ [curr], t_pos := t_pos s + 1\<rparr>)
     | TOKEN \<Rightarrow>
         if t_pos s \<ge> length line then Inr (s\<lparr>t_state := END_TOKEN\<rparr>)
         else if curr = CHR '' '' then Inr (s\<lparr>t_pos := t_pos s + 1, t_state := END_TOKEN\<rparr>)
         else if isNumericOp curr then Inr (s\<lparr>t_state := END_TOKEN\<rparr>)
         else if curr = CHR '','' \<or> curr = CHR '')'' then Inr (s\<lparr>t_state := END_TOKEN\<rparr>)
         else if isAlphaNumeric curr \<or> curr = CHR ''.'' \<or> curr = CHR ''_'' \<or> curr = backslash then
           Inr (s\<lparr>t_tokbuf := t_tokbuf s @ [curr], t_pos := t_pos s + 1\<rparr>)
         else Inl (tok_throw (''Invalid token '' @ line) ''Invalid token'' line (t_lineno s) (t_pos s))
     | END_TOKEN \<Rightarrow>
         Inr (s\<lparr>t_tokens := t_tokens s @ [t_tokbuf s], t_tokbuf := [], t_state := START_TOKEN\<rparr>)
     | END_LINE \<Rightarrow> Inr s)"

text \<open>
  The loop ends: each character is passed once, and between two characters the machine
  visits its states in an order that depends on whether the character at hand continues
  a word.
\<close>

definition word_char :: "char \<Rightarrow> bool" where
  "word_char c \<longleftrightarrow> isAlphaNumeric c \<or> c = CHR ''.'' \<or> c = CHR ''_'' \<or> c = backslash"

definition tok_rank :: "string \<Rightarrow> tstate \<Rightarrow> nat" where
  "tok_rank line s =
     (case t_state s of
        START_LINE \<Rightarrow> 4
      | START_TOKEN \<Rightarrow> 1
      | STRING_TOKEN \<Rightarrow> 0
      | TOKEN \<Rightarrow> (if t_pos s < length line \<and> word_char (char_at line (t_pos s)) then 0 else 3)
      | END_TOKEN \<Rightarrow> 2
      | END_LINE \<Rightarrow> 0)"

definition tok_measure :: "string \<Rightarrow> tstate \<Rightarrow> nat" where
  "tok_measure line s = 5 * (length line - t_pos s) + tok_rank line s"

lemma tok_rank_state:
  "t_state s = START_LINE \<Longrightarrow> tok_rank line s = 4"
  "t_state s = START_TOKEN \<Longrightarrow> tok_rank line s = 1"
  "t_state s = STRING_TOKEN \<Longrightarrow> tok_rank line s = 0"
  "t_state s = TOKEN \<Longrightarrow> t_pos s < length line \<Longrightarrow> word_char (char_at line (t_pos s)) \<Longrightarrow>
     tok_rank line s = 0"
  "t_state s = TOKEN \<Longrightarrow> \<not> (t_pos s < length line \<and> word_char (char_at line (t_pos s))) \<Longrightarrow>
     tok_rank line s = 3"
  "t_state s = END_TOKEN \<Longrightarrow> tok_rank line s = 2"
  "t_state s = END_LINE \<Longrightarrow> tok_rank line s = 0"
  by (auto simp: tok_rank_def)

lemma tok_rank_le: "tok_rank line s \<le> 4"
  by (simp add: tok_rank_def split: State.split)

text \<open>Passing a character decreases the measure, whatever the states are.\<close>

lemma tok_measure_advance:
  assumes "t_pos s < length line" and "t_pos s' = t_pos s + 1"
  shows "tok_measure line s' < tok_measure line s"
  using assms tok_rank_le [of line s'] by (simp add: tok_measure_def)

lemma tok_measure_rank:
  assumes "t_pos s' = t_pos s" and "tok_rank line s' < tok_rank line s"
  shows "tok_measure line s' < tok_measure line s"
  using assms by (simp add: tok_measure_def)

lemma tok_step_decreases:
  assumes ne: "t_state s \<noteq> END_LINE" and step: "tok_step line s = Inr s'"
  shows "tok_measure line s' < tok_measure line s"
proof -
  have "t_pos s < length line \<and> t_pos s' = t_pos s + 1 \<or>
        t_pos s' = t_pos s \<and> tok_rank line s' < tok_rank line s"
  proof (cases "t_state s")
    case START_LINE
    with step show ?thesis
      by (auto simp: tok_step_def tok_rank_state Let_def split: if_splits)
  next
    case START_TOKEN
    with step show ?thesis
      by (auto simp: tok_step_def tok_rank_state word_char_def Let_def split: if_splits)
  next
    case STRING_TOKEN
    with step show ?thesis
      by (auto simp: tok_step_def Let_def split: if_splits)
  next
    case TOKEN
    with step show ?thesis
      by (auto simp: tok_step_def tok_rank_state word_char_def numericop_not_alnum Let_def
          isNumericOp_def split: if_splits)
  next
    case END_TOKEN
    with step show ?thesis
      by (auto simp: tok_step_def tok_rank_state)
  next
    case END_LINE
    with ne show ?thesis by simp
  qed
  then show ?thesis
    by (auto intro: tok_measure_advance tok_measure_rank)
qed

function tok_line :: "string \<Rightarrow> tstate \<Rightarrow> tok_failure + tstate" where
  "tok_line line s =
     (if t_state s = END_LINE then Inr s else rbind (tok_step line s) (tok_line line))"
  by pat_completeness auto
termination
  by (relation "measure (\<lambda>(line, s). tok_measure line s)") (auto simp: tok_step_decreases)

declare tok_line.simps [simp del]

function tokenize_lines :: "string \<Rightarrow> tstate \<Rightarrow> tok_failure + tstate" where
  "tokenize_lines input s =
     (case getline input of
        None \<Rightarrow> Inr s
      | Some (line, rest) \<Rightarrow>
          rbind (tok_line line (s\<lparr>t_state := START_LINE, t_pos := 0\<rparr>))
            (\<lambda>s'. tokenize_lines rest (s'\<lparr>t_tokens := t_tokens s' @ [''EOL'']\<rparr>)))"
  by pat_completeness auto
termination
  by (relation "measure (\<lambda>(input, s). length input)") (auto simp: getline_shorter)

declare tokenize_lines.simps [simp del]

definition tok_init :: tstate where
  "tok_init = \<lparr>t_state = START_LINE, t_pos = 0, t_tokbuf = [], t_tokens = [], t_lineno = 0\<rparr>"

definition tokenize :: "string \<Rightarrow> tok_failure + TokenList" where
  "tokenize input = rbind (tokenize_lines input tok_init) (\<lambda>s. Inr (t_tokens s @ [''EOF'']))"

end
