(* ===== verification/Ast.thy ===== *)
theory Ast
  imports Tokenizer
begin

text \<open>
  The syntax tree of \<open>include/parser.hpp\<close> (namespace \<open>AST\<close>). The class hierarchy is one
  datatype, \<open>BaseNode\<close>: a class that is instantiated is a constructor with the fields of
  the class. The \<open>shared_ptr\<close>s between nodes are tree edges: no node is changed after
  its construction other than a root that is being filled. Two constructors stand for the
  instances that the templates \<open>Instruction<N>\<close> and \<open>Node<T>\<close> admit beside the named
  classes, and which the \<open>default\<close> branches of the assembler treat:
  \<open>InstructionN t n\<close> is an \<open>Instruction<n + 3>\<close>, \<open>InvalidNode\<close> a
  \<open>Node<NodeType::INVALID>\<close>.
\<close>

datatype InstructionType =
    IT_ADD | IT_ADC | IT_INC | IT_SUB | IT_SBC | IT_AND | IT_XOR | IT_OR | IT_CP | IT_DEC
  | IT_RLC | IT_RLCA | IT_RL | IT_RLA | IT_RRC | IT_RRCA | IT_RR | IT_RRA
  | IT_DAA | IT_SCF | IT_CPL | IT_CCF
  | IT_LD | IT_LDI | IT_LDD | IT_PUSH | IT_POP
  | IT_JR | IT_RET | IT_RETI | IT_JP | IT_CALL | IT_RST
  | IT_NOP | IT_STOP | IT_HALT | IT_DI | IT_EI
  | IT_SLA | IT_SRA | IT_SWAP | IT_SRL | IT_BIT | IT_RES | IT_SET
  | IT_INVALID

datatype DirectiveType = DT_SECTION | DT_INVALID

datatype NodeType =
    NT_ROOT | NT_INSTRUCTION | NT_REGISTER | NT_DREGISTER | NT_LABEL | NT_DIRECTIVE
  | NT_NUMBER | NT_BINARY_OP | NT_UNARY_OP | NT_INVALID

datatype BinaryOpType = BO_ADD | BO_SUB | BO_MULT | BO_DIV | BO_INVALID

datatype UnaryOpType = UO_NEG | UO_INVALID

datatype BaseNode =
    Root "BaseNode list"
  | Register char
  | DRegister char char
  | Label string
  | Directive DirectiveType "Token list"
  | Number u8
  | BinaryOp BinaryOpType BaseNode BaseNode
  | UnaryOp UnaryOpType BaseNode
  | Instruction0 InstructionType
  | Instruction1 InstructionType BaseNode
  | Instruction2 InstructionType BaseNode BaseNode
  | InstructionN InstructionType nat
  | InvalidNode

fun node_id :: "BaseNode \<Rightarrow> NodeType" where
  "node_id (Root _) = NT_ROOT"
| "node_id (Register _) = NT_REGISTER"
| "node_id (DRegister _ _) = NT_DREGISTER"
| "node_id (Label _) = NT_LABEL"
| "node_id (Directive _ _) = NT_DIRECTIVE"
| "node_id (Number _) = NT_NUMBER"
| "node_id (BinaryOp _ _ _) = NT_BINARY_OP"
| "node_id (UnaryOp _ _) = NT_UNARY_OP"
| "node_id (Instruction0 _) = NT_INSTRUCTION"
| "node_id (Instruction1 _ _) = NT_INSTRUCTION"
| "node_id (Instruction2 _ _ _) = NT_INSTRUCTION"
| "node_id (InstructionN _ _) = NT_INSTRUCTION"
| "node_id InvalidNode = NT_INVALID"

text \<open>
  The members of the node classes. A member function exists for the nodes of its class only:
  \<open>None\<close> is the failing cast to that class. \<open>Root::child\<close> uses \<open>at\<close>, which throws beyond the
  children; this is \<open>None\<close> too.
\<close>

definition Root_add :: "BaseNode list \<Rightarrow> BaseNode \<Rightarrow> BaseNode list" where
  "Root_add children child = children @ [child]"

definition Root_child :: "BaseNode list \<Rightarrow> nat \<Rightarrow> BaseNode option" where
  "Root_child children i = (if i < length children then Some (children ! i) else None)"

fun register_reg :: "BaseNode \<Rightarrow> char option" where
  "register_reg (Register r) = Some r"
| "register_reg _ = None"

fun dregister_reg :: "BaseNode \<Rightarrow> string option" where
  "dregister_reg (DRegister r1 r2) = Some [r1, r2]"
| "dregister_reg _ = None"

fun label_name :: "BaseNode \<Rightarrow> string option" where
  "label_name (Label name) = Some name"
| "label_name _ = None"

fun directive_type :: "BaseNode \<Rightarrow> DirectiveType option" where
  "directive_type (Directive t _) = Some t"
| "directive_type _ = None"

fun directive_operands :: "BaseNode \<Rightarrow> Token list option" where
  "directive_operands (Directive _ names) = Some names"
| "directive_operands _ = None"

fun number_value :: "BaseNode \<Rightarrow> u8 option" where
  "number_value (Number v) = Some v"
| "number_value _ = None"

fun binary_opType :: "BaseNode \<Rightarrow> BinaryOpType option" where
  "binary_opType (BinaryOp op _ _) = Some op"
| "binary_opType _ = None"

fun unary_opType :: "BaseNode \<Rightarrow> UnaryOpType option" where
  "unary_opType (UnaryOp op _) = Some op"
| "unary_opType _ = None"

fun binary_left :: "BaseNode \<Rightarrow> BaseNode option" where
  "binary_left (BinaryOp _ l _) = Some l"
| "binary_left _ = None"

fun binary_right :: "BaseNode \<Rightarrow> BaseNode option" where
  "binary_right (BinaryOp _ _ r) = Some r"
| "binary_right _ = None"

fun unary_operand :: "BaseNode \<Rightarrow> BaseNode option" where
  "unary_operand (UnaryOp _ a) = Some a"
| "unary_operand _ = None"

fun instruction1_operand :: "BaseNode \<Rightarrow> BaseNode option" where
  "instruction1_operand (Instruction1 _ a) = Some a"
| "instruction1_operand _ = None"

fun instruction2_left :: "BaseNode \<Rightarrow> BaseNode option" where
  "instruction2_left (Instruction2 _ a _) = Some a"
| "instruction2_left _ = None"

fun instruction2_right :: "BaseNode \<Rightarrow> BaseNode option" where
  "instruction2_right (Instruction2 _ _ b) = Some b"
| "instruction2_right _ = None"

fun instruction_type :: "BaseNode \<Rightarrow> InstructionType option" where
  "instruction_type (Instruction0 t) = Some t"
| "instruction_type (Instruction1 t _) = Some t"
| "instruction_type (Instruction2 t _ _) = Some t"
| "instruction_type (InstructionN t _) = Some t"
| "instruction_type _ = None"

fun nOperands :: "BaseNode \<Rightarrow> nat option" where
  "nOperands (Instruction0 _) = Some 0"
| "nOperands (Instruction1 _ _) = Some 1"
| "nOperands (Instruction2 _ _ _) = Some 2"
| "nOperands (InstructionN _ n) = Some (n + 3)"
| "nOperands _ = None"

text \<open>
  A visitor has one function for each class of nodes, and \<open>accept\<close> calls the one of the
  node's class. An \<open>InvalidNode\<close> has no such function.
\<close>

record 'r AbstractNodeVisitor =
  visit_Root :: "BaseNode \<Rightarrow> 'r"
  visit_Instruction :: "BaseNode \<Rightarrow> 'r"
  visit_Register :: "BaseNode \<Rightarrow> 'r"
  visit_DRegister :: "BaseNode \<Rightarrow> 'r"
  visit_Label :: "BaseNode \<Rightarrow> 'r"
  visit_Directive :: "BaseNode \<Rightarrow> 'r"
  visit_Number :: "BaseNode \<Rightarrow> 'r"
  visit_BinaryOp :: "BaseNode \<Rightarrow> 'r"
  visit_UnaryOp :: "BaseNode \<Rightarrow> 'r"

definition accept :: "BaseNode \<Rightarrow> 'r AbstractNodeVisitor \<Rightarrow> 'r option" where
  "accept node visitor =
     (case node_id node of
        NT_ROOT \<Rightarrow> Some (visit_Root visitor node)
      | NT_INSTRUCTION \<Rightarrow> Some (visit_Instruction visitor node)
      | NT_REGISTER \<Rightarrow> Some (visit_Register visitor node)
      | NT_DREGISTER \<Rightarrow> Some (visit_DRegister visitor node)
      | NT_LABEL \<Rightarrow> Some (visit_Label visitor node)
      | NT_DIRECTIVE \<Rightarrow> Some (visit_Directive visitor node)
      | NT_NUMBER \<Rightarrow> Some (visit_Number visitor node)
      | NT_BINARY_OP \<Rightarrow> Some (visit_BinaryOp visitor node)
      | NT_UNARY_OP \<Rightarrow> Some (visit_UnaryOp visitor node)
      | NT_INVALID \<Rightarrow> None)"

text \<open>What a cast may rely on: \<open>id()\<close>, and for instructions \<open>nOperands()\<close>, tell which members a
  node has, and the members determine the node.\<close>

lemma node_id_members:
  "node_id n = NT_REGISTER \<longleftrightarrow> register_reg n \<noteq> None" "node_id n = NT_DREGISTER \<longleftrightarrow> dregister_reg n \<noteq> None"
  "node_id n = NT_LABEL \<longleftrightarrow> label_name n \<noteq> None" "node_id n = NT_DIRECTIVE \<longleftrightarrow> directive_operands n \<noteq> None"
  "node_id n = NT_NUMBER \<longleftrightarrow> number_value n \<noteq> None" "node_id n = NT_BINARY_OP \<longleftrightarrow> binary_opType n \<noteq> None"
  "node_id n = NT_UNARY_OP \<longleftrightarrow> unary_opType n \<noteq> None" "node_id n = NT_INSTRUCTION \<longleftrightarrow> nOperands n \<noteq> None"
  by (cases n; simp)+

lemma node_members:
  "node_id n = NT_BINARY_OP \<Longrightarrow>
     n = BinaryOp (the (binary_opType n)) (the (binary_left n)) (the (binary_right n))"
  "node_id n = NT_UNARY_OP \<Longrightarrow> n = UnaryOp (the (unary_opType n)) (the (unary_operand n))"
  "nOperands n = Some 0 \<Longrightarrow> n = Instruction0 (the (instruction_type n))"
  "nOperands n = Some 1 \<Longrightarrow> n = Instruction1 (the (instruction_type n)) (the (instruction1_operand n))"
  "nOperands n = Some 2 \<Longrightarrow>
     n = Instruction2 (the (instruction_type n)) (the (instruction2_left n)) (the (instruction2_right n))"
  by (cases n; simp)+

text \<open>
  The constructor \<open>Number(uint8_t)\<close> applied to an \<open>int\<close>: the conversion keeps the low
  eight bits.
\<close>

definition make_Number :: "int \<Rightarrow> BaseNode" where
  "make_Number v = Number (word_of_int v)"

section \<open>Instruction types are ordered as the enumeration lists them\<close>

text \<open>The keys of the \<open>std::map\<close> of formats in the assembler are compared this way.\<close>

definition instruction_types :: "InstructionType list" where
  "instruction_types =
    [IT_ADD, IT_ADC, IT_INC, IT_SUB, IT_SBC, IT_AND, IT_XOR, IT_OR, IT_CP, IT_DEC,
     IT_RLC, IT_RLCA, IT_RL, IT_RLA, IT_RRC, IT_RRCA, IT_RR, IT_RRA,
     IT_DAA, IT_SCF, IT_CPL, IT_CCF,
     IT_LD, IT_LDI, IT_LDD, IT_PUSH, IT_POP,
     IT_JR, IT_RET, IT_RETI, IT_JP, IT_CALL, IT_RST,
     IT_NOP, IT_STOP, IT_HALT, IT_DI, IT_EI,
     IT_SLA, IT_SRA, IT_SWAP, IT_SRL, IT_BIT, IT_RES, IT_SET,
     IT_INVALID]"

definition index_of :: "'a list \<Rightarrow> 'a \<Rightarrow> nat" where
  "index_of xs x = find_if (\<lambda>y. y = x) xs"

lemma nth_index_of: "x \<in> set xs \<Longrightarrow> xs ! index_of xs x = x"
  unfolding index_of_def by (rule nth_find_if) (simp add: find_if_less_iff)

lemma instruction_types_all: "t \<in> set instruction_types"
  by (cases t) (simp_all add: instruction_types_def)

instantiation InstructionType :: linorder
begin

definition less_eq_InstructionType :: "InstructionType \<Rightarrow> InstructionType \<Rightarrow> bool" where
  "less_eq_InstructionType s t \<longleftrightarrow> index_of instruction_types s \<le> index_of instruction_types t"

definition less_InstructionType :: "InstructionType \<Rightarrow> InstructionType \<Rightarrow> bool" where
  "less_InstructionType s t \<longleftrightarrow> index_of instruction_types s < index_of instruction_types t"

instance
proof
  fix s t u :: InstructionType
  show "s < t \<longleftrightarrow> s \<le> t \<and> \<not> t \<le> s"
    by (auto simp: less_eq_InstructionType_def less_InstructionType_def)
  show "s \<le> s" by (simp add: less_eq_InstructionType_def)
  show "s \<le> t \<Longrightarrow> t \<le> u \<Longrightarrow> s \<le> u" by (simp add: less_eq_InstructionType_def)
  show "s \<le> t \<or> t \<le> s" by (auto simp: less_eq_InstructionType_def)
  assume "s \<le> t" and "t \<le> s"
  then have "index_of instruction_types s = index_of instruction_types t"
    by (simp add: less_eq_InstructionType_def)
  then show "s = t"
    using nth_index_of [OF instruction_types_all] by metis
qed

end

end
