(* ===== verification/Elf_Format.thy ===== *)
theory Elf_Format
  imports Gbas_Prelude
begin

unbundle bit_operations_syntax

text \<open>
  The ELF32 types and constants that the code takes from the system header \<open>elf.h\<close>
  (documented in \<open>elf(5)\<close>; the comments in \<open>include/elf.hpp\<close> repeat two of the
  structures), the layout of these structures in the memory of a little-endian host, which
  is what \<open>os.write(reinterpret_cast<char*>(&x), sizeof(x))\<close> writes, and the byte swaps
  of \<open>include/swap_helpers.hpp\<close> and \<open>src/elf.cpp\<close>. The locale \<open>fixed_width\<close> is the
  contract of a fixed-size layout, \<open>byte_codec\<close> that of one which is read back; each structure is an
  interpretation of one of them. \<open>Elf_Decoder\<close> compares the layouts with the format.
\<close>

section \<open>Words as bytes\<close>

definition u16_bytes :: "u16 \<Rightarrow> u8 list" where
  "u16_bytes w = [ucast w, ucast (drop_bit 8 w)]"

definition u32_bytes :: "u32 \<Rightarrow> u8 list" where
  "u32_bytes w = [ucast w, ucast (drop_bit 8 w), ucast (drop_bit 16 w), ucast (drop_bit 24 w)]"

fun bytes_u16 :: "u8 list \<Rightarrow> u16" where
  "bytes_u16 (a # b # _) = ucast a OR push_bit 8 (ucast b)"
| "bytes_u16 _ = 0"

fun bytes_u32 :: "u8 list \<Rightarrow> u32" where
  "bytes_u32 (a # b # c # d # _) =
     ucast a OR push_bit 8 (ucast b) OR push_bit 16 (ucast c) OR push_bit 24 (ucast d)"
| "bytes_u32 _ = 0"

lemma length_word_bytes [simp]: "length (u16_bytes w) = 2" "length (u32_bytes v) = 4"
  by (simp_all add: u16_bytes_def u32_bytes_def)

lemma bytes_u16_bytes [simp]: "bytes_u16 (u16_bytes w @ bs) = w"
  by (rule bit_word_eqI) (auto simp: u16_bytes_def bit_simps less_Suc_eq)

lemma bytes_u32_bytes [simp]: "bytes_u32 (u32_bytes w @ bs) = w"
proof (rule bit_word_eqI)
  fix n
  assume "n < LENGTH(32)"
  then consider "n < 8" | "8 \<le> n \<and> n < 16" | "16 \<le> n \<and> n < 24" | "24 \<le> n \<and> n < 32" by fastforce
  then show "bit (bytes_u32 (u32_bytes w @ bs)) n \<longleftrightarrow> bit w n"
    by cases (auto simp: u32_bytes_def bit_simps)
qed

text \<open>A byte has no bit beyond the eighth.\<close>

lemma byte_bit [simp]: "\<not> n < 8 \<Longrightarrow> \<not> bit (a :: u8) n"
  using bit_imp_le_length [of a n] by auto

lemma u16_bytes_of [simp]: "u16_bytes (bytes_u16 [a, b]) = [a, b]"
  by (auto simp: u16_bytes_def bit_simps intro!: bit_word_eqI)

lemma u32_bytes_of [simp]: "u32_bytes (bytes_u32 [a, b, c, d]) = [a, b, c, d]"
  by (auto simp: u32_bytes_def bit_simps intro!: bit_word_eqI)

section \<open>Byte swaps\<close>

definition swap16 :: "u16 \<Rightarrow> u16" where
  "swap16 value = bytes_u16 (rev (u16_bytes value))"

definition swap32 :: "u32 \<Rightarrow> u32" where
  "swap32 value = bytes_u32 (rev (u32_bytes value))"

lemma u16_bytes_swap: "u16_bytes (swap16 w) = rev (u16_bytes w)"
  unfolding swap16_def u16_bytes_def [of w] by (simp del: bytes_u16.simps)

lemma u32_bytes_swap: "u32_bytes (swap32 w) = rev (u32_bytes w)"
  unfolding swap32_def u32_bytes_def [of w] by (simp del: bytes_u32.simps)

lemma swap16_swap16 [simp]: "swap16 (swap16 w) = w"
  using bytes_u16_bytes [of w "[]"] by (simp add: swap16_def [of "swap16 w"] u16_bytes_swap)

lemma swap32_swap32 [simp]: "swap32 (swap32 w) = w"
  using bytes_u32_bytes [of w "[]"] by (simp add: swap32_def [of "swap32 w"] u32_bytes_swap)

section \<open>Constants of \<open>elf.h\<close>\<close>

abbreviation (input) ET_REL :: u16 where "ET_REL \<equiv> 1"
abbreviation (input) EM_NONE :: u16 where "EM_NONE \<equiv> 0"
abbreviation (input) EV_CURRENT :: u32 where "EV_CURRENT \<equiv> 1"
abbreviation (input) SHT_PROGBITS :: u32 where "SHT_PROGBITS \<equiv> 1"
abbreviation (input) SHT_SYMTAB :: u32 where "SHT_SYMTAB \<equiv> 2"
abbreviation (input) SHT_STRTAB :: u32 where "SHT_STRTAB \<equiv> 3"
abbreviation (input) SHT_NOBITS :: u32 where "SHT_NOBITS \<equiv> 8"
abbreviation (input) SHT_REL :: u32 where "SHT_REL \<equiv> 9"
abbreviation (input) SHF_WRITE :: u32 where "SHF_WRITE \<equiv> 1"
abbreviation (input) SHF_ALLOC :: u32 where "SHF_ALLOC \<equiv> 2"
abbreviation (input) SHF_EXECINSTR :: u32 where "SHF_EXECINSTR \<equiv> 4"
abbreviation (input) STB_LOCAL :: u8 where "STB_LOCAL \<equiv> 0"
abbreviation (input) STB_GLOBAL :: u8 where "STB_GLOBAL \<equiv> 1"
abbreviation (input) STB_WEAK :: u8 where "STB_WEAK \<equiv> 2"
abbreviation (input) STT_NOTYPE :: u8 where "STT_NOTYPE \<equiv> 0"
abbreviation (input) STT_OBJECT :: u8 where "STT_OBJECT \<equiv> 1"
abbreviation (input) STT_FUNC :: u8 where "STT_FUNC \<equiv> 2"
abbreviation (input) STT_SECTION :: u8 where "STT_SECTION \<equiv> 3"
abbreviation (input) STT_FILE :: u8 where "STT_FILE \<equiv> 4"
abbreviation (input) STV_DEFAULT :: u8 where "STV_DEFAULT \<equiv> 0"
abbreviation (input) STV_INTERNAL :: u8 where "STV_INTERNAL \<equiv> 1"
abbreviation (input) STV_HIDDEN :: u8 where "STV_HIDDEN \<equiv> 2"
abbreviation (input) STV_PROTECTED :: u8 where "STV_PROTECTED \<equiv> 3"
abbreviation (input) R_386_32 :: u32 where "R_386_32 \<equiv> 1"
abbreviation (input) ELFCLASS32 :: u8 where "ELFCLASS32 \<equiv> 1"
abbreviation (input) ELFDATA2MSB :: u8 where "ELFDATA2MSB \<equiv> 2"
abbreviation (input) ELFOSABI_STANDALONE :: u8 where "ELFOSABI_STANDALONE \<equiv> 255"

text \<open>
  The macros \<open>ELF32_ST_INFO\<close>, \<open>ELF32_ST_VISIBILITY\<close> and \<open>ELF32_R_INFO\<close>; the first two
  with the conversion to \<open>uint8_t\<close> that the code applies to their result.
\<close>

definition ELF32_ST_INFO :: "u8 \<Rightarrow> u8 \<Rightarrow> u8" where
  "ELF32_ST_INFO b t = push_bit 4 b + (t AND 15)"

definition ELF32_ST_VISIBILITY :: "u8 \<Rightarrow> u8" where
  "ELF32_ST_VISIBILITY v = v AND 3"

definition ELF32_R_INFO :: "u32 \<Rightarrow> u32 \<Rightarrow> u32" where
  "ELF32_R_INFO s t = push_bit 8 s + (t AND 255)"

section \<open>Structures\<close>

record Elf32_Ehdr =
  e_ident :: "u8 list"
  e_type :: u16
  e_machine :: u16
  e_version :: u32
  e_entry :: u32
  e_phoff :: u32
  e_shoff :: u32
  e_flags :: u32
  e_ehsize :: u16
  e_phentsize :: u16
  e_phnum :: u16
  e_shentsize :: u16
  e_shnum :: u16
  e_shstrndx :: u16

record Elf32_Shdr =
  sh_name :: u32
  sh_type :: u32
  sh_flags :: u32
  sh_addr :: u32
  sh_offset :: u32
  sh_size :: u32
  sh_link :: u32
  sh_info :: u32
  sh_addralign :: u32
  sh_entsize :: u32

record Elf32_Sym =
  st_name :: u32
  st_value :: u32
  st_size :: u32
  st_info :: u8
  st_other :: u8
  st_shndx :: u16

record Elf32_Rel =
  r_offset :: u32
  r_info :: u32

abbreviation (input) sizeof_Ehdr :: nat where "sizeof_Ehdr \<equiv> 52"
abbreviation (input) sizeof_Phdr :: nat where "sizeof_Phdr \<equiv> 32"
abbreviation (input) sizeof_Shdr :: nat where "sizeof_Shdr \<equiv> 40"
abbreviation (input) sizeof_Sym :: nat where "sizeof_Sym \<equiv> 16"
abbreviation (input) sizeof_Rel :: nat where "sizeof_Rel \<equiv> 8"

section \<open>Swapped headers\<close>

definition swap_elf_header :: "Elf32_Ehdr \<Rightarrow> Elf32_Ehdr" where
  "swap_elf_header hdr = \<lparr>
     e_ident = e_ident hdr,
     e_type = swap16 (e_type hdr),
     e_machine = swap16 (e_machine hdr),
     e_version = swap32 (e_version hdr),
     e_entry = swap32 (e_entry hdr),
     e_phoff = swap32 (e_phoff hdr),
     e_shoff = swap32 (e_shoff hdr),
     e_flags = swap32 (e_flags hdr),
     e_ehsize = swap16 (e_ehsize hdr),
     e_phentsize = swap16 (e_phentsize hdr),
     e_phnum = swap16 (e_phnum hdr),
     e_shentsize = swap16 (e_shentsize hdr),
     e_shnum = swap16 (e_shnum hdr),
     e_shstrndx = swap16 (e_shstrndx hdr)\<rparr>"

definition swap_section_header :: "Elf32_Shdr \<Rightarrow> Elf32_Shdr" where
  "swap_section_header hdr = \<lparr>
     sh_name = swap32 (sh_name hdr),
     sh_type = swap32 (sh_type hdr),
     sh_flags = swap32 (sh_flags hdr),
     sh_addr = swap32 (sh_addr hdr),
     sh_offset = swap32 (sh_offset hdr),
     sh_size = swap32 (sh_size hdr),
     sh_link = swap32 (sh_link hdr),
     sh_info = swap32 (sh_info hdr),
     sh_addralign = swap32 (sh_addralign hdr),
     sh_entsize = swap32 (sh_entsize hdr)\<rparr>"

lemma swap_elf_header_twice [simp]: "swap_elf_header (swap_elf_header hdr) = hdr"
  by (simp add: swap_elf_header_def)

lemma swap_section_header_twice [simp]: "swap_section_header (swap_section_header hdr) = hdr"
  by (simp add: swap_section_header_def)

section \<open>The layout of the structures in memory\<close>

definition Ehdr_bytes :: "Elf32_Ehdr \<Rightarrow> u8 list" where
  "Ehdr_bytes h = e_ident h @ u16_bytes (e_type h) @ u16_bytes (e_machine h) @
     u32_bytes (e_version h) @ u32_bytes (e_entry h) @ u32_bytes (e_phoff h) @
     u32_bytes (e_shoff h) @ u32_bytes (e_flags h) @ u16_bytes (e_ehsize h) @
     u16_bytes (e_phentsize h) @ u16_bytes (e_phnum h) @ u16_bytes (e_shentsize h) @
     u16_bytes (e_shnum h) @ u16_bytes (e_shstrndx h)"

definition bytes_Ehdr :: "u8 list \<Rightarrow> Elf32_Ehdr" where
  "bytes_Ehdr bs = \<lparr>e_ident = take 16 bs,
     e_type = bytes_u16 (drop 16 bs), e_machine = bytes_u16 (drop 18 bs),
     e_version = bytes_u32 (drop 20 bs), e_entry = bytes_u32 (drop 24 bs),
     e_phoff = bytes_u32 (drop 28 bs), e_shoff = bytes_u32 (drop 32 bs),
     e_flags = bytes_u32 (drop 36 bs), e_ehsize = bytes_u16 (drop 40 bs),
     e_phentsize = bytes_u16 (drop 42 bs), e_phnum = bytes_u16 (drop 44 bs),
     e_shentsize = bytes_u16 (drop 46 bs), e_shnum = bytes_u16 (drop 48 bs),
     e_shstrndx = bytes_u16 (drop 50 bs)\<rparr>"

definition Shdr_bytes :: "Elf32_Shdr \<Rightarrow> u8 list" where
  "Shdr_bytes h = u32_bytes (sh_name h) @ u32_bytes (sh_type h) @ u32_bytes (sh_flags h) @
     u32_bytes (sh_addr h) @ u32_bytes (sh_offset h) @ u32_bytes (sh_size h) @
     u32_bytes (sh_link h) @ u32_bytes (sh_info h) @ u32_bytes (sh_addralign h) @
     u32_bytes (sh_entsize h)"

definition bytes_Shdr :: "u8 list \<Rightarrow> Elf32_Shdr" where
  "bytes_Shdr bs = \<lparr>sh_name = bytes_u32 bs, sh_type = bytes_u32 (drop 4 bs),
     sh_flags = bytes_u32 (drop 8 bs), sh_addr = bytes_u32 (drop 12 bs),
     sh_offset = bytes_u32 (drop 16 bs), sh_size = bytes_u32 (drop 20 bs),
     sh_link = bytes_u32 (drop 24 bs), sh_info = bytes_u32 (drop 28 bs),
     sh_addralign = bytes_u32 (drop 32 bs), sh_entsize = bytes_u32 (drop 36 bs)\<rparr>"

definition Sym_bytes :: "Elf32_Sym \<Rightarrow> u8 list" where
  "Sym_bytes s = u32_bytes (st_name s) @ u32_bytes (st_value s) @ u32_bytes (st_size s) @
     [st_info s, st_other s] @ u16_bytes (st_shndx s)"

definition Rel_bytes :: "Elf32_Rel \<Rightarrow> u8 list" where
  "Rel_bytes r = u32_bytes (r_offset r) @ u32_bytes (r_info r)"

section \<open>Fixed-size layouts\<close>

locale fixed_width =
  fixes valid :: "'a \<Rightarrow> bool"
    and enc :: "'a \<Rightarrow> u8 list"
    and width :: nat
  assumes length_enc: "valid x \<Longrightarrow> length (enc x) = width"
begin

text \<open>A table is the concatenation of its entries; each entry is found at its index.\<close>

lemma length_table: "list_all valid xs \<Longrightarrow> length (concat (map enc xs)) = width * length xs"
  by (induction xs) (simp_all add: length_enc)

lemma drop_table:
  assumes "list_all valid xs" and "i < length xs"
  shows "\<exists>bs. drop (width * i) (concat (map enc xs) @ tail) = enc (xs ! i) @ bs"
  using assms
proof (induction xs arbitrary: i)
  case Nil
  then show ?case by simp
next
  case (Cons x xs)
  then show ?case by (cases i) (auto simp: length_enc)
qed

end

text \<open>A layout that is read back, as the reader does with the headers.\<close>

locale byte_codec = fixed_width valid enc width
  for valid :: "'a \<Rightarrow> bool" and enc width +
  fixes dec :: "u8 list \<Rightarrow> 'a"
  assumes dec_enc: "valid x \<Longrightarrow> dec (enc x @ bs) = x"
begin

lemma enc_inject: "valid x \<Longrightarrow> valid y \<Longrightarrow> enc x = enc y \<longleftrightarrow> x = y"
  by (metis dec_enc)

lemma table_entry:
  assumes "list_all valid xs" and "i < length xs"
  shows "dec (drop (width * i) (concat (map enc xs) @ tail)) = xs ! i"
    and "take width (drop (width * i) (concat (map enc xs) @ tail)) = enc (xs ! i)"
proof -
  from drop_table [OF assms, of tail] obtain bs
    where bs: "drop (width * i) (concat (map enc xs) @ tail) = enc (xs ! i) @ bs" by blast
  have "valid (xs ! i)" using assms by (simp add: list_all_length)
  with bs show "dec (drop (width * i) (concat (map enc xs) @ tail)) = xs ! i"
    and "take width (drop (width * i) (concat (map enc xs) @ tail)) = enc (xs ! i)"
    by (simp_all add: dec_enc length_enc)
qed

end

text \<open>A layout in the other byte order, by swapping before encoding and after decoding.\<close>

locale swapped_codec = byte_codec valid enc width dec
  for valid :: "'a \<Rightarrow> bool" and enc width dec +
  fixes swap :: "'a \<Rightarrow> 'a"
  assumes swap_swap: "swap (swap x) = x"
    and valid_swap: "valid x \<Longrightarrow> valid (swap x)"
begin

sublocale swapped: byte_codec valid "\<lambda>x. enc (swap x)" width "\<lambda>bs. swap (dec bs)"
  by unfold_locales (simp_all add: length_enc dec_enc valid_swap swap_swap)

end

definition valid_Ehdr :: "Elf32_Ehdr \<Rightarrow> bool" where
  "valid_Ehdr h \<longleftrightarrow> length (e_ident h) = 16"

interpretation ehdr: swapped_codec valid_Ehdr Ehdr_bytes sizeof_Ehdr bytes_Ehdr swap_elf_header
  by unfold_locales
    (simp_all add: valid_Ehdr_def Ehdr_bytes_def bytes_Ehdr_def, simp_all add: swap_elf_header_def)

interpretation shdr: swapped_codec "\<lambda>_. True" Shdr_bytes sizeof_Shdr bytes_Shdr swap_section_header
  by unfold_locales (simp_all add: Shdr_bytes_def bytes_Shdr_def)

interpretation sym: fixed_width "\<lambda>_. True" Sym_bytes sizeof_Sym
  by unfold_locales (simp add: Sym_bytes_def)

interpretation rel: fixed_width "\<lambda>_. True" Rel_bytes sizeof_Rel
  by unfold_locales (simp add: Rel_bytes_def)

end
