(* ===== verification/Elf.thy ===== *)
theory Elf
  imports Elf_Format
begin

text \<open>
  The object file in memory: the section classes and \<open>class ELF\<close> of
  \<open>include/elf.hpp\<close> and \<open>src/elf.cpp\<close>. A section is a record of its name, its header
  and its contents, which distinguish the four classes derived from \<open>Section<T>\<close>. The
  members of \<open>ELF\<close> are the record \<open>ELF\<close>; the indices into \<open>sections_\<close> are natural
  numbers. A member function is an operation on the record that returns or throws:
  \<open>ELFException\<close> with its message (which the macro \<open>ELF_EXCEPTION\<close> also writes to
  \<open>std::cerr\<close>), \<open>bad_cast\<close> where a \<open>dynamic_cast\<close> to a reference fails,
  \<open>at_out_of_range\<close> where \<open>vector::at\<close> throws, and \<open>bad_pointer\<close> where the code would
  read beyond the array it is given.
\<close>

datatype SectionType = ST_PROGBITS | ST_STRTAB | ST_SYMTAB | ST_REL | ST_INVALID

datatype elf_error = ELFException string | bad_cast | at_out_of_range | bad_pointer

section \<open>Symbol attributes\<close>

text \<open>
  The classes \<open>ISection::Type\<close>, \<open>Binding\<close> and \<open>Visibility\<close>: a byte each, made by
  the default constructor or by one of the member functions.
\<close>

datatype Type = Type u8
datatype Binding = Binding u8
datatype Visibility = Visibility u8

fun sym_type :: "Type \<Rightarrow> u8" where "sym_type (Type t) = t"
fun sym_binding :: "Binding \<Rightarrow> u8" where "sym_binding (Binding b) = b"
fun sym_visibility :: "Visibility \<Rightarrow> u8" where "sym_visibility (Visibility v) = v"

definition Type_default :: Type where "Type_default = Type STT_NOTYPE"
definition Type_noType :: Type where "Type_noType = Type STT_NOTYPE"
definition Type_object :: Type where "Type_object = Type STT_OBJECT"
definition Type_function :: Type where "Type_function = Type STT_FUNC"
definition Type_section :: Type where "Type_section = Type STT_SECTION"
definition Type_file :: Type where "Type_file = Type STT_FILE"

definition Binding_default :: Binding where "Binding_default = Binding STB_GLOBAL"
definition Binding_local :: Binding where "Binding_local = Binding STB_LOCAL"
definition Binding_global :: Binding where "Binding_global = Binding STB_GLOBAL"
definition Binding_weak :: Binding where "Binding_weak = Binding STB_WEAK"

definition Visibility_default :: Visibility where "Visibility_default = Visibility STV_DEFAULT"
definition Visibility_default_ext :: Visibility where "Visibility_default_ext = Visibility STV_DEFAULT"
definition Visibility_internal :: Visibility where "Visibility_internal = Visibility STV_INTERNAL"
definition Visibility_hidden :: Visibility where "Visibility_hidden = Visibility STV_HIDDEN"
definition Visibility_protected :: Visibility where "Visibility_protected = Visibility STV_PROTECTED"

section \<open>Sections\<close>

datatype section_data =
    ProgramSection "u8 list"
  | StrTabSection "string list"
  | SymTabSection "Elf32_Sym list"
  | RelSection string "Elf32_Rel list"

record ISection =
  s_name :: string
  s_header :: Elf32_Shdr
  s_data :: section_data

definition make_ProgramSection :: "string \<Rightarrow> Elf32_Shdr \<Rightarrow> ISection" where
  "make_ProgramSection name hdr = \<lparr>s_name = name, s_header = hdr, s_data = ProgramSection []\<rparr>"

definition make_StrTabSection :: "string \<Rightarrow> Elf32_Shdr \<Rightarrow> ISection" where
  "make_StrTabSection name hdr = \<lparr>s_name = name, s_header = hdr, s_data = StrTabSection [[]]\<rparr>"

definition null_symbol :: Elf32_Sym where
  "null_symbol = \<lparr>st_name = 0, st_value = 0, st_size = 0, st_info = 0, st_other = 0, st_shndx = 0\<rparr>"

definition make_SymTabSection :: "string \<Rightarrow> Elf32_Shdr \<Rightarrow> ISection" where
  "make_SymTabSection name hdr = \<lparr>s_name = name, s_header = hdr, s_data = SymTabSection [null_symbol]\<rparr>"

definition make_RelSection :: "string \<Rightarrow> Elf32_Shdr \<Rightarrow> string \<Rightarrow> ISection" where
  "make_RelSection name hdr other = \<lparr>s_name = name, s_header = hdr, s_data = RelSection other []\<rparr>"

definition section_type :: "ISection \<Rightarrow> SectionType" where
  "section_type s =
     (case s_data s of
        ProgramSection _ \<Rightarrow> ST_PROGBITS
      | StrTabSection _ \<Rightarrow> ST_STRTAB
      | SymTabSection _ \<Rightarrow> ST_SYMTAB
      | RelSection _ _ \<Rightarrow> ST_REL)"

definition ProgramSection_append :: "u8 list \<Rightarrow> ISection \<Rightarrow> ISection" where
  "ProgramSection_append buf s =
     (case s_data s of
        ProgramSection d \<Rightarrow>
          s\<lparr>s_data := ProgramSection (d @ buf),
            s_header := (s_header s)\<lparr>sh_size := sh_size (s_header s) + of_nat (length buf)\<rparr>\<rparr>
      | _ \<Rightarrow> s)"

text \<open>
  \<open>StrTabSection::size\<close> accumulates into an \<open>int\<close>, since the initial value of
  \<open>std::accumulate\<close> is the literal \<open>0\<close>: each step adds in \<open>size_t\<close> and narrows the
  sum to \<open>int\<close>, which is widened with its sign on the next step and on return.
\<close>

definition strtab_size :: "string list \<Rightarrow> u64" where
  "strtab_size strings =
     scast (foldl (\<lambda>(acc :: u32) st. ucast ((scast acc :: u64) + of_nat (length st) + 1)) 0 strings)"

text \<open>Each class has its own \<open>size\<close> and \<open>write\<close>; the virtual call picks by the contents.\<close>

definition ProgramSection_size :: "u8 list \<Rightarrow> u64" where
  "ProgramSection_size d = of_nat (length d)"

definition SymTabSection_size :: "Elf32_Sym list \<Rightarrow> u64" where
  "SymTabSection_size symbols = of_nat sizeof_Sym * of_nat (length symbols)"

definition RelSection_size :: "Elf32_Rel list \<Rightarrow> u64" where
  "RelSection_size relocations = of_nat sizeof_Rel * of_nat (length relocations)"

definition section_size :: "ISection \<Rightarrow> u64" where
  "section_size s =
     (case s_data s of
        ProgramSection d \<Rightarrow> ProgramSection_size d
      | StrTabSection strings \<Rightarrow> strtab_size strings
      | SymTabSection symbols \<Rightarrow> SymTabSection_size symbols
      | RelSection _ relocations \<Rightarrow> RelSection_size relocations)"

text \<open>The bytes that \<open>write\<close> sends to the stream; a \<open>char\<close> is the byte with its code.\<close>

definition char_byte :: "char \<Rightarrow> u8" where
  "char_byte c = of_nat (of_char c)"

definition c_bytes :: "string \<Rightarrow> u8 list" where
  "c_bytes st = map char_byte st @ [0]"

definition strtab_write :: "string list \<Rightarrow> u8 list" where
  "strtab_write strings = concat (map c_bytes strings)"

definition SymTabSection_write :: "Elf32_Sym list \<Rightarrow> u8 list" where
  "SymTabSection_write symbols = concat (map Sym_bytes symbols)"

definition RelSection_write :: "Elf32_Rel list \<Rightarrow> u8 list" where
  "RelSection_write relocations = concat (map Rel_bytes relocations)"

definition section_write :: "ISection \<Rightarrow> u8 list" where
  "section_write s =
     (case s_data s of
        ProgramSection d \<Rightarrow> d
      | StrTabSection strings \<Rightarrow> strtab_write strings
      | SymTabSection symbols \<Rightarrow> SymTabSection_write symbols
      | RelSection _ relocations \<Rightarrow> RelSection_write relocations)"

lemmas size_write_defs [simp] =
  ProgramSection_size_def SymTabSection_size_def RelSection_size_def
  strtab_write_def SymTabSection_write_def RelSection_write_def

section \<open>The object\<close>

record ELF =
  elf_header :: Elf32_Ehdr
  elf_sections :: "ISection list"
  shstrtab_idx :: nat
  strtab_idx :: nat
  curr_section :: nat
  curr_rel_idx :: nat
  curr_symtab_idx :: nat
  symbol_names :: "string set"

type_synonym 'a elf_op = "(elf_error, ELF, 'a) operation"

definition section_at :: "nat \<Rightarrow> ELF \<Rightarrow> elf_error + ISection" where
  "section_at i e = (if i < length (elf_sections e) then Inr (elf_sections e ! i) else Inl at_out_of_range)"

definition strings_at :: "nat \<Rightarrow> ELF \<Rightarrow> elf_error + string list" where
  "strings_at i e = rbind (section_at i e)
     (\<lambda>s. case s_data s of StrTabSection ss \<Rightarrow> Inr ss | _ \<Rightarrow> Inl bad_cast)"

definition symbols_at :: "nat \<Rightarrow> ELF \<Rightarrow> elf_error + Elf32_Sym list" where
  "symbols_at i e = rbind (section_at i e)
     (\<lambda>s. case s_data s of SymTabSection ss \<Rightarrow> Inr ss | _ \<Rightarrow> Inl bad_cast)"

definition relocations_at :: "nat \<Rightarrow> ELF \<Rightarrow> elf_error + Elf32_Rel list" where
  "relocations_at i e = rbind (section_at i e)
     (\<lambda>s. case s_data s of RelSection _ rs \<Rightarrow> Inr rs | _ \<Rightarrow> Inl bad_cast)"

definition shstring_table :: "ELF \<Rightarrow> elf_error + string list" where
  "shstring_table e = strings_at (shstrtab_idx e) e"

definition string_table :: "ELF \<Rightarrow> elf_error + string list" where
  "string_table e = strings_at (strtab_idx e) e"

definition current_section :: "ELF \<Rightarrow> elf_error + ISection" where
  "current_section e = section_at (curr_section e) e"

definition current_symbol_table :: "ELF \<Rightarrow> elf_error + Elf32_Sym list" where
  "current_symbol_table e = symbols_at (curr_symtab_idx e) e"

definition current_relocation_section :: "ELF \<Rightarrow> elf_error + Elf32_Rel list" where
  "current_relocation_section e = relocations_at (curr_rel_idx e) e"

text \<open>Writing through a reference to the section at an index.\<close>

definition update_section :: "nat \<Rightarrow> (ISection \<Rightarrow> ISection) \<Rightarrow> ELF \<Rightarrow> ELF" where
  "update_section i f e = e\<lparr>elf_sections := (elf_sections e)[i := f (elf_sections e ! i)]\<rparr>"

definition push_string :: "string \<Rightarrow> ISection \<Rightarrow> ISection" where
  "push_string st s = (case s_data s of StrTabSection ss \<Rightarrow> s\<lparr>s_data := StrTabSection (ss @ [st])\<rparr> | _ \<Rightarrow> s)"

definition push_symbol :: "Elf32_Sym \<Rightarrow> ISection \<Rightarrow> ISection" where
  "push_symbol y s = (case s_data s of SymTabSection ys \<Rightarrow> s\<lparr>s_data := SymTabSection (ys @ [y])\<rparr> | _ \<Rightarrow> s)"

definition push_relocation :: "Elf32_Rel \<Rightarrow> ISection \<Rightarrow> ISection" where
  "push_relocation r s = (case s_data s of RelSection other rs \<Rightarrow> s\<lparr>s_data := RelSection other (rs @ [r])\<rparr> | _ \<Rightarrow> s)"

definition insert_data :: "u8 list \<Rightarrow> ISection \<Rightarrow> ISection" where
  "insert_data data s = (case s_data s of ProgramSection d \<Rightarrow> s\<lparr>s_data := ProgramSection (d @ data)\<rparr> | _ \<Rightarrow> s)"

definition grow_header :: "nat \<Rightarrow> ISection \<Rightarrow> ISection" where
  "grow_header n s = s\<lparr>s_header := (s_header s)\<lparr>sh_size := sh_size (s_header s) + of_nat n\<rparr>\<rparr>"

section \<open>Operations\<close>

definition section_named :: "string \<Rightarrow> ELF \<Rightarrow> nat" where
  "section_named name e = find_if (\<lambda>s. s_name s = name) (elf_sections e)"

definition rel_header :: Elf32_Shdr where
  "rel_header = \<lparr>sh_name = 0, sh_type = SHT_REL, sh_flags = 0, sh_addr = 0, sh_offset = 0,
     sh_size = 0, sh_link = 0, sh_info = 0, sh_addralign = 0, sh_entsize = of_nat sizeof_Rel\<rparr>"

definition add_section :: "ISection \<Rightarrow> bool \<Rightarrow> unit elf_op" where
  "add_section section relocatable e =
     (if section_named (s_name section) e < length (elf_sections e) then
        (Inl (ELFException (''Cannot add section with duplicate name: '' @ s_name section)), e)
      else
        let name = s_name section;
            finish = (\<lambda>section e.
              let e = e\<lparr>elf_sections := elf_sections e @ [section]\<rparr> in
              if relocatable
              then (Inr (), e\<lparr>elf_sections := elf_sections e @ [make_RelSection (''rel'' @ name) rel_header name]\<rparr>)
              else (Inr (), e))
        in if name = ''shstrtab'' then
             (case s_data section of
                StrTabSection _ \<Rightarrow> finish (push_string name section) e
              | _ \<Rightarrow> (Inl bad_cast, e))
           else
             (case shstring_table e of
                Inl x \<Rightarrow> (Inl x, e)
              | Inr _ \<Rightarrow> finish section (update_section (shstrtab_idx e) (push_string name) e)))"

definition set_section :: "string \<Rightarrow> unit elf_op" where
  "set_section name e =
     (let it = section_named name e in
      if it = length (elf_sections e) then (Inl (ELFException (''Invalid section: '' @ name)), e)
      else (Inr (), e\<lparr>curr_section := it, curr_rel_idx := section_named (''rel'' @ name) e\<rparr>))"

definition add_string :: "string \<Rightarrow> unit elf_op" where
  "add_string str =
     sbind (sread string_table) (\<lambda>_.
       smodify (\<lambda>e. update_section (strtab_idx e) (grow_header (length str + 1) \<circ> push_string str) e))"

text \<open>
  The stream in \<open>add_symbol\<close> starts with the text \<open>Symbol \<close> but is written from its
  beginning, so the text that is put into it replaces that start.
\<close>

definition overwrite :: "string \<Rightarrow> string \<Rightarrow> string" where
  "overwrite initial written = written @ drop (length written) initial"

definition duplicate_message :: "string \<Rightarrow> string" where
  "duplicate_message name = overwrite ''Symbol '' (name @ '' cannot be defined twice'')"

definition make_symbol :: "nat \<Rightarrow> u32 \<Rightarrow> u32 \<Rightarrow> Type \<Rightarrow> Binding \<Rightarrow> Visibility \<Rightarrow> nat \<Rightarrow> Elf32_Sym" where
  "make_symbol nameidx val sz typ bnd visibility shndx =
     \<lparr>st_name = of_nat nameidx,
      st_value = val,
      st_size = sz,
      st_info = ELF32_ST_INFO (sym_binding bnd) (sym_type typ),
      st_other = ELF32_ST_VISIBILITY (sym_visibility visibility),
      st_shndx = ucast (of_nat shndx :: u8)\<rparr>"

text \<open>The part of \<open>add_symbol\<close> after the check for a duplicate.\<close>

definition define_symbol ::
  "string \<Rightarrow> u32 \<Rightarrow> u32 \<Rightarrow> Type \<Rightarrow> Binding \<Rightarrow> Visibility \<Rightarrow> bool \<Rightarrow> Elf32_Sym elf_op" where
  "define_symbol name val sz typ bnd visibility relocatable =
     sthen (smodify (\<lambda>e. e\<lparr>symbol_names := insert name (symbol_names e)\<rparr>))
    (sbind (sread current_symbol_table) (\<lambda>symbols.
     sbind (sread string_table) (\<lambda>strings.
     sthen (add_string name)
    (sbind (sread (\<lambda>e. Inr (make_symbol (length strings) val sz typ bnd visibility (curr_section e))))
    (\<lambda>symbol.
     sthen (smodify (\<lambda>e. update_section (curr_symtab_idx e) (push_symbol symbol) e))
    (sthen
      (if relocatable then
         sbind (sread current_relocation_section) (\<lambda>_.
           smodify (\<lambda>e. update_section (curr_rel_idx e)
             (push_relocation \<lparr>r_offset = val, r_info = ELF32_R_INFO (of_nat (length symbols)) R_386_32\<rparr>) e))
       else sreturn ())
    (sreturn symbol)))))))"

definition add_symbol ::
  "string \<Rightarrow> u32 \<Rightarrow> u32 \<Rightarrow> Type \<Rightarrow> Binding \<Rightarrow> Visibility \<Rightarrow> bool \<Rightarrow> Elf32_Sym elf_op" where
  "add_symbol name val sz typ bnd visibility relocatable e =
     (if name \<in> symbol_names e then (Inl (ELFException (duplicate_message name)), e)
      else define_symbol name val sz typ bnd visibility relocatable e)"

definition add_progbits :: "u8 list \<Rightarrow> unit elf_op" where
  "add_progbits data =
     sbind (sread current_section) (\<lambda>s.
       if section_type s \<noteq> ST_PROGBITS then
         sthrow (ELFException ''Attempted to add PROGBITS to non-PROGBITS section'')
       else smodify (\<lambda>e. update_section (curr_section e) (insert_data data) e))"

definition add_progbits_ptr :: "u8 list \<Rightarrow> nat \<Rightarrow> unit elf_op" where
  "add_progbits_ptr pData n =
     sbind (sread current_section) (\<lambda>s.
       if section_type s \<noteq> ST_PROGBITS then
         sthrow (ELFException ''Attempted to add PROGBITS to non-PROGBITS section'')
       else if length pData < n then sthrow bad_pointer
       else smodify (\<lambda>e. update_section (curr_section e) (insert_data (take n pData)) e))"

section \<open>The constructor\<close>

text \<open>
  The member initialisers and assignments of \<open>ELF::ELF\<close> before the first section is
  added. \<open>e_shstrndx\<close> is never assigned: its indeterminate value is the parameter
  \<open>junk\<close>. The members \<open>strtab_idx_\<close> and \<open>curr_symtab_idx_\<close> are assigned before they are
  read, and start at 0 here.
\<close>

definition ELF_IDENT :: "u8 list" where
  "ELF_IDENT = [0x7f, 0x45, 0x4c, 0x46, ELFCLASS32, ELFDATA2MSB, 1, ELFOSABI_STANDALONE,
     0, 0, 0, 0, 0, 0, 0, 0]"

definition ELF_initial_header :: "u16 \<Rightarrow> Elf32_Ehdr" where
  "ELF_initial_header junk = \<lparr>
     e_ident = ELF_IDENT,
     e_type = ET_REL,
     e_machine = EM_NONE,
     e_version = EV_CURRENT,
     e_entry = 0,
     e_phoff = 0,
     e_shoff = 0,
     e_flags = 0,
     e_ehsize = of_nat sizeof_Ehdr,
     e_phentsize = of_nat sizeof_Phdr,
     e_phnum = 0,
     e_shentsize = of_nat sizeof_Shdr,
     e_shnum = 0,
     e_shstrndx = junk\<rparr>"

definition ELF_blank :: "u16 \<Rightarrow> ELF" where
  "ELF_blank junk = \<lparr>
     elf_header = ELF_initial_header junk,
     elf_sections = [],
     shstrtab_idx = 0,
     strtab_idx = 0,
     curr_section = 0,
     curr_rel_idx = 0,
     curr_symtab_idx = 0,
     symbol_names = {}\<rparr>"

definition make_Shdr :: "u32 \<Rightarrow> u32 \<Rightarrow> u32 \<Rightarrow> Elf32_Shdr" where
  "make_Shdr ty flags entsize = \<lparr>sh_name = 0, sh_type = ty, sh_flags = flags, sh_addr = 0,
     sh_offset = 0, sh_size = 0, sh_link = 0, sh_info = 0, sh_addralign = 0, sh_entsize = entsize\<rparr>"

definition ELF_construct :: "unit elf_op" where
  "ELF_construct =
     sthen (smodify (\<lambda>e. e\<lparr>shstrtab_idx := length (elf_sections e)\<rparr>))
    (sthen (add_section (make_StrTabSection ''shstrtab'' (make_Shdr SHT_STRTAB 0 0)) False)
    (sthen (smodify (\<lambda>e. e\<lparr>strtab_idx := length (elf_sections e)\<rparr>))
    (sthen (add_section (make_StrTabSection ''strtab'' (make_Shdr SHT_STRTAB 0 0)) False)
    (sthen (add_section (make_ProgramSection ''data'' (make_Shdr SHT_PROGBITS (SHF_ALLOC OR SHF_WRITE) 0)) False)
    (sthen (add_section (make_ProgramSection ''rodata'' (make_Shdr SHT_PROGBITS SHF_ALLOC 0)) False)
    (sthen (add_section (make_ProgramSection ''bss'' (make_Shdr SHT_NOBITS (SHF_ALLOC OR SHF_WRITE) 0)) False)
    (sthen (add_section (make_ProgramSection ''text'' (make_Shdr SHT_PROGBITS (SHF_ALLOC OR SHF_EXECINSTR) 0)) False)
    (sthen (add_section (make_ProgramSection ''init'' (make_Shdr SHT_PROGBITS (SHF_ALLOC OR SHF_EXECINSTR) 0)) False)
    (sthen (smodify (\<lambda>e. e\<lparr>curr_symtab_idx := length (elf_sections e)\<rparr>))
      (add_section (make_SymTabSection ''symtab'' (make_Shdr SHT_SYMTAB SHF_ALLOC (of_nat sizeof_Sym))) False))))))))))"

definition ELF_new :: "u16 \<Rightarrow> elf_error + ELF" where
  "ELF_new junk =
     (case ELF_construct (ELF_blank junk) of
        (Inl x, _) \<Rightarrow> Inl x
      | (Inr _, e) \<Rightarrow> Inr e)"

end
