(* ===== verification/Evaluator.thy ===== *)
theory Evaluator
  imports Ast Elf
begin

text \<open>
  Constant folding, \<open>Assembler::evaluate\<close> and its three helpers in \<open>src/assembler.cpp\<close>.
  The operands of an operator are \<open>uint8_t\<close> values promoted to \<open>int\<close>; the result is
  converted back by the constructor of \<open>Number\<close>. A division by zero has no defined
  behaviour and is the explicit outcome \<open>division_by_zero\<close>. The order in which the two
  operands of an \<open>Instruction2\<close> are evaluated is not fixed by the language: the model
  evaluates the left one first, which is visible only in which exception wins if both throw.
  \<open>wrong_node\<close> stands for arguments that the C++ types of the helpers exclude.
\<close>

datatype asm_error =
    AssemblerException string
  | division_by_zero
  | wrong_node
  | operand_out_of_range
  | elf_failure elf_error

fun evaluate :: "BaseNode \<Rightarrow> asm_error + BaseNode"
and evaluateInstruction :: "BaseNode \<Rightarrow> asm_error + BaseNode"
and evaluateBinaryOp :: "BaseNode \<Rightarrow> asm_error + BaseNode"
and evaluateUnaryOp :: "BaseNode \<Rightarrow> asm_error + BaseNode"
where
  "evaluate node =
     (case node of
        Root ns \<Rightarrow> rbind (map_result evaluate ns) (\<lambda>ns'. Inr (Root ns'))
      | Instruction0 _ \<Rightarrow> evaluateInstruction node
      | Instruction1 _ _ \<Rightarrow> evaluateInstruction node
      | Instruction2 _ _ _ \<Rightarrow> evaluateInstruction node
      | InstructionN _ _ \<Rightarrow> evaluateInstruction node
      | Register _ \<Rightarrow> Inr node
      | DRegister _ _ \<Rightarrow> Inr node
      | Label _ \<Rightarrow> Inr node
      | Number _ \<Rightarrow> Inr node
      | BinaryOp _ _ _ \<Rightarrow> evaluateBinaryOp node
      | UnaryOp _ _ \<Rightarrow> evaluateUnaryOp node
      | _ \<Rightarrow> Inl (AssemblerException ''Unrecognized AST node type''))"
| "evaluateInstruction node =
     (case node of
        Instruction0 _ \<Rightarrow> Inr node
      | Instruction1 t a \<Rightarrow> rbind (evaluate a) (\<lambda>a'. Inr (Instruction1 t a'))
      | Instruction2 t a b \<Rightarrow>
          rbind (evaluate a) (\<lambda>a'. rbind (evaluate b) (\<lambda>b'. Inr (Instruction2 t a' b')))
      | InstructionN _ _ \<Rightarrow> Inl (AssemblerException ''Invalid number of Instruction operands'')
      | _ \<Rightarrow> Inl wrong_node)"
| "evaluateBinaryOp node =
     (case node of
        BinaryOp BO_ADD l r \<Rightarrow>
          rbind (evaluate l) (\<lambda>vLeft. rbind (evaluate r) (\<lambda>vRight.
            case (vLeft, vRight) of
              (Number a, Number b) \<Rightarrow> Inr (make_Number (uint a + uint b))
            | _ \<Rightarrow> Inr (BinaryOp BO_ADD vLeft vRight)))
      | BinaryOp BO_SUB l r \<Rightarrow>
          rbind (evaluate l) (\<lambda>vLeft. rbind (evaluate r) (\<lambda>vRight.
            case (vLeft, vRight) of
              (Number a, Number b) \<Rightarrow> Inr (make_Number (uint a - uint b))
            | _ \<Rightarrow> Inr (BinaryOp BO_SUB vLeft vRight)))
      | BinaryOp BO_MULT l r \<Rightarrow>
          rbind (evaluate l) (\<lambda>vLeft. rbind (evaluate r) (\<lambda>vRight.
            case (vLeft, vRight) of
              (Number a, Number b) \<Rightarrow> Inr (make_Number (uint a * uint b))
            | _ \<Rightarrow> Inr (BinaryOp BO_MULT vLeft vRight)))
      | BinaryOp BO_DIV l r \<Rightarrow>
          rbind (evaluate l) (\<lambda>vLeft. rbind (evaluate r) (\<lambda>vRight.
            case (vLeft, vRight) of
              (Number a, Number b) \<Rightarrow>
                if b = 0 then Inl division_by_zero else Inr (make_Number (uint a div uint b))
            | _ \<Rightarrow> Inr (BinaryOp BO_DIV vLeft vRight)))
      | BinaryOp BO_INVALID _ _ \<Rightarrow> Inl (AssemblerException ''Invalid BinaryOpType'')
      | _ \<Rightarrow> Inl wrong_node)"
| "evaluateUnaryOp node =
     (case node of
        UnaryOp UO_NEG a \<Rightarrow>
          rbind (evaluate a) (\<lambda>vRand.
            case vRand of
              Number n \<Rightarrow> Inr (make_Number (- uint n))
            | _ \<Rightarrow> Inr (UnaryOp UO_NEG vRand))
      | UnaryOp UO_INVALID _ \<Rightarrow> Inl (AssemblerException ''Invalid UnaryOpType'')
      | _ \<Rightarrow> Inl wrong_node)"

declare evaluate.simps [simp del] evaluateInstruction.simps [simp del]
  evaluateBinaryOp.simps [simp del] evaluateUnaryOp.simps [simp del]

section \<open>The value of an expression\<close>

text \<open>
  What an expression means once its labels have values: arithmetic on \<open>uint8_t\<close>, without
  a value where a divisor is zero.
\<close>

fun binop_value :: "BinaryOpType \<Rightarrow> u8 \<Rightarrow> u8 \<Rightarrow> u8 option" where
  "binop_value BO_ADD a b = Some (a + b)"
| "binop_value BO_SUB a b = Some (a - b)"
| "binop_value BO_MULT a b = Some (a * b)"
| "binop_value BO_DIV a b = (if b = 0 then None else Some (a div b))"
| "binop_value BO_INVALID a b = None"

fun denote :: "(string \<Rightarrow> u8) \<Rightarrow> BaseNode \<Rightarrow> u8 option" where
  "denote \<rho> (Number n) = Some n"
| "denote \<rho> (Label l) = Some (\<rho> l)"
| "denote \<rho> (BinaryOp op l r) =
     Option.bind (denote \<rho> l) (\<lambda>a. Option.bind (denote \<rho> r) (\<lambda>b. binop_value op a b))"
| "denote \<rho> (UnaryOp UO_NEG a) = map_option uminus (denote \<rho> a)"
| "denote \<rho> _ = None"

fun is_expr :: "BaseNode \<Rightarrow> bool" where
  "is_expr (Number n) = True"
| "is_expr (Label l) = True"
| "is_expr (BinaryOp op l r) = (op \<noteq> BO_INVALID \<and> is_expr l \<and> is_expr r)"
| "is_expr (UnaryOp op a) = (op = UO_NEG \<and> is_expr a)"
| "is_expr _ = False"

fun labels_of :: "BaseNode \<Rightarrow> string set" where
  "labels_of (Label l) = {l}"
| "labels_of (BinaryOp op l r) = labels_of l \<union> labels_of r"
| "labels_of (UnaryOp op a) = labels_of a"
| "labels_of _ = {}"

section \<open>Folding one operator\<close>

definition fold_binary :: "BinaryOpType \<Rightarrow> BaseNode \<Rightarrow> BaseNode \<Rightarrow> asm_error + BaseNode" where
  "fold_binary op l r =
     (case (l, r) of
        (Number a, Number b) \<Rightarrow>
          (case binop_value op a b of None \<Rightarrow> Inl division_by_zero | Some v \<Rightarrow> Inr (Number v))
      | _ \<Rightarrow> Inr (BinaryOp op l r))"

definition fold_unary :: "BaseNode \<Rightarrow> BaseNode" where
  "fold_unary a = (case a of Number n \<Rightarrow> Number (- n) | _ \<Rightarrow> UnaryOp UO_NEG a)"

lemma evaluate_leaf [simp]:
  "evaluate (Number n) = Inr (Number n)" "evaluate (Label l) = Inr (Label l)"
  "evaluate (Register c) = Inr (Register c)" "evaluate (DRegister c d) = Inr (DRegister c d)"
  "evaluate (Directive t ts) = Inl (AssemblerException ''Unrecognized AST node type'')"
  "evaluate InvalidNode = Inl (AssemblerException ''Unrecognized AST node type'')"
  by (simp_all add: evaluate.simps)

lemma evaluate_Root [simp]:
  "evaluate (Root ns) = rbind (map_result evaluate ns) (\<lambda>ns'. Inr (Root ns'))"
  by (simp add: evaluate.simps)

lemma evaluate_instr [simp]:
  "evaluate (Instruction0 t) = Inr (Instruction0 t)"
  "evaluate (Instruction1 t a) = rbind (evaluate a) (\<lambda>a'. Inr (Instruction1 t a'))"
  "evaluate (Instruction2 t a b) =
     rbind (evaluate a) (\<lambda>a'. rbind (evaluate b) (\<lambda>b'. Inr (Instruction2 t a' b')))"
  "evaluate (InstructionN t n) = Inl (AssemblerException ''Invalid number of Instruction operands'')"
  by (simp_all add: evaluate.simps [of "Instruction0 t"] evaluate.simps [of "Instruction1 t a"]
      evaluate.simps [of "Instruction2 t a b"] evaluate.simps [of "InstructionN t n"]
      evaluateInstruction.simps)

lemma make_Number_simps [simp]:
  "make_Number (uint a + uint b) = Number (a + b)"
  "make_Number (uint a - uint b) = Number (a - b)"
  "make_Number (uint a * uint b) = Number (a * b)"
  "make_Number (uint a div uint b) = Number (a div b)"
  "make_Number (- uint a) = Number (- a)"
  by (simp_all add: make_Number_def word_div_def)

lemma evaluate_BinaryOp [simp]:
  "evaluate (BinaryOp op l r) =
     (if op = BO_INVALID then Inl (AssemblerException ''Invalid BinaryOpType'')
      else rbind (evaluate l) (\<lambda>l'. rbind (evaluate r) (\<lambda>r'. fold_binary op l' r')))"
proof -
  have "evaluate (BinaryOp op l r) = evaluateBinaryOp (BinaryOp op l r)"
    by (simp add: evaluate.simps)
  then show ?thesis
    by (cases op) (auto simp: evaluateBinaryOp.simps fold_binary_def intro!: rbind_cong
        split: BaseNode.split)
qed

lemma evaluate_UnaryOp [simp]:
  "evaluate (UnaryOp op a) =
     (if op = UO_INVALID then Inl (AssemblerException ''Invalid UnaryOpType'')
      else rbind (evaluate a) (\<lambda>a'. Inr (fold_unary a')))"
proof -
  have "evaluate (UnaryOp op a) = evaluateUnaryOp (UnaryOp op a)"
    by (simp add: evaluate.simps)
  then show ?thesis
    by (cases op) (auto simp: evaluateUnaryOp.simps fold_unary_def intro!: rbind_cong
        split: BaseNode.split)
qed

lemma fold_binary_cases:
  obtains (numbers) a b where "l = Number a" "r = Number b"
      "fold_binary op l r = (case binop_value op a b of None \<Rightarrow> Inl division_by_zero | Some v \<Rightarrow> Inr (Number v))"
  | (open_l) "\<not> (\<exists>a. l = Number a)" "fold_binary op l r = Inr (BinaryOp op l r)"
  | (open_r) "\<not> (\<exists>b. r = Number b)" "fold_binary op l r = Inr (BinaryOp op l r)"
  by (cases l; cases r) (auto simp: fold_binary_def)

lemma fold_unary_simps [simp]:
  "fold_unary (Number n) = Number (- n)"
  "\<not> (\<exists>n. a = Number n) \<Longrightarrow> fold_unary a = UnaryOp UO_NEG a"
  by (cases a; simp add: fold_unary_def)+

section \<open>Folding keeps the value\<close>

lemma denote_fold_binary:
  "fold_binary op l r = Inr n \<Longrightarrow> denote \<rho> n = denote \<rho> (BinaryOp op l r)"
  by (cases l r op rule: fold_binary_cases) (auto split: option.splits)

lemma denote_fold_unary: "denote \<rho> (fold_unary a) = denote \<rho> (UnaryOp UO_NEG a)"
  by (cases "\<exists>n. a = Number n") auto

lemma fold_binary_expr:
  "fold_binary op l r = Inr n \<Longrightarrow> op \<noteq> BO_INVALID \<Longrightarrow> is_expr l \<Longrightarrow> is_expr r \<Longrightarrow>
   is_expr n \<and> labels_of n \<subseteq> labels_of l \<union> labels_of r"
  by (cases l r op rule: fold_binary_cases) (auto split: option.splits)

lemma fold_unary_expr: "is_expr a \<Longrightarrow> is_expr (fold_unary a) \<and> labels_of (fold_unary a) \<subseteq> labels_of a"
  by (cases "\<exists>n. a = Number n") auto

definition same_value :: "(string \<Rightarrow> u8) \<Rightarrow> BaseNode \<Rightarrow> BaseNode \<Rightarrow> bool" where
  "same_value \<rho> e e' \<longleftrightarrow> denote \<rho> e' = denote \<rho> e \<and> is_expr e' \<and> labels_of e' \<subseteq> labels_of e"

lemma evaluate_same_value: "is_expr e \<Longrightarrow> evaluate e = Inr e' \<Longrightarrow> same_value \<rho> e e'"
proof (induction e arbitrary: e')
  case (BinaryOp op l r)
  from BinaryOp.prems obtain l' r' where l: "evaluate l = Inr l'" and r: "evaluate r = Inr r'"
    and n: "fold_binary op l' r' = Inr e'" and ne: "op \<noteq> BO_INVALID"
    by (auto simp: rbind_Inr_iff)
  have IH: "same_value \<rho> l l'" "same_value \<rho> r r'"
    using BinaryOp.IH(1) [OF _ l] BinaryOp.IH(2) [OF _ r] BinaryOp.prems(1) by simp_all
  with fold_binary_expr [OF n ne] denote_fold_binary [OF n, of \<rho>] show ?case
    by (auto simp: same_value_def)
next
  case (UnaryOp op a)
  from UnaryOp.prems obtain a' where a: "evaluate a = Inr a'" and n: "e' = fold_unary a'" and op: "op = UO_NEG"
    by (auto simp: rbind_Inr_iff)
  have "same_value \<rho> a a'" using UnaryOp.IH [OF _ a] UnaryOp.prems(1) by simp
  with fold_unary_expr [of a'] show ?case
    by (auto simp: n op denote_fold_unary same_value_def)
next
  case (Number n)
  then show ?case by (auto simp: same_value_def)
next
  case (Label l)
  then show ?case by (auto simp: same_value_def)
qed simp_all

lemma evaluate_expr:
  "is_expr e \<Longrightarrow> evaluate e = Inr e' \<Longrightarrow>
   denote \<rho> e' = denote \<rho> e \<and> is_expr e' \<and> labels_of e' \<subseteq> labels_of e"
  using evaluate_same_value by (simp add: same_value_def)

lemma evaluate_expr_error:
  "is_expr e \<Longrightarrow> evaluate e = Inl x \<Longrightarrow> x = division_by_zero \<and> denote \<rho> e = None"
proof (induction e arbitrary: x)
  case (BinaryOp op l r)
  from BinaryOp.prems consider (l) "evaluate l = Inl x" | (r) l' where "evaluate l = Inr l'" "evaluate r = Inl x"
    | (div) l' r' where "evaluate l = Inr l'" "evaluate r = Inr r'" "fold_binary op l' r' = Inl x"
    by (auto simp: rbind_Inl_iff)
  then show ?case
  proof cases
    case l
    with BinaryOp show ?thesis by auto
  next
    case r
    with BinaryOp.IH(2) BinaryOp.prems(1) show ?thesis by (cases "denote \<rho> l") auto
  next
    case div
    then obtain a b where "l' = Number a" "r' = Number b" "binop_value op a b = None" "x = division_by_zero"
      by (cases l' r' op rule: fold_binary_cases) (auto split: option.splits)
    moreover from this div BinaryOp.prems(1) have "denote \<rho> l = Some a" "denote \<rho> r = Some b"
      using evaluate_expr [of l l' \<rho>] evaluate_expr [of r r' \<rho>] by auto
    ultimately show ?thesis by simp
  qed
next
  case (UnaryOp op a)
  then show ?case by (auto simp: rbind_Inl_iff)
qed auto

lemma closed_number: "is_expr e \<Longrightarrow> labels_of e = {} \<Longrightarrow> evaluate e = Inr e' \<Longrightarrow> \<exists>n. e' = Number n"
proof (induction e arbitrary: e')
  case (BinaryOp op l r)
  then show ?case
    by (auto simp: rbind_Inr_iff fold_binary_def split: option.splits)
next
  case (UnaryOp op a)
  then show ?case by (auto simp: rbind_Inr_iff)
qed auto

lemma evaluate_closed:
  assumes "is_expr e" and "labels_of e = {}"
  shows "evaluate e = (case denote \<rho> e of None \<Rightarrow> Inl division_by_zero | Some v \<Rightarrow> Inr (Number v))"
proof (cases "evaluate e")
  case (Inl x)
  with evaluate_expr_error [OF assms(1) Inl, of \<rho>] show ?thesis by simp
next
  case (Inr e')
  obtain n where n: "e' = Number n" using closed_number [OF assms Inr] by blast
  with evaluate_expr [OF assms(1) Inr, of \<rho>] have "denote \<rho> e = Some n" by simp
  with Inr n show ?thesis by simp
qed

section \<open>Normal forms\<close>

fun is_Number :: "BaseNode \<Rightarrow> bool" where
  "is_Number (Number n) = True"
| "is_Number _ = False"

fun folded :: "BaseNode \<Rightarrow> bool" where
  "folded (Root ns) = list_all folded ns"
| "folded (Register c) = True"
| "folded (DRegister c d) = True"
| "folded (Label l) = True"
| "folded (Number n) = True"
| "folded (BinaryOp op l r) =
     (op \<noteq> BO_INVALID \<and> folded l \<and> folded r \<and> \<not> (is_Number l \<and> is_Number r))"
| "folded (UnaryOp op a) = (op = UO_NEG \<and> folded a \<and> \<not> is_Number a)"
| "folded (Instruction0 t) = True"
| "folded (Instruction1 t a) = folded a"
| "folded (Instruction2 t a b) = (folded a \<and> folded b)"
| "folded _ = False"

lemma is_Number_iff: "is_Number n \<longleftrightarrow> (\<exists>v. n = Number v)"
  by (cases n) auto

lemma evaluate_folded: "evaluate n = Inr n' \<Longrightarrow> folded n'"
proof (induction n arbitrary: n')
  case (Root ns)
  then obtain ns' where "n' = Root ns'" "list_all2 (\<lambda>x y. evaluate x = Inr y) ns ns'"
    by (auto simp: rbind_Inr_iff map_result_Inr_iff)
  then have "folded (ns' ! i)" if "i < length ns'" for i
    using that Root.IH [of "ns ! i" "ns' ! i"] by (simp add: list_all2_conv_all_nth)
  with \<open>n' = Root ns'\<close> show ?case by (simp add: list_all_length)
next
  case (BinaryOp op l r)
  then obtain l' r' where "folded l'" "folded r'" "fold_binary op l' r' = Inr n'" "op \<noteq> BO_INVALID"
    by (auto simp: rbind_Inr_iff split: if_splits)
  then show ?case
    by (cases l' r' op rule: fold_binary_cases) (auto simp: is_Number_iff split: option.splits)
next
  case (UnaryOp op a)
  then obtain a' where "folded a'" "n' = fold_unary a'"
    by (auto simp: rbind_Inr_iff split: if_splits)
  then show ?case by (cases "is_Number a'") (auto simp: is_Number_iff)
qed (auto simp: rbind_Inr_iff)

lemma folded_evaluate: "folded n \<Longrightarrow> evaluate n = Inr n"
proof (induction n)
  case (Root ns)
  then have "map_result evaluate ns = Inr ns"
    by (auto simp: map_result_Inr_iff list_all2_conv_all_nth list_all_length)
  then show ?case by simp
next
  case (BinaryOp op l r)
  then have "fold_binary op l r = Inr (BinaryOp op l r)"
    by (cases l r op rule: fold_binary_cases) (auto simp: is_Number_iff)
  with BinaryOp show ?case by simp
next
  case (UnaryOp op a)
  then show ?case by (auto simp: is_Number_iff)
qed auto

section \<open>Properties\<close>

text \<open>C16: Folding keeps the value of an expression: whatever values the labels have, the
  folded expression has the value of the original one in \<open>uint8_t\<close> arithmetic, wrap-around and
  division included, and it mentions no new label.\<close>

theorem evaluate_preserves_value:
  assumes "is_expr e" and "evaluate e = Inr e'"
  shows "denote \<rho> e' = denote \<rho> e \<and> is_expr e' \<and> labels_of e' \<subseteq> labels_of e"
  using evaluate_same_value [OF assms] by (simp add: same_value_def)

theorem evaluate_preserves_value_witness:
  "denote (\<lambda>_. 7) (BinaryOp BO_ADD (Label ''x'') (Number 44)) =
     denote (\<lambda>_. 7) (BinaryOp BO_ADD (Label ''x'') (BinaryOp BO_MULT (Number 100) (Number 3))) \<and>
   is_expr (BinaryOp BO_ADD (Label ''x'') (Number 44)) \<and>
   labels_of (BinaryOp BO_ADD (Label ''x'') (Number 44)) \<subseteq>
     labels_of (BinaryOp BO_ADD (Label ''x'') (BinaryOp BO_MULT (Number 100) (Number 3)))"
  by (rule evaluate_preserves_value) (simp_all add: fold_binary_def)

text \<open>\<open>evaluate\<close> returns on every expression that has a value for some values of its
  labels; the only thing that can stop it is a division by a literal zero.\<close>

lemma evaluate_returns:
  assumes "is_expr e" and "denote \<rho> e \<noteq> None"
  shows "\<exists>e'. evaluate e = Inr e'"
proof (cases "evaluate e")
  case (Inl x)
  with evaluate_expr_error [OF assms(1) Inl, of \<rho>] assms(2) show ?thesis by simp
qed simp


text \<open>C27: \<open>evaluate\<close> reaches a normal form in one pass, for any node: nothing that it returns
  has an operator left whose operands are all numbers, and evaluating the result again changes
  nothing.\<close>

theorem evaluate_normal_form:
  assumes "evaluate n = Inr n'"
  shows "folded n' \<and> evaluate n' = Inr n'"
  using evaluate_folded [OF assms] folded_evaluate by blast

theorem evaluate_normal_form_witness:
  "folded (Instruction1 IT_CP (BinaryOp BO_SUB (Label ''x'') (Number 3))) \<and>
   evaluate (Instruction1 IT_CP (BinaryOp BO_SUB (Label ''x'') (Number 3))) =
     Inr (Instruction1 IT_CP (BinaryOp BO_SUB (Label ''x'') (Number 3)))"
proof -
  have "evaluate (Instruction1 IT_CP (BinaryOp BO_SUB (Label ''x'') (BinaryOp BO_ADD (Number 1) (Number 2)))) =
      Inr (Instruction1 IT_CP (BinaryOp BO_SUB (Label ''x'') (Number 3)))"
    by (simp add: fold_binary_def)
  then show ?thesis by (rule evaluate_normal_form)
qed

end
