(* ===== verification/Encoders.thy ===== *)
theory Encoders
  imports Evaluator "HOL-Library.RBT"
begin

unbundle bit_operations_syntax

text \<open>
  The instruction encoders: \<open>InstructionNone\<close> of \<open>include/assembler.hpp\<close>, and the register
  encodings, the \<open>struct\<close>s with an \<open>encode\<close> member, and the table \<open>formats\<close> of
  \<open>src/assembler.cpp\<close>. Each \<open>encode\<close> is a function of the members of its structure;
  template parameters are arguments too. The bytes are computed on \<open>uint8_t\<close>: the \<open>int\<close>
  results of the code lose nothing, since no shifted operand leaves eight bits. The map is
  the red-black tree that a \<open>std::map\<close> is, with the instruction types in the order of
  their enumeration as keys.
\<close>

section \<open>Instructions without operands\<close>

definition InstructionNone_encode :: "InstructionType \<Rightarrow> asm_error + u8" where
  "InstructionNone_encode typ =
     (case typ of
        IT_NOP \<Rightarrow> Inr 0x00
      | IT_STOP \<Rightarrow> Inr 0x10
      | IT_RLCA \<Rightarrow> Inr 0x07
      | IT_RLA \<Rightarrow> Inr 0x17
      | IT_DAA \<Rightarrow> Inr 0x27
      | IT_SCF \<Rightarrow> Inr 0x37
      | IT_RRCA \<Rightarrow> Inr 0x0f
      | IT_RRA \<Rightarrow> Inr 0x1f
      | IT_CPL \<Rightarrow> Inr 0x2f
      | IT_CCF \<Rightarrow> Inr 0x3f
      | IT_HALT \<Rightarrow> Inr 0x76
      | IT_DI \<Rightarrow> Inr 0xf3
      | IT_RET \<Rightarrow> Inr 0xc9
      | IT_RETI \<Rightarrow> Inr 0xd9
      | IT_EI \<Rightarrow> Inr 0xfb
      | _ \<Rightarrow> Inl (AssemblerException ''Unrecognized instruction''))"

section \<open>Registers\<close>

definition encodeRegister :: "char \<Rightarrow> asm_error + u8" where
  "encodeRegister reg =
     (if reg = CHR ''b'' then Inr 0
      else if reg = CHR ''c'' then Inr 1
      else if reg = CHR ''d'' then Inr 2
      else if reg = CHR ''e'' then Inr 3
      else if reg = CHR ''h'' then Inr 4
      else if reg = CHR ''l'' then Inr 5
      else if reg = CHR ''m'' then Inr 6
      else if reg = CHR ''a'' then Inr 7
      else Inl (AssemblerException ''Invalid register''))"

definition encodeDRegister :: "char \<Rightarrow> char \<Rightarrow> asm_error + u8" where
  "encodeDRegister reg0 reg1 =
     (if reg0 = CHR ''b'' \<and> reg1 = CHR ''c'' then Inr 0
      else if reg0 = CHR ''d'' \<and> reg1 = CHR ''e'' then Inr 1
      else if reg0 = CHR ''h'' \<and> reg1 = CHR ''l'' then Inr 2
      else if reg0 = CHR ''a'' \<and> reg1 = CHR ''f'' then Inr 3
      else Inl (AssemblerException ''Invalid register''))"

section \<open>Structures with an encoder\<close>

definition InstructionRA_encode :: "InstructionType \<Rightarrow> char \<Rightarrow> asm_error + u8" where
  "InstructionRA_encode typ reg =
     (let enc = (\<lambda>opcode :: u8. rbind (encodeRegister reg) (\<lambda>r. Inr (push_bit 3 opcode OR r))) in
      case typ of
        IT_SUB \<Rightarrow> enc 0x12
      | IT_SBC \<Rightarrow> enc 0x13
      | IT_AND \<Rightarrow> enc 0x14
      | IT_XOR \<Rightarrow> enc 0x15
      | IT_OR \<Rightarrow> enc 0x16
      | IT_CP \<Rightarrow> enc 0x17
      | _ \<Rightarrow> Inl (AssemblerException ''Invalid InstructionRA type''))"

definition InstructionR_encode :: "InstructionType \<Rightarrow> char \<Rightarrow> asm_error + u8" where
  "InstructionR_encode typ reg =
     (let prefix = 0 :: u8;
          enc = (\<lambda>opcode. rbind (encodeRegister reg) (\<lambda>r. Inr (push_bit 6 prefix OR r OR opcode)))
      in case typ of
        IT_INC \<Rightarrow> enc 0x4
      | IT_DEC \<Rightarrow> enc 0x5
      | _ \<Rightarrow> Inl (AssemblerException ''Invalid InstructionR''))"

text \<open>The template parameters meet the \<open>static_assert\<close>s, otherwise there is no program.\<close>

definition InstructionRI8_encode :: "u8 \<Rightarrow> char \<Rightarrow> asm_error + u16" where
  "InstructionRI8_encode prefix reg =
     rbind (encodeRegister reg) (\<lambda>r. Inr (push_bit 6 (ucast prefix) OR push_bit 3 (ucast r) OR 0x6))"

definition InstructionD_encode :: "InstructionType \<Rightarrow> char \<Rightarrow> char \<Rightarrow> asm_error + u8" where
  "InstructionD_encode typ reg0 reg1 =
     (let enc = (\<lambda>(prefix :: u8) (opcode :: u8).
            rbind (encodeDRegister reg0 reg1) (\<lambda>r. Inr (push_bit 6 prefix OR push_bit 4 r OR opcode)))
      in case typ of
        IT_INC \<Rightarrow> enc 0x0 0x3
      | IT_DEC \<Rightarrow> enc 0x0 0xb
      | IT_POP \<Rightarrow> enc 0x3 0x1
      | IT_PUSH \<Rightarrow> enc 0x3 0x5
      | _ \<Rightarrow> Inl (AssemblerException ''Invalid InstructionD''))"

definition InstructionA_encode :: "InstructionType \<Rightarrow> char \<Rightarrow> char \<Rightarrow> asm_error + u8" where
  "InstructionA_encode typ reg0 reg1 =
     (if reg0 \<noteq> CHR ''h'' \<or> reg1 \<noteq> CHR ''l''
      then Inl (AssemblerException ''Invalid register for InstructionA'')
      else case typ of
        IT_INC \<Rightarrow> Inr 0x34
      | IT_DEC \<Rightarrow> Inr 0x35
      | IT_JP \<Rightarrow> Inr 0xe9
      | _ \<Rightarrow> Inl (AssemblerException ''Invalid InstructionA''))"

definition InstructionDI16_encode :: "u8 \<Rightarrow> char \<Rightarrow> char \<Rightarrow> u8 \<Rightarrow> u16 \<Rightarrow> asm_error + u32" where
  "InstructionDI16_encode prefix reg0 reg1 opcode imm =
     rbind (encodeDRegister reg0 reg1) (\<lambda>r.
       let instr = push_bit 6 prefix OR push_bit 4 r OR opcode
       in Inr (push_bit 16 (ucast instr) OR ucast imm))"

definition InstructionRR_encode :: "u8 \<Rightarrow> char \<Rightarrow> char \<Rightarrow> asm_error + u8" where
  "InstructionRR_encode prefix rd rs =
     rbind (encodeRegister rd) (\<lambda>d. rbind (encodeRegister rs) (\<lambda>s.
       Inr (push_bit 6 prefix OR push_bit 3 d OR s)))"

definition InstructionFI8_encode :: "u8 \<Rightarrow> u8 \<Rightarrow> u8 \<Rightarrow> u8 \<Rightarrow> u8" where
  "InstructionFI8_encode prefix flag opcode imm8 = push_bit 6 prefix OR opcode"

definition InstructionI8_encode :: "InstructionType \<Rightarrow> asm_error + u8" where
  "InstructionI8_encode typ =
     (case typ of
        IT_JR \<Rightarrow> Inr 0x18
      | IT_SUB \<Rightarrow> Inr 0xd6
      | IT_AND \<Rightarrow> Inr 0xe6
      | IT_OR \<Rightarrow> Inr 0xf6
      | IT_XOR \<Rightarrow> Inr 0xee
      | IT_CP \<Rightarrow> Inr 0xff
      | _ \<Rightarrow> Inl (AssemblerException ''Invalid InstructionI8''))"

definition InstructionI16_encode :: "InstructionType \<Rightarrow> asm_error + u8" where
  "InstructionI16_encode typ =
     (case typ of
        IT_JP \<Rightarrow> Inr 0xc3
      | IT_CALL \<Rightarrow> Inr 0xcd
      | _ \<Rightarrow> Inl (AssemblerException ''Invalid InstructionI16''))"

section \<open>Formats\<close>

datatype OperandType =
  OT_REGISTER | OT_DREGISTER | OT_IMM8 | OT_IMM16 | OT_RADDR | OT_IADDR | OT_FLAG | OT_INVALID

type_synonym format = "OperandType \<times> OperandType"

definition format_list :: "(InstructionType \<times> format list) list" where
  "format_list =
     [(IT_INC, [(OT_REGISTER, OT_INVALID), (OT_DREGISTER, OT_INVALID)]),
      (IT_DEC, [(OT_REGISTER, OT_INVALID), (OT_DREGISTER, OT_INVALID)]),
      (IT_LD, [(OT_REGISTER, OT_IMM8), (OT_DREGISTER, OT_IMM16)]),
      (IT_NOP, [(OT_INVALID, OT_INVALID)]),
      (IT_STOP, [(OT_INVALID, OT_INVALID)]),
      (IT_RLCA, [(OT_INVALID, OT_INVALID)]),
      (IT_RLA, [(OT_INVALID, OT_INVALID)]),
      (IT_DAA, [(OT_INVALID, OT_INVALID)]),
      (IT_SCF, [(OT_INVALID, OT_INVALID)]),
      (IT_RRCA, [(OT_INVALID, OT_INVALID)]),
      (IT_RRA, [(OT_INVALID, OT_INVALID)]),
      (IT_CPL, [(OT_INVALID, OT_INVALID)]),
      (IT_CCF, [(OT_INVALID, OT_INVALID)]),
      (IT_JR, [(OT_FLAG, OT_IMM8), (OT_IMM8, OT_INVALID)]),
      (IT_HALT, [(OT_INVALID, OT_INVALID)]),
      (IT_SUB, [(OT_REGISTER, OT_INVALID), (OT_REGISTER, OT_IMM8)]),
      (IT_AND, [(OT_REGISTER, OT_INVALID), (OT_REGISTER, OT_IMM8)]),
      (IT_XOR, [(OT_REGISTER, OT_INVALID), (OT_REGISTER, OT_IMM8)]),
      (IT_OR, [(OT_REGISTER, OT_INVALID), (OT_REGISTER, OT_IMM8)]),
      (IT_CP, [(OT_REGISTER, OT_INVALID), (OT_REGISTER, OT_IMM8)]),
      (IT_POP, [(OT_DREGISTER, OT_INVALID)]),
      (IT_PUSH, [(OT_DREGISTER, OT_INVALID)]),
      (IT_DI, [(OT_INVALID, OT_INVALID)]),
      (IT_EI, [(OT_INVALID, OT_INVALID)]),
      (IT_RET, [(OT_INVALID, OT_INVALID), (OT_FLAG, OT_IMM8)]),
      (IT_RETI, [(OT_INVALID, OT_INVALID)]),
      (IT_JP, [(OT_FLAG, OT_IMM8), (OT_IMM16, OT_INVALID)]),
      (IT_CALL, [(OT_FLAG, OT_IMM8), (OT_IMM16, OT_INVALID)])]"

definition formats :: "(InstructionType, format list) RBT.rbt" where
  "formats = RBT.bulkload format_list"

lemma lookup_formats: "RBT.lookup formats t = map_of format_list t"
  by (simp add: formats_def)

text \<open>A key that occurred twice would lose one of its entries.\<close>

lemma format_keys_distinct: "distinct (map fst format_list)"
  by (simp add: format_list_def)

section \<open>The encodings as numbers\<close>

definition alu_index :: "InstructionType \<Rightarrow> nat option" where
  "alu_index t = map_of [(IT_SUB, 2), (IT_SBC, 3), (IT_AND, 4), (IT_XOR, 5), (IT_OR, 6), (IT_CP, 7)] t"

definition register_index :: "char \<Rightarrow> nat option" where
  "register_index c = map_of (zip ''bcdehlma'' [0 ..< 8]) c"

definition dregister_index :: "char \<Rightarrow> char \<Rightarrow> nat option" where
  "dregister_index c d = map_of (zip [''bc'', ''de'', ''hl'', ''af''] [0 ..< 4]) [c, d]"

lemma upt_8: "[0 ..< 8] = [0, 1, 2, 3, 4, 5, 6, 7 :: nat]" "[0 ..< 4] = [0, 1, 2, 3 :: nat]"
  by (simp_all add: upt_rec)

lemma register_index_encode:
  "encodeRegister c = (case register_index c of None \<Rightarrow> Inl (AssemblerException ''Invalid register'')
     | Some i \<Rightarrow> Inr (of_nat i))"
  by (simp add: encodeRegister_def register_index_def upt_8)

lemma dregister_index_encode:
  "encodeDRegister c d = (case dregister_index c d of None \<Rightarrow> Inl (AssemblerException ''Invalid register'')
     | Some i \<Rightarrow> Inr (of_nat i))"
  by (simp add: encodeDRegister_def dregister_index_def upt_8)

lemma register_index_cases:
  assumes "register_index c = Some i"
  shows "i \<in> {0, 1, 2, 3, 4, 5, 6, 7}"
  using assms by (auto simp: register_index_def upt_8 split: if_splits)

lemma dregister_index_cases: "dregister_index c d = Some i \<Longrightarrow> i \<in> {0, 1, 2, 3}"
  by (auto simp: dregister_index_def upt_8 split: if_splits)

lemma alu_index_cases: "alu_index t = Some k \<Longrightarrow> k \<in> {2, 3, 4, 5, 6, 7}"
  by (auto simp: alu_index_def split: if_splits)

lemma InstructionRA_code:
  "InstructionRA_encode t c =
     (case (alu_index t, register_index c) of
        (None, _) \<Rightarrow> Inl (AssemblerException ''Invalid InstructionRA type'')
      | (Some k, None) \<Rightarrow> Inl (AssemblerException ''Invalid register'')
      | (Some k, Some i) \<Rightarrow> Inr (of_nat (0x80 + 8 * k + i)))"
proof (cases "register_index c")
  case None
  then show ?thesis
    by (cases t) (simp_all add: InstructionRA_encode_def alu_index_def register_index_encode)
next
  case (Some i)
  with register_index_cases [OF Some] show ?thesis
    by (cases t) (auto simp: InstructionRA_encode_def alu_index_def register_index_encode)
qed

lemma InstructionD_code:
  "InstructionD_encode t c d =
     (case (map_of [(IT_INC, 0x03), (IT_DEC, 0x0b), (IT_POP, 0xc1), (IT_PUSH, 0xc5)] t, dregister_index c d) of
        (None, _) \<Rightarrow> Inl (AssemblerException ''Invalid InstructionD'')
      | (Some base, None) \<Rightarrow> Inl (AssemblerException ''Invalid register'')
      | (Some base, Some i) \<Rightarrow> Inr (of_nat (base + 16 * i)))"
proof (cases "dregister_index c d")
  case None
  then show ?thesis
    by (cases t) (simp_all add: InstructionD_encode_def dregister_index_encode)
next
  case (Some i)
  with dregister_index_cases [OF Some] show ?thesis
    by (cases t) (auto simp: InstructionD_encode_def dregister_index_encode)
qed

lemma InstructionR_code:
  "InstructionR_encode t c =
     (if t \<notin> {IT_INC, IT_DEC} then Inl (AssemblerException ''Invalid InstructionR'')
      else case register_index c of
        None \<Rightarrow> Inl (AssemblerException ''Invalid register'')
      | Some i \<Rightarrow> Inr (of_nat (if t = IT_INC then 4 + i mod 4 else 5 + 2 * (i div 2 mod 2))))"
proof (cases "register_index c")
  case None
  then show ?thesis
    by (cases t) (simp_all add: InstructionR_encode_def register_index_encode)
next
  case (Some i)
  with register_index_cases [OF Some] show ?thesis
    by (cases t) (auto simp: InstructionR_encode_def register_index_encode)
qed

end
