(* ===== verification/Elf_Invariants.thy ===== *)
theory Elf_Invariants
  imports Elf
begin

text \<open>
  What every operation of \<open>ELF\<close> keeps, also when it throws. \<open>elf_wf\<close>: the
  tables are where their indices say, section names are distinct, and the section name
  string table lists exactly the names of the sections, in their order (locale
  \<open>preserved\<close>). For what the string table, the symbol table and the set \<open>symbol_names_\<close> say about the
  symbols there are two invariants, one for all public operations and a sharper one for those of the
  assembler; both are interpretations of the locale \<open>table_invariant\<close>.
\<close>

section \<open>Access to sections\<close>

lemma update_section_simps [simp]:
  "elf_header (update_section i f e) = elf_header e"
  "elf_sections (update_section i f e) = (elf_sections e)[i := f (elf_sections e ! i)]"
  "shstrtab_idx (update_section i f e) = shstrtab_idx e"
  "strtab_idx (update_section i f e) = strtab_idx e"
  "curr_section (update_section i f e) = curr_section e"
  "curr_rel_idx (update_section i f e) = curr_rel_idx e"
  "curr_symtab_idx (update_section i f e) = curr_symtab_idx e"
  "symbol_names (update_section i f e) = symbol_names e"
  by (simp_all add: update_section_def)

lemma section_at_Inr [result_iff]:
  "section_at i e = Inr s \<longleftrightarrow> i < length (elf_sections e) \<and> s = elf_sections e ! i"
  by (auto simp: section_at_def)

lemma strings_at_Inr [result_iff]:
  "strings_at i e = Inr ss \<longleftrightarrow>
     i < length (elf_sections e) \<and> s_data (elf_sections e ! i) = StrTabSection ss"
  by (auto simp: strings_at_def result_iff split: section_data.splits)

lemma symbols_at_Inr [result_iff]:
  "symbols_at i e = Inr ys \<longleftrightarrow>
     i < length (elf_sections e) \<and> s_data (elf_sections e ! i) = SymTabSection ys"
  by (auto simp: symbols_at_def result_iff split: section_data.splits)

lemma relocations_at_Inr [result_iff]:
  "relocations_at i e = Inr rs \<longleftrightarrow>
     i < length (elf_sections e) \<and> (\<exists>other. s_data (elf_sections e ! i) = RelSection other rs)"
  by (auto simp: relocations_at_def result_iff split: section_data.splits)

lemma section_type_iff:
  "section_type s = ST_PROGBITS \<longleftrightarrow> (\<exists>d. s_data s = ProgramSection d)"
  "section_type s = ST_STRTAB \<longleftrightarrow> (\<exists>ss. s_data s = StrTabSection ss)"
  "section_type s = ST_SYMTAB \<longleftrightarrow> (\<exists>ys. s_data s = SymTabSection ys)"
  "section_type s = ST_REL \<longleftrightarrow> (\<exists>other rs. s_data s = RelSection other rs)"
  by (auto simp: section_type_def split: section_data.splits)

text \<open>The changes to a section keep its name and its class.\<close>

lemma change_names [simp]:
  "s_name (push_string st s) = s_name s" "s_name (push_symbol y s) = s_name s"
  "s_name (push_relocation r s) = s_name s" "s_name (insert_data d s) = s_name s"
  "s_name (grow_header n s) = s_name s"
  by (simp_all add: push_string_def push_symbol_def push_relocation_def insert_data_def
      grow_header_def split: section_data.splits)

lemma change_types [simp]:
  "section_type (push_string st s) = section_type s"
  "section_type (push_symbol y s) = section_type s"
  "section_type (push_relocation r s) = section_type s"
  "section_type (insert_data d s) = section_type s"
  "section_type (grow_header n s) = section_type s"
  by (simp_all add: push_string_def push_symbol_def push_relocation_def insert_data_def
      grow_header_def section_type_def split: section_data.splits)

lemma change_strtab [simp]:
  "s_data s = StrTabSection ss \<Longrightarrow> push_symbol y s = s"
  "s_data s = StrTabSection ss \<Longrightarrow> push_relocation r s = s"
  "s_data s = StrTabSection ss \<Longrightarrow> insert_data d s = s"
  "s_data s = StrTabSection ss \<Longrightarrow> s_data (push_string st s) = StrTabSection (ss @ [st])"
  "s_data (grow_header n s) = s_data s"
  by (simp_all add: push_string_def push_symbol_def push_relocation_def insert_data_def
      grow_header_def)

lemma change_symtab [simp]:
  "s_data s = SymTabSection ys \<Longrightarrow> push_relocation r s = s"
  "s_data s = SymTabSection ys \<Longrightarrow> insert_data d s = s"
  "s_data s = SymTabSection ys \<Longrightarrow> push_string st s = s"
  "s_data s = SymTabSection ys \<Longrightarrow> s_data (push_symbol y s) = SymTabSection (ys @ [y])"
  by (simp_all add: push_string_def push_symbol_def push_relocation_def insert_data_def)

section \<open>Well-formed objects\<close>

definition elf_wf :: "ELF \<Rightarrow> bool" where
  "elf_wf e \<longleftrightarrow>
     (let ss = elf_sections e in
      shstrtab_idx e < length ss \<and> strtab_idx e < length ss \<and>
      curr_symtab_idx e < length ss \<and> curr_section e < length ss \<and>
      shstrtab_idx e \<noteq> strtab_idx e \<and>
      s_name (ss ! shstrtab_idx e) = ''shstrtab'' \<and>
      s_data (ss ! shstrtab_idx e) = StrTabSection ([] # map s_name ss) \<and>
      section_type (ss ! strtab_idx e) = ST_STRTAB \<and>
      section_type (ss ! curr_symtab_idx e) = ST_SYMTAB \<and>
      distinct (map s_name ss))"

lemma elf_wfD:
  assumes "elf_wf e"
  shows "shstrtab_idx e < length (elf_sections e)" and "strtab_idx e < length (elf_sections e)"
    and "curr_symtab_idx e < length (elf_sections e)" and "curr_section e < length (elf_sections e)"
    and "shstrtab_idx e \<noteq> strtab_idx e" and "s_name (elf_sections e ! shstrtab_idx e) = ''shstrtab''"
    and "s_data (elf_sections e ! shstrtab_idx e) = StrTabSection ([] # map s_name (elf_sections e))"
    and "section_type (elf_sections e ! strtab_idx e) = ST_STRTAB"
    and "section_type (elf_sections e ! curr_symtab_idx e) = ST_SYMTAB"
    and "distinct (map s_name (elf_sections e))"
  using assms by (simp_all add: elf_wf_def Let_def)

lemma elf_wf_tables:
  assumes "elf_wf e"
  obtains ss ys where "string_table e = Inr ss" and "current_symbol_table e = Inr ys"
    and "shstring_table e = Inr ([] # map s_name (elf_sections e))"
  using elf_wfD [OF assms]
  by (auto simp: string_table_def current_symbol_table_def shstring_table_def result_iff section_type_iff)

text \<open>A change of one section that keeps its name and class, and does not change the table of names.\<close>

lemma map_s_name_update:
  assumes "i < length ss" and "s_name (f (ss ! i)) = s_name (ss ! i)"
  shows "map s_name (ss[i := f (ss ! i)]) = map s_name ss"
  using assms by (metis list_update_id list_update_beyond map_update)

lemma elf_wf_update:
  assumes "elf_wf e"
    and "\<And>s. s_name (f s) = s_name s" and "\<And>s. section_type (f s) = section_type s"
    and "i = shstrtab_idx e \<Longrightarrow> s_data (f (elf_sections e ! i)) = s_data (elf_sections e ! i)"
  shows "elf_wf (update_section i f e)"
proof (cases "i < length (elf_sections e)")
  case True
  with elf_wfD [OF assms(1)] assms(2-4) show ?thesis
    by (auto simp: elf_wf_def Let_def map_s_name_update nth_list_update)
next
  case False
  then have "(elf_sections e)[i := f (elf_sections e ! i)] = elf_sections e"
    by (simp add: list_update_beyond)
  with assms(1) show ?thesis by (simp add: elf_wf_def)
qed

interpretation wf: preserved elf_wf .

lemma keeps_set_section: "wf.keeps (set_section name)"
proof (rule wf.keepsI)
  fix e
  assume e: "elf_wf e"
  have "section_named name e \<le> length (elf_sections e)"
    by (simp add: section_named_def find_if_le)
  then show "elf_wf (snd (set_section name e))"
    using elf_wfD [OF e] e by (auto simp: set_section_def Let_def elf_wf_def)
qed

lemma keeps_add_string: "wf.keeps (add_string str)"
proof (rule wf.keepsI)
  fix e
  assume e: "elf_wf e"
  then have "elf_wf (update_section (strtab_idx e) (grow_header (length str + 1) \<circ> push_string str) e)"
    using elf_wfD [OF e] by (intro elf_wf_update) auto
  then show "elf_wf (snd (add_string str e))"
    using e by (auto simp: add_string_def sbind_def split: sum.split)
qed

text \<open>Changes of the current section and of the current symbol table.\<close>

lemma keeps_change:
  assumes "\<And>s. s_name (f s) = s_name s" and "\<And>s. section_type (f s) = section_type s"
    and "\<And>s ss. s_data s = StrTabSection ss \<Longrightarrow> s_data (f s) = s_data s"
  shows "wf.keeps (smodify (\<lambda>e. update_section (g e) f e))"
proof (rule wf.keepsI)
  fix e
  assume e: "elf_wf e"
  have "elf_wf (update_section (g e) f e)"
    using elf_wfD [OF e] assms e by (intro elf_wf_update) auto
  then show "elf_wf (snd (smodify (\<lambda>e. update_section (g e) f e) e))" by simp
qed

lemma keeps_add_progbits: "wf.keeps (add_progbits data)"
  unfolding add_progbits_def
  by (auto intro!: wf.keeps_sbind keeps_change simp: elf_wfD)

lemma keeps_add_progbits_ptr: "wf.keeps (add_progbits_ptr pData n)"
  unfolding add_progbits_ptr_def
  by (auto intro!: wf.keeps_sbind keeps_change simp: elf_wfD)

section \<open>Adding sections\<close>

lemma section_named_less: "section_named name e < length (elf_sections e) \<longleftrightarrow> name \<in> s_name ` set (elf_sections e)"
  by (auto simp: section_named_def find_if_less_iff)

lemma add_section_duplicate:
  "s_name sec \<in> s_name ` set (elf_sections e) \<Longrightarrow>
   add_section sec relocatable e = (Inl (ELFException (''Cannot add section with duplicate name: '' @ s_name sec)), e)"
  by (simp add: add_section_def section_named_less)

lemma shstrtab_present: "elf_wf e \<Longrightarrow> ''shstrtab'' \<in> s_name ` set (elf_sections e)"
  using elf_wfD(1,6) by (metis imageI nth_mem)

lemma add_section_fresh:
  assumes "elf_wf e" and "s_name sec \<notin> s_name ` set (elf_sections e)"
  shows "add_section sec False e =
    (Inr (), e\<lparr>elf_sections :=
       (elf_sections e)[shstrtab_idx e := push_string (s_name sec) (elf_sections e ! shstrtab_idx e)] @ [sec]\<rparr>)"
proof -
  have "s_name sec \<noteq> ''shstrtab''" using assms shstrtab_present by metis
  moreover obtain ss where "shstring_table e = Inr ss" using elf_wf_tables [OF assms(1)] by metis
  moreover have "\<not> section_named (s_name sec) e < length (elf_sections e)"
    using assms(2) by (simp add: section_named_less)
  ultimately show ?thesis by (simp add: add_section_def Let_def update_section_def)
qed

lemma keeps_add_section: "wf.keeps (add_section sec False)"
proof (rule wf.keepsI)
  fix e
  assume e: "elf_wf e"
  show "elf_wf (snd (add_section sec False e))"
  proof (cases "s_name sec \<in> s_name ` set (elf_sections e)")
    case True
    with e show ?thesis by (simp add: add_section_duplicate)
  next
    case False
    let ?i = "shstrtab_idx e" and ?ss = "elf_sections e"
    let ?ss' = "?ss[?i := push_string (s_name sec) (?ss ! ?i)]"
    have names: "map s_name ?ss' = map s_name ?ss"
      using elf_wfD(1) [OF e] by (simp add: map_s_name_update)
    have "distinct (map s_name (?ss' @ [sec]))"
      unfolding map_append names using elf_wfD(10) [OF e] False by auto
    moreover have "s_data (?ss' ! ?i) = StrTabSection ([] # map s_name (?ss' @ [sec]))"
      unfolding map_append names using elf_wfD(1,7) [OF e] by simp
    ultimately show ?thesis
      using elf_wfD(1-6,8,9) [OF e]
      by (simp add: add_section_fresh [OF e False] elf_wf_def Let_def nth_append nth_list_update)
  qed
qed

section \<open>The object a constructor makes\<close>

definition initial_sections :: "ISection list" where
  "initial_sections =
     [\<lparr>s_name = ''shstrtab'', s_header = make_Shdr SHT_STRTAB 0 0,
        s_data = StrTabSection [[], ''shstrtab'', ''strtab'', ''data'', ''rodata'', ''bss'', ''text'',
          ''init'', ''symtab'']\<rparr>,
      make_StrTabSection ''strtab'' (make_Shdr SHT_STRTAB 0 0),
      make_ProgramSection ''data'' (make_Shdr SHT_PROGBITS 3 0),
      make_ProgramSection ''rodata'' (make_Shdr SHT_PROGBITS 2 0),
      make_ProgramSection ''bss'' (make_Shdr SHT_NOBITS 3 0),
      make_ProgramSection ''text'' (make_Shdr SHT_PROGBITS 6 0),
      make_ProgramSection ''init'' (make_Shdr SHT_PROGBITS 6 0),
      make_SymTabSection ''symtab'' (make_Shdr SHT_SYMTAB 2 16)]"

lemmas make_section_defs = make_StrTabSection_def make_ProgramSection_def make_SymTabSection_def
  make_RelSection_def

lemma sthen_apply: "sthen m n s = (case m s of (Inl e, t) \<Rightarrow> (Inl e, t) | (Inr a, t) \<Rightarrow> n t)"
  by (simp add: sthen_def sbind_def)

lemma add_section_first:
  "elf_sections e = [] \<Longrightarrow> add_section \<lparr>s_name = ''shstrtab'', s_header = hdr, s_data = StrTabSection [[]]\<rparr> False e =
     (Inr (), e\<lparr>elf_sections := [\<lparr>s_name = ''shstrtab'', s_header = hdr, s_data = StrTabSection [[], ''shstrtab'']\<rparr>]\<rparr>)"
  by (simp add: add_section_def section_named_def find_if_def push_string_def make_section_defs Let_def)

lemma add_section_more:
  assumes "elf_sections e = s0 # ss" and "shstrtab_idx e = 0" and "s_data s0 = StrTabSection strs"
    and "s_name sec \<notin> s_name ` set (s0 # ss)" and "s_name sec \<noteq> ''shstrtab''"
  shows "add_section sec False e =
    (Inr (), e\<lparr>elf_sections := s0\<lparr>s_data := StrTabSection (strs @ [s_name sec])\<rparr> # ss @ [sec]\<rparr>)"
proof -
  have "\<not> section_named (s_name sec) e < length (elf_sections e)"
    using section_named_less [of "s_name sec" e] assms(1,4) by auto
  with assms show ?thesis
    by (simp add: add_section_def Let_def update_section_def shstring_table_def strings_at_def
        section_at_def push_string_def)
qed

lemma ELF_new_eq:
  "ELF_new junk = Inr ((ELF_blank junk)\<lparr>elf_sections := initial_sections, strtab_idx := 1, curr_symtab_idx := 7\<rparr>)"
  by (simp add: ELF_new_def ELF_construct_def sthen_apply ELF_blank_def add_section_first
      add_section_more make_section_defs initial_sections_def)

definition new_object :: "u16 \<Rightarrow> ELF" where
  "new_object junk = (ELF_blank junk)\<lparr>elf_sections := initial_sections, strtab_idx := 1, curr_symtab_idx := 7\<rparr>"

lemma ELF_new_object: "ELF_new junk = Inr (new_object junk)"
  by (simp add: ELF_new_eq new_object_def)

lemma ELF_new_wf: "ELF_new junk = Inr e \<Longrightarrow> elf_wf e"
  by (auto simp: ELF_new_eq ELF_blank_def elf_wf_def initial_sections_def make_section_defs section_type_def)

section \<open>Symbols\<close>

text \<open>
  What the string table, the symbol table and \<open>symbol_names_\<close> of an object say together is a
  relation \<open>tables\<close> between them. Two of them are invariants. \<open>symbol_tables\<close>: the symbol table has
  the null symbol and one symbol for each name in \<open>symbol_names_\<close>, whose \<open>st_name\<close> is the index of
  this name among the strings. \<open>compact_tables\<close>: moreover the strings are the
  empty one and the names, in the order of the symbols; this holds as long as no
  string is added but those of symbols.
\<close>

definition symbol_tables :: "string list \<Rightarrow> Elf32_Sym list \<Rightarrow> string set \<Rightarrow> bool" where
  "symbol_tables ss ys N \<longleftrightarrow>
     (\<exists>names zs. ys = null_symbol # zs \<and> ss \<noteq> [] \<and> hd ss = [] \<and> distinct names \<and> set names = N \<and>
        list_all2 (\<lambda>name z. \<exists>k. 0 < k \<and> k < length ss \<and> ss ! k = name \<and> st_name z = of_nat k) names zs)"

definition compact_tables :: "string list \<Rightarrow> Elf32_Sym list \<Rightarrow> string set \<Rightarrow> bool" where
  "compact_tables ss ys N \<longleftrightarrow>
     (\<exists>names zs. ss = [] # names \<and> ys = null_symbol # zs \<and> distinct names \<and> set names = N \<and>
        length zs = length names \<and> map st_name zs = map (\<lambda>i. of_nat (i + 1)) [0 ..< length names])"

definition symbols_inv :: "(string list \<Rightarrow> Elf32_Sym list \<Rightarrow> string set \<Rightarrow> bool) \<Rightarrow> ELF \<Rightarrow> bool" where
  "symbols_inv tables e \<longleftrightarrow>
     (\<exists>ss ys. string_table e = Inr ss \<and> current_symbol_table e = Inr ys \<and> tables ss ys (symbol_names e))"

definition object_inv :: "(string list \<Rightarrow> Elf32_Sym list \<Rightarrow> string set \<Rightarrow> bool) \<Rightarrow> ELF \<Rightarrow> bool" where
  "object_inv tables e \<longleftrightarrow> elf_wf e \<and> symbols_inv tables e"

abbreviation symbols_wf :: "ELF \<Rightarrow> bool" where "symbols_wf \<equiv> symbols_inv compact_tables"
abbreviation object_ok :: "ELF \<Rightarrow> bool" where "object_ok \<equiv> object_inv compact_tables"

lemma symbols_inv_cong:
  "string_table e' = string_table e \<Longrightarrow> current_symbol_table e' = current_symbol_table e \<Longrightarrow>
   symbol_names e' = symbol_names e \<Longrightarrow> symbols_inv T e' = symbols_inv T e"
  by (simp add: symbols_inv_def)

lemma symbols_inv_mono:
  "symbols_inv T e \<Longrightarrow> (\<And>ss ys N. T ss ys N \<Longrightarrow> T' ss ys N) \<Longrightarrow> symbols_inv T' e"
  unfolding symbols_inv_def by blast

lemma compact_symbol_tables: "compact_tables ss ys N \<Longrightarrow> symbol_tables ss ys N"
  unfolding compact_tables_def symbol_tables_def
proof (elim exE conjE)
  fix names zs
  assume *: "ss = [] # names" "ys = null_symbol # zs" "distinct names" "set names = N"
    "length zs = length names" "map st_name zs = map (\<lambda>i. of_nat (i + 1)) [0 ..< length names]"
  have "st_name (zs ! i) = of_nat (i + 1)" if "i < length names" for i
    using arg_cong [OF *(6), of "\<lambda>xs. xs ! i"] that *(5) by simp
  then have "list_all2 (\<lambda>name z. \<exists>k. 0 < k \<and> k < length ss \<and> ss ! k = name \<and> st_name z = of_nat k) names zs"
    using *(1,5) by (auto simp: list_all2_conv_all_nth intro!: exI [of _ "Suc _"])
  with * show "\<exists>names zs. ys = null_symbol # zs \<and> ss \<noteq> [] \<and> hd ss = [] \<and> distinct names \<and> set names = N \<and>
      list_all2 (\<lambda>name z. \<exists>k. 0 < k \<and> k < length ss \<and> ss ! k = name \<and> st_name z = of_nat k) names zs"
    by (intro exI [of _ names] exI [of _ zs]) simp
qed

text \<open>A change to one section is not seen through the tables of another class.\<close>

lemma tables_update:
  assumes "\<And>s ss. s_data s = StrTabSection ss \<Longrightarrow> s_data (f s) = s_data s"
    and "\<And>s ys. s_data s = SymTabSection ys \<Longrightarrow> s_data (f s) = s_data s"
    and "\<And>s. section_type (f s) = section_type s"
  shows "strings_at j (update_section i f e) = strings_at j e"
    and "symbols_at j (update_section i f e) = symbols_at j e"
proof -
  have "(case s_data (f s) of StrTabSection ss \<Rightarrow> Inr ss | _ \<Rightarrow> Inl bad_cast) =
      (case s_data s of StrTabSection ss \<Rightarrow> Inr ss | _ \<Rightarrow> Inl bad_cast)" for s
    using assms(1) [of s] assms(3) [of s]
    by (cases "s_data s") (auto simp: section_type_def split: section_data.splits)
  then show "strings_at j (update_section i f e) = strings_at j e"
    by (cases "i = j") (simp_all add: strings_at_def section_at_def)
  have "(case s_data (f s) of SymTabSection ss \<Rightarrow> Inr ss | _ \<Rightarrow> Inl bad_cast) =
      (case s_data s of SymTabSection ss \<Rightarrow> Inr ss | _ \<Rightarrow> Inl bad_cast)" for s
    using assms(2) [of s] assms(3) [of s]
    by (cases "s_data s") (auto simp: section_type_def split: section_data.splits)
  then show "symbols_at j (update_section i f e) = symbols_at j e"
    by (cases "i = j") (simp_all add: symbols_at_def section_at_def)
qed

text \<open>What \<open>add_symbol\<close> does to an object with its tables in place.\<close>

definition symbol_defined :: "string \<Rightarrow> Elf32_Sym \<Rightarrow> ELF \<Rightarrow> ELF" where
  "symbol_defined name symbol e =
     update_section (curr_symtab_idx e) (push_symbol symbol)
       (update_section (strtab_idx e) (grow_header (length name + 1) \<circ> push_string name)
         (e\<lparr>symbol_names := insert name (symbol_names e)\<rparr>))"

definition relocation_added :: "u32 \<Rightarrow> nat \<Rightarrow> unit elf_op" where
  "relocation_added val idx = sbind (sread current_relocation_section) (\<lambda>_.
     smodify (\<lambda>e. update_section (curr_rel_idx e)
       (push_relocation \<lparr>r_offset = val, r_info = ELF32_R_INFO (of_nat idx) R_386_32\<rparr>) e))"

lemma tables_symbol_names [simp]:
  "current_symbol_table (e\<lparr>symbol_names := x\<rparr>) = current_symbol_table e"
  "string_table (e\<lparr>symbol_names := x\<rparr>) = string_table e"
  by (simp_all add: current_symbol_table_def string_table_def symbols_at_def strings_at_def section_at_def)

lemma add_symbol_result:
  assumes "name \<notin> symbol_names e" and "string_table e = Inr ss" and "current_symbol_table e = Inr ys"
    and symb: "symb = make_symbol (length ss) val sz typ bnd visibility (curr_section e)"
  shows "add_symbol name val sz typ bnd visibility False e = (Inr symb, symbol_defined name symb e)"
    and "add_symbol name val sz typ bnd visibility True e =
      sthen (relocation_added val (length ys)) (sreturn symb) (symbol_defined name symb e)"
proof -
  let ?e1 = "e\<lparr>symbol_names := insert name (symbol_names e)\<rparr>"
  have str: "add_string name ?e1 = (Inr (), update_section (strtab_idx e) (grow_header (length name + 1) \<circ> push_string name) ?e1)"
    using assms(2) by (simp add: add_string_def)
  show "add_symbol name val sz typ bnd visibility False e = (Inr symb, symbol_defined name symb e)"
    using assms(1-3) by (simp add: add_symbol_def define_symbol_def sthen_def str symbol_defined_def symb)
  show "add_symbol name val sz typ bnd visibility True e =
      sthen (relocation_added val (length ys)) (sreturn symb) (symbol_defined name symb e)"
    using assms(1-3)
    by (simp add: add_symbol_def define_symbol_def sthen_def str symbol_defined_def symb relocation_added_def)
qed

lemma symtab_not_strtab: "elf_wf e \<Longrightarrow> curr_symtab_idx e \<noteq> strtab_idx e"
  using elf_wfD(8,9) by force

lemma symbol_defined_tables:
  assumes "elf_wf e" and "string_table e = Inr ss" and "current_symbol_table e = Inr ys"
  shows "string_table (symbol_defined name symb e) = Inr (ss @ [name])"
    and "current_symbol_table (symbol_defined name symb e) = Inr (ys @ [symb])"
    and "symbol_names (symbol_defined name symb e) = insert name (symbol_names e)"
  using assms symtab_not_strtab [OF assms(1)]
  by (auto simp: symbol_defined_def string_table_def current_symbol_table_def result_iff push_symbol_def)

lemma symbol_defined_wf: "elf_wf e \<Longrightarrow> elf_wf (symbol_defined name symb e)"
proof -
  assume e: "elf_wf e"
  let ?e1 = "e\<lparr>symbol_names := insert name (symbol_names e)\<rparr>"
  have "elf_wf ?e1" using e by (simp add: elf_wf_def)
  then have "elf_wf (update_section (strtab_idx e) (grow_header (length name + 1) \<circ> push_string name) ?e1)"
    using elf_wfD(5) [OF e] by (intro elf_wf_update) auto
  then show "elf_wf (symbol_defined name symb e)"
    unfolding symbol_defined_def using elf_wfD(7) [OF e] elf_wfD(5) [OF e]
    by - (rule elf_wf_update, auto)
qed

text \<open>A relation that defining a symbol keeps is an invariant of all operations of the assembler.\<close>

locale table_invariant =
  fixes tables :: "string list \<Rightarrow> Elf32_Sym list \<Rightarrow> string set \<Rightarrow> bool"
  assumes tables_define: "tables ss ys N \<Longrightarrow> name \<notin> N \<Longrightarrow> st_name y = of_nat (length ss) \<Longrightarrow>
      tables (ss @ [name]) (ys @ [y]) (insert name N)"
    and tables_new: "tables [[]] [null_symbol] {}"
begin

sublocale preserved "object_inv tables" .

lemma keeps_symbols_change:
  assumes "\<And>s. s_name (f s) = s_name s" and "\<And>s. section_type (f s) = section_type s"
    and "\<And>s ss. s_data s = StrTabSection ss \<Longrightarrow> s_data (f s) = s_data s"
    and "\<And>s ys. s_data s = SymTabSection ys \<Longrightarrow> s_data (f s) = s_data s"
  shows "keeps (smodify (\<lambda>e. update_section (g e) f e))"
proof (rule keepsI)
  fix e
  assume e: "object_inv tables e"
  have "elf_wf (snd (smodify (\<lambda>e. update_section (g e) f e) e))"
    using e by (intro wf.keepsD [OF keeps_change] assms) (auto simp: object_inv_def)
  moreover have "symbols_inv tables (update_section (g e) f e) = symbols_inv tables e"
    using assms by (intro symbols_inv_cong)
      (simp_all add: string_table_def current_symbol_table_def tables_update)
  ultimately show "object_inv tables (snd (smodify (\<lambda>e. update_section (g e) f e) e))"
    using e by (simp add: object_inv_def)
qed

text \<open>Relocation entries are outside of what the invariants talk about.\<close>

lemma keeps_relocation_added: "keeps (relocation_added val idx)"
  unfolding relocation_added_def
  by (intro keeps_sbind keeps_basic keeps_symbols_change) auto

lemma inv_defined:
  assumes "object_inv tables e" and "name \<notin> symbol_names e" and "string_table e = Inr ss"
    and "st_name symb = of_nat (length ss)"
  shows "object_inv tables (symbol_defined name symb e)"
proof -
  have wf: "elf_wf e" using assms(1) by (simp add: object_inv_def)
  obtain ys where t: "current_symbol_table e = Inr ys" "tables ss ys (symbol_names e)"
    using assms(1,3) by (auto simp: object_inv_def symbols_inv_def)
  show ?thesis
    using symbol_defined_wf [OF wf] symbol_defined_tables [OF wf assms(3) t(1), of name symb]
      tables_define [OF t(2) assms(2,4)]
    by (simp add: object_inv_def symbols_inv_def)
qed

lemma keeps_add_symbol: "keeps (add_symbol name val sz typ bnd visibility relocatable)"
proof (rule keepsI)
  fix e
  assume e: "object_inv tables e"
  then have wf: "elf_wf e" by (simp add: object_inv_def)
  show "object_inv tables (snd (add_symbol name val sz typ bnd visibility relocatable e))"
  proof (cases "name \<in> symbol_names e")
    case True
    with e show ?thesis by (simp add: add_symbol_def)
  next
    case False
    obtain ss ys where t: "string_table e = Inr ss" "current_symbol_table e = Inr ys"
      using elf_wf_tables [OF wf] by metis
    define symb where "symb = make_symbol (length ss) val sz typ bnd visibility (curr_section e)"
    have ok: "object_inv tables (symbol_defined name symb e)"
      by (rule inv_defined [OF e False t(1)]) (simp add: symb_def make_symbol_def)
    show ?thesis
    proof (cases relocatable)
      case True
      have "keeps (sthen (relocation_added val (length ys)) (sreturn symb))"
        by (intro keeps_sthen keeps_relocation_added keeps_basic)
      with ok show ?thesis
        using True add_symbol_result(2) [OF False t symb_def] by (simp add: keepsD)
    next
      case False
      with ok add_symbol_result(1) [OF \<open>name \<notin> symbol_names e\<close> t symb_def] show ?thesis by simp
    qed
  qed
qed

lemma keeps_set_current: "keeps (set_section name)"
proof (rule keepsI)
  fix e
  assume e: "object_inv tables e"
  have "symbols_inv tables (snd (set_section name e)) = symbols_inv tables e"
    by (intro symbols_inv_cong)
      (simp_all add: set_section_def Let_def string_table_def current_symbol_table_def strings_at_def
        symbols_at_def section_at_def)
  with e wf.keepsD [OF keeps_set_section] show "object_inv tables (snd (set_section name e))"
    by (simp add: object_inv_def)
qed

lemma keeps_add_data: "keeps (add_progbits data)" "keeps (add_progbits_ptr pData n)"
  unfolding add_progbits_def add_progbits_ptr_def
  by (intro keeps_sbind keeps_basic; auto intro!: keeps_symbols_change simp del: s_simps)+

lemma inv_new: "ELF_new junk = Inr e \<Longrightarrow> object_inv tables e"
  using tables_new
  by (auto simp: object_inv_def ELF_new_wf symbols_inv_def string_table_def current_symbol_table_def
      result_iff ELF_new_eq ELF_blank_def initial_sections_def make_section_defs)

end

interpretation obj: table_invariant compact_tables
proof
  fix ss ys N name and y :: Elf32_Sym
  assume "compact_tables ss ys N" "name \<notin> N" "st_name y = of_nat (length ss)"
  then obtain names zs where "ss = [] # names" "ys = null_symbol # zs" "distinct names" "set names = N"
      "length zs = length names" "map st_name zs = map (\<lambda>i. of_nat (i + 1)) [0 ..< length names]"
    by (auto simp: compact_tables_def)
  with \<open>name \<notin> N\<close> \<open>st_name y = of_nat (length ss)\<close> show "compact_tables (ss @ [name]) (ys @ [y]) (insert name N)"
    unfolding compact_tables_def
    by (intro exI [of _ "names @ [name]"] exI [of _ "zs @ [y]"]) (simp add: add.commute)
qed (simp add: compact_tables_def)

text \<open>A string at the end of the table changes nothing for the symbols.\<close>

lemma symbol_tables_string: "symbol_tables ss ys N \<Longrightarrow> symbol_tables (ss @ [str]) ys N"
  unfolding symbol_tables_def
proof (elim exE conjE)
  fix names zs
  assume *: "ys = null_symbol # zs" "ss \<noteq> []" "hd ss = []" "distinct names" "set names = N"
    "list_all2 (\<lambda>name z. \<exists>k. 0 < k \<and> k < length ss \<and> ss ! k = name \<and> st_name z = of_nat k) names zs"
  from *(6) have "list_all2 (\<lambda>name z. \<exists>k. 0 < k \<and> k < length (ss @ [str]) \<and> (ss @ [str]) ! k = name \<and>
      st_name z = of_nat k) names zs"
    by (rule list_all2_mono) (auto simp: nth_append)
  with * show "\<exists>names zs. ys = null_symbol # zs \<and> ss @ [str] \<noteq> [] \<and> hd (ss @ [str]) = [] \<and> distinct names \<and>
      set names = N \<and> list_all2 (\<lambda>name z. \<exists>k. 0 < k \<and> k < length (ss @ [str]) \<and> (ss @ [str]) ! k = name \<and>
        st_name z = of_nat k) names zs"
    by (intro exI [of _ names] exI [of _ zs]) simp
qed

interpretation pub: table_invariant symbol_tables
proof
  fix ss ys N name and y :: Elf32_Sym
  assume T: "symbol_tables ss ys N" and new: "name \<notin> N" "st_name y = of_nat (length ss)"
  from symbol_tables_string [OF T, of name] obtain names zs where *: "ys = null_symbol # zs" "hd (ss @ [name]) = []"
      "distinct names" "set names = N"
      "list_all2 (\<lambda>nm z. \<exists>k. 0 < k \<and> k < length (ss @ [name]) \<and> (ss @ [name]) ! k = nm \<and> st_name z = of_nat k) names zs"
    by (auto simp: symbol_tables_def)
  have "0 < length ss" using T by (auto simp: symbol_tables_def)
  then have "\<exists>k. 0 < k \<and> k < length (ss @ [name]) \<and> (ss @ [name]) ! k = name \<and> st_name y = of_nat k"
    using new by (intro exI [of _ "length ss"]) simp
  with * new show "symbol_tables (ss @ [name]) (ys @ [y]) (insert name N)"
    unfolding symbol_tables_def
    by (intro exI [of _ "names @ [name]"] exI [of _ "zs @ [y]"]) (auto intro!: list_all2_appendI)
qed (simp add: symbol_tables_def)

lemma pub_add_string: "pub.keeps (add_string str)"
proof (rule pub.keepsI)
  fix e
  assume e: "object_inv symbol_tables e"
  then have wf: "elf_wf e" by (simp add: object_inv_def)
  obtain ss ys where t: "string_table e = Inr ss" "current_symbol_table e = Inr ys" "symbol_tables ss ys (symbol_names e)"
    using e by (auto simp: object_inv_def symbols_inv_def)
  let ?e' = "update_section (strtab_idx e) (grow_header (length str + 1) \<circ> push_string str) e"
  have "elf_wf ?e'" using wf elf_wfD(5) [OF wf] by (intro elf_wf_update) auto
  moreover have "string_table ?e' = Inr (ss @ [str])" "current_symbol_table ?e' = Inr ys"
    using t symtab_not_strtab [OF wf]
    by (auto simp: string_table_def current_symbol_table_def result_iff)
  ultimately show "object_inv symbol_tables (snd (add_string str e))"
    using symbol_tables_string [OF t(3)] t(1) by (simp add: object_inv_def symbols_inv_def add_string_def)
qed

end
