(* ===== verification/Elf_Objects.thy ===== *)
theory Elf_Objects
  imports Elf_Invariants
begin

text \<open>
  The objects of the program: the sizes of their sections, the parts that no operation changes (\<open>frame\<close>),
  the steps from a new object, and what holds of every object that is reached.
\<close>

section \<open>The size of a string table\<close>

text \<open>
  \<open>StrTabSection::size\<close> against the sum it means to compute: exact below \<open>2^31\<close>, and
  right in its low 32 bits always, which are what the writer stores.
\<close>

definition strtab_bytes :: "string list \<Rightarrow> nat" where
  "strtab_bytes strings = (\<Sum>st \<leftarrow> strings. length st + 1)"

lemma length_c_bytes [simp]: "length (c_bytes st) = length st + 1"
  by (simp add: c_bytes_def)

lemma strtab_bytes_written: "length (concat (map c_bytes strings)) = strtab_bytes strings"
  by (induction strings) (simp_all add: strtab_bytes_def)

lemma strtab_accumulate:
  "foldl (\<lambda>(acc :: u32) st. ucast ((scast acc :: u64) + of_nat (length st) + 1)) a strings =
     a + of_nat (strtab_bytes strings)"
  by (induction strings arbitrary: a) (simp_all add: strtab_bytes_def word_narrow)

lemma strtab_size_low: "(ucast (strtab_size strings) :: u32) = of_nat (strtab_bytes strings)"
  unfolding strtab_size_def strtab_accumulate ucast_scast by simp

lemma strtab_size_exact:
  "strtab_bytes strings < 2 ^ 31 \<Longrightarrow> strtab_size strings = of_nat (strtab_bytes strings)"
  by (simp add: strtab_size_def strtab_accumulate scast_of_nat)

text \<open>What \<open>size()\<close> says and what \<open>write\<close> writes agree.\<close>

lemma section_size_bytes:
  assumes "section_type s \<noteq> ST_STRTAB"
  shows "section_size s = of_nat (length (section_write s))"
  using assms
  by (cases "s_data s")
    (simp_all add: section_type_def section_size_def section_write_def sym.length_table
      rel.length_table list_all_iff)

lemma section_size_low: "(ucast (section_size s) :: u32) = of_nat (length (section_write s))"
proof (cases "section_type s = ST_STRTAB")
  case True
  then show ?thesis
    by (auto simp: section_type_iff section_size_def section_write_def strtab_size_low strtab_bytes_written)
next
  case False
  then show ?thesis by (simp add: section_size_bytes ucast_of_nat)
qed

lemma section_size_exact:
  assumes "length (section_write s) < 2 ^ 31"
  shows "section_size s = of_nat (length (section_write s))"
proof (cases "section_type s = ST_STRTAB")
  case True
  with assms show ?thesis
    by (auto simp: section_type_iff section_size_def section_write_def strtab_size_exact strtab_bytes_written)
next
  case False
  then show ?thesis by (rule section_size_bytes)
qed

section \<open>The parts of an object that stay\<close>

text \<open>The header, the indices of the tables, and the names and classes of the sections.\<close>

definition section_frame :: "ISection \<Rightarrow> string \<times> SectionType \<times> u32" where
  "section_frame s = (s_name s, section_type s, sh_type (s_header s))"

definition frame :: "ELF \<Rightarrow> Elf32_Ehdr \<times> nat \<times> nat \<times> nat \<times> (string \<times> SectionType \<times> u32) list" where
  "frame e = (elf_header e, shstrtab_idx e, strtab_idx e, curr_symtab_idx e, map section_frame (elf_sections e))"

interpretation frm: preserved "\<lambda>e. frame e = c" for c .

lemma change_frames [simp]:
  "section_frame (push_string st s) = section_frame s" "section_frame (push_symbol y s) = section_frame s"
  "section_frame (push_relocation r s) = section_frame s" "section_frame (insert_data d s) = section_frame s"
  "section_frame (grow_header n s) = section_frame s"
  by (simp_all add: section_frame_def)
    (simp_all add: push_string_def push_symbol_def push_relocation_def insert_data_def grow_header_def
      split: section_data.splits)

lemma update_section_map:
  assumes "\<And>s. g (f s) = g s"
  shows "map g (elf_sections (update_section i f e)) = map g (elf_sections e)"
proof (cases "i < length (elf_sections e)")
  case True
  then show ?thesis
    using assms by (simp add: update_section_def map_update) (metis list_update_id map_update nth_map)
next
  case False
  then show ?thesis by (simp add: update_section_def list_update_beyond)
qed

lemma frame_update: "(\<And>s. section_frame (f s) = section_frame s) \<Longrightarrow> frame (update_section i f e) = frame e"
  using update_section_map [of section_frame f i e] by (simp add: frame_def)

lemma frame_change:
  "(\<And>s. section_frame (f s) = section_frame s) \<Longrightarrow> frm.keeps c (smodify (\<lambda>e. update_section (g e) f e))"
  by (simp add: frm.keeps_def frame_update)

lemma frame_names: "frm.keeps c (smodify (\<lambda>e. e\<lparr>symbol_names := g (symbol_names e)\<rparr>))"
  by (rule frm.keepsI) (simp add: frame_def)

lemma frame_set_section: "frm.keeps c (set_section name)"
  by (rule frm.keepsI) (auto simp: frame_def set_section_def Let_def)

lemma frame_add_string: "frm.keeps c (add_string str)"
  unfolding add_string_def by (intro frm.keeps_sbind frm.keeps_basic frame_change) simp

lemma frame_add_progbits: "frm.keeps c (add_progbits data)" "frm.keeps c (add_progbits_ptr pData n)"
  unfolding add_progbits_def add_progbits_ptr_def
  by (intro frm.keeps_sbind frm.keeps_basic; auto intro!: frame_change simp del: s_simps)+

lemma frame_add_symbol: "frm.keeps c (add_symbol name val sz typ bnd visibility relocatable)"
proof -
  have "frm.keeps c (define_symbol name val sz typ bnd visibility relocatable)"
    unfolding define_symbol_def
    by (intro frm.keeps_sthen frm.keeps_sbind frame_names frame_add_string frame_change
        frm.keeps_basic) (auto intro!: frm.keeps_sbind frame_change simp del: s_simps)
  then show ?thesis by (simp add: frm.keeps_def add_symbol_def)
qed

lemma frame_new:
  "frame (new_object junk) = (ELF_initial_header junk, 0, 1, 7,
     [(''shstrtab'', ST_STRTAB, SHT_STRTAB), (''strtab'', ST_STRTAB, SHT_STRTAB),
      (''data'', ST_PROGBITS, SHT_PROGBITS), (''rodata'', ST_PROGBITS, SHT_PROGBITS),
      (''bss'', ST_PROGBITS, SHT_NOBITS), (''text'', ST_PROGBITS, SHT_PROGBITS),
      (''init'', ST_PROGBITS, SHT_PROGBITS), (''symtab'', ST_SYMTAB, SHT_SYMTAB)])"
  by (simp add: frame_def section_frame_def new_object_def ELF_blank_def initial_sections_def
      make_section_defs section_type_def make_Shdr_def)

lemma frame_no_rel: "frame e = frame (new_object junk) \<Longrightarrow> ST_REL \<notin> section_type ` set (elf_sections e)"
proof -
  assume "frame e = frame (new_object junk)"
  then have "map section_frame (elf_sections e) = snd (snd (snd (snd (frame (new_object junk)))))"
    by (simp add: frame_def)
  then have "map (\<lambda>x. fst (snd x)) (map section_frame (elf_sections e)) =
      [ST_STRTAB, ST_STRTAB, ST_PROGBITS, ST_PROGBITS, ST_PROGBITS, ST_PROGBITS, ST_PROGBITS, ST_SYMTAB]"
    by (simp add: frame_new)
  then have "map section_type (elf_sections e) =
      [ST_STRTAB, ST_STRTAB, ST_PROGBITS, ST_PROGBITS, ST_PROGBITS, ST_PROGBITS, ST_PROGBITS, ST_SYMTAB]"
    by (simp add: o_def section_frame_def)
  then have "section_type ` set (elf_sections e) = {ST_STRTAB, ST_PROGBITS, ST_SYMTAB}"
    by (metis (no_types, lifting) insert_absorb2 list.set_map list.simps(15) empty_set)
  then show ?thesis by simp
qed

section \<open>Every object of the program\<close>

text \<open>
  One step is a call of a public operation, whatever it returns or throws; \<open>elf_step\<close> has the
  calls that the assembler makes, \<open>elf_call\<close> also \<open>add_string\<close>, which the program calls only through
  \<open>add_symbol\<close>. Objects are \<open>reachable\<close> by any calls from a new one, and \<open>assembled\<close> by those
  of the assembler.
\<close>

inductive elf_step :: "ELF \<Rightarrow> ELF \<Rightarrow> bool" where
  step_set_section: "elf_step e (snd (set_section name e))"
| step_add_symbol: "elf_step e (snd (add_symbol name val sz typ bnd visibility relocatable e))"
| step_add_progbits: "elf_step e (snd (add_progbits data e))"
| step_add_progbits_ptr: "elf_step e (snd (add_progbits_ptr pData n e))"

inductive elf_call :: "ELF \<Rightarrow> ELF \<Rightarrow> bool" where
  call_step: "elf_step e e' \<Longrightarrow> elf_call e e'"
| call_add_string: "elf_call e (snd (add_string str e))"

inductive_cases elf_stepE: "elf_step e e'"
inductive_cases elf_callE: "elf_call e e'"

definition assembled :: "u16 \<Rightarrow> ELF \<Rightarrow> bool" where
  "assembled junk e \<longleftrightarrow> (\<exists>e0. ELF_new junk = Inr e0 \<and> elf_step\<^sup>*\<^sup>* e0 e)"

definition reachable :: "u16 \<Rightarrow> ELF \<Rightarrow> bool" where
  "reachable junk e \<longleftrightarrow> (\<exists>e0. ELF_new junk = Inr e0 \<and> elf_call\<^sup>*\<^sup>* e0 e)"

lemma elf_step_ok: "elf_step e e' \<Longrightarrow> object_ok e \<Longrightarrow> object_ok e'"
  by (erule elf_stepE) (auto intro: obj.keepsD obj.keeps_set_current obj.keeps_add_symbol obj.keeps_add_data)

lemma elf_call_inv: "elf_call e e' \<Longrightarrow> object_inv symbol_tables e \<Longrightarrow> object_inv symbol_tables e'"
  by (erule elf_callE, erule elf_stepE)
    (auto intro: pub.keepsD pub.keeps_set_current pub.keeps_add_symbol pub.keeps_add_data pub_add_string)

lemma elf_call_frame: "elf_call e e' \<Longrightarrow> frame e' = frame e"
  by (erule elf_callE, erule elf_stepE)
    (auto intro: frm.keepsD frame_set_section frame_add_symbol frame_add_progbits frame_add_string)

lemma assembled_keeps: "assembled junk e \<Longrightarrow> object_ok e"
proof -
  assume "assembled junk e"
  then have "elf_step\<^sup>*\<^sup>* (new_object junk) e" by (auto simp: assembled_def ELF_new_object)
  then show ?thesis
    by (induction rule: rtranclp_induct) (auto simp: obj.inv_new [OF ELF_new_object] intro: elf_step_ok)
qed

lemma reachable_keeps: "reachable junk e \<Longrightarrow> object_inv symbol_tables e \<and> frame e = frame (new_object junk)"
proof -
  assume "reachable junk e"
  then have "elf_call\<^sup>*\<^sup>* (new_object junk) e" by (auto simp: reachable_def ELF_new_object)
  then show ?thesis
    by (induction rule: rtranclp_induct)
      (auto simp: pub.inv_new [OF ELF_new_object] elf_call_frame intro: elf_call_inv)
qed

lemma assembled_new: "assembled junk (new_object junk)"
  by (simp add: assembled_def ELF_new_object)

lemma assembled_step: "assembled junk e \<Longrightarrow> elf_step e e' \<Longrightarrow> assembled junk e'"
  unfolding assembled_def by (meson rtranclp.rtrancl_into_rtrancl)

lemma assembled_reachable: "assembled junk e \<Longrightarrow> reachable junk e"
  unfolding assembled_def reachable_def
  using rtranclp_mono [of elf_step elf_call] call_step by blast

lemma reachable_new: "reachable junk (new_object junk)"
  by (rule assembled_reachable [OF assembled_new])

lemma reachable_call: "reachable junk e \<Longrightarrow> elf_call e e' \<Longrightarrow> reachable junk e'"
  unfolding reachable_def by (meson rtranclp.rtrancl_into_rtrancl)

text \<open>What keeps an object \<open>assembled\<close>.\<close>

interpretation asb: preserved "assembled junk" for junk .

lemma assembled_operations:
  "asb.keeps junk (set_section name)" "asb.keeps junk (add_progbits data)"
  "asb.keeps junk (add_symbol name val sz typ bnd visibility relocatable)"
  by (rule asb.keepsI, erule assembled_step, rule elf_step.intros)+

section \<open>The attributes of a symbol\<close>

lemma symbol_info_groups:
  "unat (ELF32_ST_INFO b t) div 16 = unat b mod 16 \<and> unat (ELF32_ST_INFO b t) mod 16 = unat t mod 16"
proof -
  have m: "t AND 15 = take_bit 4 t" by (simp add: take_bit_eq_mask mask_numeral)
  have "push_bit 4 b AND take_bit 4 t = 0"
    by (rule bit_word_eqI) (simp only: bit_simps bit_0_eq bot_fun_def, auto)
  then have info: "ELF32_ST_INFO b t = push_bit 4 b OR take_bit 4 t"
    unfolding ELF32_ST_INFO_def m by (rule disjunctive_add_eq_or)
  have "drop_bit 4 (ELF32_ST_INFO b t) = take_bit 4 b"
    unfolding info by (rule bit_word_eqI) (auto simp: bit_simps)
  moreover have "take_bit 4 (ELF32_ST_INFO b t) = take_bit 4 t"
    unfolding info by (rule bit_word_eqI) (auto simp: bit_simps)
  ultimately have "unat (drop_bit 4 (ELF32_ST_INFO b t)) = unat (take_bit 4 b)"
    "unat (take_bit 4 (ELF32_ST_INFO b t)) = unat (take_bit 4 t)" by (simp_all only:)
  then have "drop_bit 4 (unat (ELF32_ST_INFO b t)) = take_bit 4 (unat b)"
    "take_bit 4 (unat (ELF32_ST_INFO b t)) = take_bit 4 (unat t)"
    by (simp_all only: unat_drop_bit_eq unsigned_take_bit_eq)
  then show ?thesis by (simp add: drop_bit_eq_div take_bit_eq_mod)
qed

lemma symbol_visibility: "unat (ELF32_ST_VISIBILITY v) = unat v mod 4"
proof -
  have "v AND 3 = take_bit 2 v" by (simp add: take_bit_eq_mask mask_numeral)
  then show ?thesis by (simp only: ELF32_ST_VISIBILITY_def unsigned_take_bit_eq) (simp add: take_bit_eq_mod)
qed

lemma new_symbol_names: "symbol_names (new_object junk) = {}"
  by (simp add: new_object_def ELF_blank_def)

section \<open>Properties\<close>

text \<open>C17: The invariant of the object file: whatever sequence of public operations has run on a
  new object, and whichever of them have thrown, the tables are where their indices say, section
  names are distinct and are exactly the strings of the name table, and the symbol table has, after the
  null symbol, one symbol for each recorded name, whose \<open>st_name\<close> is the index of this name in the string table. As
  long as no string was added by hand, the string table has no others.\<close>

theorem object_invariant:
  assumes "reachable junk e"
  shows "elf_wf e \<and> symbols_inv symbol_tables e \<and> (assembled junk e \<longrightarrow> symbols_inv compact_tables e)"
  using reachable_keeps [OF assms] assembled_keeps [of junk e] by (auto simp: object_inv_def)

theorem object_invariant_witness:
  "symbols_inv symbol_tables (snd (add_string ''x'' (snd (add_symbol ''l'' 1 2 Type_default Binding_default
     Visibility_default True (new_object 0)))))"
  using object_invariant [OF reachable_call [OF reachable_call [OF reachable_new call_step [OF step_add_symbol]]
        call_add_string]]
  by blast

text \<open>The constructor: it never throws, and makes the eight sections with their headers and
  names, the indices of the three tables, and no symbol.\<close>

lemma constructor_state:
  "ELF_new junk = Inr \<lparr>elf_header = ELF_initial_header junk, elf_sections = initial_sections,
     shstrtab_idx = 0, strtab_idx = 1, curr_section = 0, curr_rel_idx = 0, curr_symtab_idx = 7,
     symbol_names = {}\<rparr> \<and>
   map s_name initial_sections =
     [''shstrtab'', ''strtab'', ''data'', ''rodata'', ''bss'', ''text'', ''init'', ''symtab'']"
  by (simp add: ELF_new_eq ELF_blank_def initial_sections_def make_section_defs)

text \<open>Adding a section with a new name appends it, keeps the names table in step and the
  object well-formed; a name that exists is refused and the object stays as it is.\<close>

lemma add_section_effect:
  assumes "elf_wf e"
  shows "if s_name sec \<in> s_name ` set (elf_sections e)
    then add_section sec False e =
      (Inl (ELFException (''Cannot add section with duplicate name: '' @ s_name sec)), e)
    else \<exists>e'. add_section sec False e = (Inr (), e') \<and> elf_wf e' \<and>
      map s_name (elf_sections e') = map s_name (elf_sections e) @ [s_name sec] \<and>
      shstring_table e' = Inr ([] # map s_name (elf_sections e'))"
proof (cases "s_name sec \<in> s_name ` set (elf_sections e)")
  case True
  then show ?thesis by (simp add: add_section_duplicate)
next
  case False
  note run = add_section_fresh [OF assms False]
  have wf: "elf_wf (snd (add_section sec False e))" by (rule wf.keepsD [OF keeps_add_section assms])
  then obtain names where "shstring_table (snd (add_section sec False e)) =
      Inr ([] # map s_name (elf_sections (snd (add_section sec False e))))"
    using elf_wf_tables by metis
  with False wf run elf_wfD(1) [OF assms] show ?thesis by (simp add: map_s_name_update)
qed

text \<open>A symbol that is defined already is refused with an \<open>ELFException\<close>, and the object
  stays as it is. The message is the name and the text after it: the prefix \<open>Symbol\<close> that the
  stream starts with is overwritten.\<close>

lemma duplicate_symbol_refused:
  assumes "name \<in> symbol_names e"
  shows "add_symbol name val sz typ bnd visibility relocatable e =
    (Inl (ELFException (name @ '' cannot be defined twice'')), e)"
  using assms by (simp add: add_symbol_def duplicate_message_def overwrite_def)


text \<open>C31: A new symbol that is not relocatable is appended to the symbol table and returned; its
  name is appended to the string table and recorded. Its \<open>st_name\<close> is the index of the name
  among the strings and its \<open>st_shndx\<close> the low byte of the index of the current section; the high four bits of
  \<open>st_info\<close> are the binding and the low four the type, as \<open>ELF32_ST_BIND\<close> and \<open>ELF32_ST_TYPE\<close> read them, and the low
  two bits of \<open>st_other\<close>, the only ones that can be set, the visibility.\<close>

theorem add_symbol_effect:
  assumes "reachable junk e" and "name \<notin> symbol_names e"
  shows "\<exists>e' symb ss ys. add_symbol name val sz typ bnd visibility False e = (Inr symb, e') \<and>
    string_table e = Inr ss \<and> string_table e' = Inr (ss @ [name]) \<and>
    current_symbol_table e = Inr ys \<and> current_symbol_table e' = Inr (ys @ [symb]) \<and>
    symbol_names e' = insert name (symbol_names e) \<and>
    st_name symb = of_nat (length ss) \<and> st_value symb = val \<and> st_size symb = sz \<and>
    st_shndx symb = ucast (of_nat (curr_section e) :: u8) \<and>
    unat (st_info symb) div 16 = unat (sym_binding bnd) mod 16 \<and> unat (st_info symb) mod 16 = unat (sym_type typ) mod 16 \<and>
    unat (st_other symb) = unat (sym_visibility visibility) mod 4"
proof -
  from reachable_keeps [OF assms(1)] have wf: "elf_wf e" by (simp add: object_inv_def)
  obtain ss ys where t: "string_table e = Inr ss" "current_symbol_table e = Inr ys"
    using elf_wf_tables [OF wf] by metis
  show ?thesis
    using add_symbol_result(1) [OF assms(2) t refl] symbol_defined_tables [OF wf t] t
    by (simp add: make_symbol_def symbol_info_groups symbol_visibility)
qed

theorem add_symbol_effect_witness:
  "\<exists>e' symb ss ys. add_symbol ''main'' 1 2 Type_function Binding_global Visibility_hidden False (new_object 0) =
      (Inr symb, e') \<and>
    string_table (new_object 0) = Inr ss \<and> string_table e' = Inr (ss @ [''main'']) \<and>
    current_symbol_table (new_object 0) = Inr ys \<and> current_symbol_table e' = Inr (ys @ [symb]) \<and>
    symbol_names e' = insert ''main'' (symbol_names (new_object 0)) \<and>
    st_name symb = of_nat (length ss) \<and> st_value symb = 1 \<and> st_size symb = 2 \<and>
    st_shndx symb = ucast (of_nat (curr_section (new_object 0)) :: u8) \<and>
    unat (st_info symb) div 16 = 1 \<and> unat (st_info symb) mod 16 = 2 \<and> unat (st_other symb) = 2"
  using add_symbol_effect [OF reachable_new, of "''main''" 0 1 2 Type_function Binding_global Visibility_hidden]
  by (simp add: new_symbol_names Type_function_def Binding_global_def Visibility_hidden_def)

text \<open>C32: A relocatable symbol can never be added: no object has a relocation section, so that the
  call always throws. It throws after the symbol was defined, which then stays defined.\<close>

theorem relocatable_symbol_throws:
  assumes "reachable junk e" and "name \<notin> symbol_names e"
  shows "\<exists>x e'. add_symbol name val sz typ bnd visibility True e = (Inl x, e') \<and>
    x \<in> {bad_cast, at_out_of_range} \<and> symbol_names e' = insert name (symbol_names e)"
proof -
  from reachable_keeps [OF assms(1)] have wf: "elf_wf e" and fr: "frame e = frame (new_object junk)"
    by (simp_all add: object_inv_def)
  obtain ss ys where t: "string_table e = Inr ss" "current_symbol_table e = Inr ys"
    using elf_wf_tables [OF wf] by metis
  define symb where "symb = make_symbol (length ss) val sz typ bnd visibility (curr_section e)"
  let ?e1 = "symbol_defined name symb e"
  have "frame ?e1 = frame (new_object junk)"
    unfolding symbol_defined_def fr [symmetric]
    by (subst frame_update, simp)+ (simp add: frame_def)
  then have "ST_REL \<notin> section_type ` set (elf_sections ?e1)"
    using frame_no_rel by blast
  then have "current_relocation_section ?e1 \<in> {Inl bad_cast, Inl at_out_of_range}"
    by (auto simp: current_relocation_section_def relocations_at_def section_at_def section_type_def
        image_iff split: section_data.splits)
  then show ?thesis
    using add_symbol_result(2) [OF assms(2) t symb_def] symbol_defined_tables(3) [OF wf t, of name symb]
    by (auto simp: relocation_added_def)
qed

theorem relocatable_symbol_throws_witness:
  "\<exists>x e'. add_symbol ''main'' 1 2 Type_default Binding_default Visibility_default True (new_object 0) = (Inl x, e') \<and>
    x \<in> {bad_cast, at_out_of_range} \<and> symbol_names e' = insert ''main'' (symbol_names (new_object 0))"
  by (rule relocatable_symbol_throws [OF reachable_new]) (simp add: new_object_def ELF_blank_def)

text \<open>C33: \<open>size()\<close> is the number of bytes that \<open>write\<close> writes, for every kind of section: in the
  low 32 bits, which the writer stores, always, and as a whole below \<open>2^31\<close>, where the \<open>int\<close> sum
  of the string table does not overflow.\<close>

theorem section_size_correct:
  "(ucast (section_size s) :: u32) = of_nat (length (section_write s)) \<and>
   (length (section_write s) < 2 ^ 31 \<longrightarrow> section_size s = of_nat (length (section_write s)))"
  using section_size_low section_size_exact by blast

theorem section_size_correct_witness:
  "section_size (make_StrTabSection ''strtab'' (make_Shdr 3 0 0)) = 1"
proof -
  have "length (section_write (make_StrTabSection ''strtab'' (make_Shdr 3 0 0))) = 1"
    by (simp add: section_write_def make_section_defs)
  with section_size_correct [of "make_StrTabSection ''strtab'' (make_Shdr 3 0 0)"] show ?thesis by simp
qed

end
