(* ===== verification/Elf_Store.thy ===== *)
theory Elf_Store
  imports Elf_Objects
begin

text \<open>
  What a client sees of an \<open>ELF\<close> object: named sections, of which some hold code or data
  that can be appended to, a current section, and the symbols defined so far. The
  operations on this abstract store are the specification of \<open>set_section\<close>,
  \<open>add_progbits\<close> and \<open>add_symbol\<close>; each operation of \<open>ELF\<close> refines its abstract one,
  results and exceptions included.
\<close>

datatype contents = Code "u8 list" | Table

record store =
  st_sections :: "string \<rightharpoonup> contents"
  st_current :: string
  st_symbols :: "string list"

type_synonym 'a store_op = "(elf_error, store, 'a) operation"

definition section_contents :: "ISection \<Rightarrow> contents" where
  "section_contents s = (case s_data s of ProgramSection d \<Rightarrow> Code d | _ \<Rightarrow> Table)"

definition named_contents :: "ISection list \<Rightarrow> string \<rightharpoonup> contents" where
  "named_contents ss = map_of (map (\<lambda>s. (s_name s, section_contents s)) ss)"

definition store_of :: "ELF \<Rightarrow> store" where
  "store_of e = \<lparr>
     st_sections = named_contents (elf_sections e),
     st_current = s_name (elf_sections e ! curr_section e),
     st_symbols = (case string_table e of Inl _ \<Rightarrow> [] | Inr ss \<Rightarrow> tl ss)\<rparr>"

definition store_set_section :: "string \<Rightarrow> unit store_op" where
  "store_set_section name \<sigma> =
     (if st_sections \<sigma> name = None then (Inl (ELFException (''Invalid section: '' @ name)), \<sigma>)
      else (Inr (), \<sigma>\<lparr>st_current := name\<rparr>))"

definition store_add_progbits :: "u8 list \<Rightarrow> unit store_op" where
  "store_add_progbits data \<sigma> =
     (case st_sections \<sigma> (st_current \<sigma>) of
        Some (Code d) \<Rightarrow> (Inr (), \<sigma>\<lparr>st_sections := (st_sections \<sigma>)(st_current \<sigma> \<mapsto> Code (d @ data))\<rparr>)
      | _ \<Rightarrow> (Inl (ELFException ''Attempted to add PROGBITS to non-PROGBITS section''), \<sigma>))"

definition store_add_symbol :: "string \<Rightarrow> unit store_op" where
  "store_add_symbol name \<sigma> =
     (if name \<in> set (st_symbols \<sigma>) then (Inl (ELFException (duplicate_message name)), \<sigma>)
      else (Inr (), \<sigma>\<lparr>st_symbols := st_symbols \<sigma> @ [name]\<rparr>))"

section \<open>Looking up sections\<close>

lemma named_contents_None: "named_contents ss name = None \<longleftrightarrow> name \<notin> s_name ` set ss"
  by (auto simp: named_contents_def map_of_eq_None_iff image_image)

lemma named_contents_nth:
  "distinct (map s_name ss) \<Longrightarrow> i < length ss \<Longrightarrow>
   named_contents ss (s_name (ss ! i)) = Some (section_contents (ss ! i))"
  by (auto simp: named_contents_def o_def intro!: map_of_is_SomeI)

lemma named_contents_update:
  assumes "distinct (map s_name ss)" and "i < length ss" and "s_name s' = s_name (ss ! i)"
  shows "named_contents (ss[i := s']) = (named_contents ss)(s_name s' \<mapsto> section_contents s')"
proof
  fix name
  let ?ss' = "ss[i := s']"
  have names: "map s_name ?ss' = map s_name ss"
    using assms(2,3) by (metis list_update_id map_update)
  have dist: "distinct (map s_name ?ss')" using assms(1) names by simp
  show "named_contents ?ss' name = ((named_contents ss)(s_name s' \<mapsto> section_contents s')) name"
  proof (cases "name \<in> s_name ` set ss")
    case True
    then obtain j where j: "j < length ss" "name = s_name (ss ! j)"
      by (auto simp: in_set_conv_nth)
    have "named_contents ?ss' (s_name (?ss' ! j)) = Some (section_contents (?ss' ! j))"
      using named_contents_nth [OF dist, of j] j(1) by simp
    moreover have "s_name (?ss' ! j) = s_name (ss ! j)"
      using assms(2,3) j(1) by (auto simp: nth_list_update)
    moreover have "s_name (ss ! j) = s_name (ss ! i) \<longleftrightarrow> j = i"
      using assms(1,2) j(1) by (metis length_map nth_eq_iff_index_eq nth_map)
    ultimately show ?thesis
      using j named_contents_nth [OF assms(1) j(1)] assms(2,3)
      by (auto simp: nth_list_update)
  next
    case False
    moreover from False have "name \<notin> s_name ` set ?ss'"
      by (metis image_set names)
    moreover have "name \<noteq> s_name s'" using False assms(2,3) by auto
    ultimately show ?thesis by (metis fun_upd_apply named_contents_None)
  qed
qed

lemma named_contents_same:
  assumes "i < length ss" and "s_name s' = s_name (ss ! i)"
    and "section_contents s' = section_contents (ss ! i)"
  shows "named_contents (ss[i := s']) = named_contents ss"
proof -
  have "map (\<lambda>s. (s_name s, section_contents s)) (ss[i := s']) = map (\<lambda>s. (s_name s, section_contents s)) ss"
    using assms by (metis (no_types, lifting) list_update_id map_update)
  then show ?thesis by (simp add: named_contents_def)
qed

lemma section_contents_simps [simp]:
  "section_contents (push_string st s) = section_contents s"
  "section_contents (push_symbol y s) = section_contents s"
  "section_contents (grow_header n s) = section_contents s"
  by (simp_all add: section_contents_def push_string_def push_symbol_def grow_header_def
      split: section_data.splits)

section \<open>The operations refine the specification\<close>

lemma set_section_refines:
  "store_set_section name (store_of e) = (fst (set_section name e), store_of (snd (set_section name e)))"
proof (cases "name \<in> s_name ` set (elf_sections e)")
  case True
  then have less: "section_named name e < length (elf_sections e)" by (simp add: section_named_less)
  then have "s_name (elf_sections e ! section_named name e) = name"
    unfolding section_named_def by (rule nth_find_if)
  moreover from True have "named_contents (elf_sections e) name \<noteq> None"
    by (simp add: named_contents_None)
  ultimately show ?thesis
    using less by (auto simp: store_set_section_def set_section_def store_of_def Let_def
        string_table_def strings_at_def section_at_def)
next
  case False
  then have "section_named name e = length (elf_sections e)"
    using section_named_less [of name e] find_if_le by (auto simp: section_named_def nat_less_le)
  moreover from False have "named_contents (elf_sections e) name = None"
    by (simp add: named_contents_None)
  ultimately show ?thesis
    by (simp add: store_set_section_def set_section_def store_of_def)
qed

lemma add_progbits_refines:
  assumes "object_ok e"
  shows "store_add_progbits data (store_of e) = (fst (add_progbits data e), store_of (snd (add_progbits data e)))"
proof -
  let ?i = "curr_section e" and ?ss = "elf_sections e"
  have wf: "elf_wf e" using assms by (simp add: object_inv_def)
  have cur: "current_section e = Inr (?ss ! ?i)" using elf_wfD(4) [OF wf] by (simp add: current_section_def section_at_def)
  have look: "named_contents ?ss (s_name (?ss ! ?i)) = Some (section_contents (?ss ! ?i))"
    using elf_wfD(4,10) [OF wf] by (simp add: named_contents_nth)
  show ?thesis
  proof (cases "s_data (?ss ! ?i)")
    case (ProgramSection d)
    let ?e' = "update_section ?i (insert_data data) e"
    have run: "add_progbits data e = (Inr (), ?e')"
      using ProgramSection by (simp add: add_progbits_def cur section_type_def)
    have "string_table ?e' = string_table e"
      unfolding string_table_def update_section_simps by (intro tables_update) auto
    moreover have "named_contents (elf_sections ?e') = (named_contents ?ss)(s_name (?ss ! ?i) \<mapsto> Code (d @ data))"
      using elf_wfD(4,10) [OF wf] ProgramSection
      by (simp add: named_contents_update) (simp add: section_contents_def insert_data_def)
    ultimately show ?thesis
      using look ProgramSection elf_wfD(4) [OF wf]
      by (simp add: run store_add_progbits_def store_of_def section_contents_def)
  qed (use look cur in \<open>simp_all add: add_progbits_def section_type_def store_add_progbits_def store_of_def
        section_contents_def\<close>)
qed

lemma symbols_wfE:
  assumes "symbols_wf e"
  obtains names where "string_table e = Inr ([] # names)" and "distinct names" and "set names = symbol_names e"
  using assms unfolding symbols_inv_def compact_tables_def by metis

lemma store_symbols:
  assumes "symbols_wf e"
  shows "set (st_symbols (store_of e)) = symbol_names e"
proof -
  obtain names where "string_table e = Inr ([] # names)" "set names = symbol_names e"
    using assms by (rule symbols_wfE)
  then show ?thesis by (simp add: store_of_def)
qed

lemma add_symbol_refines:
  assumes "object_ok e"
  shows "store_add_symbol name (store_of e) =
    (map_sum id (\<lambda>_. ()) (fst (add_symbol name val sz typ bnd visibility False e)),
     store_of (snd (add_symbol name val sz typ bnd visibility False e)))"
proof -
  have wf: "elf_wf e" and sy: "symbols_wf e" using assms by (simp_all add: object_inv_def)
  show ?thesis
  proof (cases "name \<in> symbol_names e")
    case True
    then show ?thesis by (simp add: store_add_symbol_def store_symbols [OF sy] add_symbol_def)
  next
    case False
    obtain ss ys where t: "string_table e = Inr ss" "current_symbol_table e = Inr ys"
      using elf_wf_tables [OF wf] by metis
    have ne: "ss \<noteq> []" using sy t(1) by (metis list.distinct(1) sum.inject(2) symbols_wfE)
    define symb where "symb = make_symbol (length ss) val sz typ bnd visibility (curr_section e)"
    let ?e' = "symbol_defined name symb e"
    have "st_sections (store_of ?e') = st_sections (store_of e)"
      using elf_wfD(2,3) [OF wf] by (simp add: store_of_def symbol_defined_def named_contents_same nth_list_update)
    moreover have "st_current (store_of ?e') = st_current (store_of e)"
      using elf_wfD(2,3,4) [OF wf] by (simp add: store_of_def symbol_defined_def nth_list_update)
    moreover have "st_symbols (store_of ?e') = st_symbols (store_of e) @ [name]"
      using symbol_defined_tables [OF wf t] t ne by (simp add: store_of_def)
    ultimately have "store_of ?e' = (store_of e)\<lparr>st_symbols := st_symbols (store_of e) @ [name]\<rparr>" by simp
    with False add_symbol_result(1) [OF False t symb_def] show ?thesis
      by (simp add: store_add_symbol_def store_symbols [OF sy])
  qed
qed

section \<open>Properties\<close>

text \<open>C30: The operations that the assembler calls implement their specification on the abstract
  store. \<open>set_section\<close> selects the section with the name or throws and changes nothing.
  \<open>add_progbits\<close> puts the bytes at the end of the current section and nowhere else, or throws and
  changes nothing where the current section holds no code. \<open>add_symbol\<close> appends a new name to the
  symbols and refuses one that is there already, and leaves sections and current section.\<close>

theorem operations_implement_store:
  assumes "assembled junk e"
  shows "store_set_section name (store_of e) = (fst (set_section name e), store_of (snd (set_section name e))) \<and>
    store_add_progbits data (store_of e) = (fst (add_progbits data e), store_of (snd (add_progbits data e))) \<and>
    store_add_symbol name (store_of e) =
      (map_sum id (\<lambda>_. ()) (fst (add_symbol name val sz typ bnd visibility False e)),
       store_of (snd (add_symbol name val sz typ bnd visibility False e)))"
proof -
  from assembled_keeps [OF assms] have "object_ok e" .
  then show ?thesis
    using set_section_refines add_progbits_refines add_symbol_refines by simp
qed

theorem operations_implement_store_witness:
  "store_set_section ''text'' (store_of (new_object 0)) =
      (fst (set_section ''text'' (new_object 0)), store_of (snd (set_section ''text'' (new_object 0)))) \<and>
   store_add_progbits [1, 2] (store_of (new_object 0)) =
      (fst (add_progbits [1, 2] (new_object 0)), store_of (snd (add_progbits [1, 2] (new_object 0)))) \<and>
   store_add_symbol ''text'' (store_of (new_object 0)) =
      (map_sum id (\<lambda>_. ()) (fst (add_symbol ''text'' 0 0 Type_default Binding_default Visibility_default False (new_object 0))),
       store_of (snd (add_symbol ''text'' 0 0 Type_default Binding_default Visibility_default False (new_object 0))))"
  by (rule operations_implement_store [OF assembled_new])

end
