(* ===== verification/Assembler.thy ===== *)
theory Assembler
  imports Encoders Elf_Store
begin

text \<open>
  Code generation, \<open>class Assembler\<close> of \<open>include/assembler.hpp\<close> and \<open>src/assembler.cpp\<close>.
  The operations work on the \<open>ELF\<close> object and may throw; what was added to the object
  before a throw stays. \<open>assembleInstruction\<close> searches the formats of an instruction in
  their order: the loop of the one-operand case is \<open>format_loop\<close>, which ends with an
  encoding to be added, or with the throw after the loop.
\<close>

type_synonym 'a asm_op = "(asm_error, ELF, 'a) operation"

abbreviation lift_elf :: "'a elf_op \<Rightarrow> 'a asm_op" where
  "lift_elf \<equiv> slift elf_failure"

section \<open>Encoding helpers\<close>

definition instructionR :: "InstructionType \<Rightarrow> char \<Rightarrow> asm_error + u8 list" where
  "instructionR typ reg =
     (case typ of
        IT_INC \<Rightarrow> rbind (InstructionR_encode IT_INC reg) (\<lambda>b. Inr [b])
      | IT_DEC \<Rightarrow> rbind (InstructionR_encode IT_DEC reg) (\<lambda>b. Inr [b])
      | _ \<Rightarrow> Inl (AssemblerException ''Unrecognized Instruction0 type''))"

definition instructionRA :: "InstructionType \<Rightarrow> char \<Rightarrow> asm_error + u8 list" where
  "instructionRA typ reg =
     (case typ of
        IT_SUB \<Rightarrow> rbind (InstructionRA_encode IT_SUB reg) (\<lambda>b. Inr [b])
      | IT_SBC \<Rightarrow> rbind (InstructionRA_encode IT_SBC reg) (\<lambda>b. Inr [b])
      | IT_AND \<Rightarrow> rbind (InstructionRA_encode IT_AND reg) (\<lambda>b. Inr [b])
      | IT_XOR \<Rightarrow> rbind (InstructionRA_encode IT_XOR reg) (\<lambda>b. Inr [b])
      | IT_OR \<Rightarrow> rbind (InstructionRA_encode IT_OR reg) (\<lambda>b. Inr [b])
      | IT_CP \<Rightarrow> rbind (InstructionRA_encode IT_CP reg) (\<lambda>b. Inr [b])
      | _ \<Rightarrow> Inl (AssemblerException ''Invalid InstructionRA type''))"

definition instructionD :: "InstructionType \<Rightarrow> char \<Rightarrow> char \<Rightarrow> asm_error + u8 list" where
  "instructionD typ reg1 reg2 =
     (case typ of
        IT_INC \<Rightarrow> rbind (InstructionD_encode IT_INC reg1 reg2) (\<lambda>b. Inr [b])
      | IT_DEC \<Rightarrow> rbind (InstructionD_encode IT_DEC reg1 reg2) (\<lambda>b. Inr [b])
      | IT_POP \<Rightarrow> rbind (InstructionD_encode IT_POP reg1 reg2) (\<lambda>b. Inr [b])
      | IT_PUSH \<Rightarrow> rbind (InstructionD_encode IT_PUSH reg1 reg2) (\<lambda>b. Inr [b])
      | _ \<Rightarrow> Inl (AssemblerException ''Invalid Instruction1''))"

section \<open>Instructions\<close>

definition emit :: "asm_error + u8 list \<Rightarrow> unit asm_op" where
  "emit m = sbind (sread (\<lambda>_. m)) (\<lambda>bytes. lift_elf (add_progbits bytes))"

text \<open>
  The operand forms of one format for a one-operand instruction: \<open>Some\<close> is a
  \<open>return\<close> with these bytes added or a throw, \<open>None\<close> goes on with the next format.
\<close>

definition register_format :: "InstructionType \<Rightarrow> char \<Rightarrow> asm_error + u8 list" where
  "register_format typ reg =
     (if typ \<in> {IT_INC, IT_DEC} then instructionR typ reg
      else if typ \<in> {IT_SUB, IT_SBC, IT_AND, IT_XOR, IT_OR, IT_CP} then instructionRA typ reg
      else Inl (AssemblerException ''Invalid Instruction1''))"

definition dregister_format :: "InstructionType \<Rightarrow> char \<Rightarrow> char \<Rightarrow> asm_error + u8 list" where
  "dregister_format typ reg1 reg2 =
     (if typ \<in> {IT_INC, IT_DEC, IT_POP, IT_PUSH} then instructionD typ reg1 reg2
      else Inl (AssemblerException ''Invalid Instruction1''))"

definition raddr_format :: "InstructionType \<Rightarrow> char \<Rightarrow> char \<Rightarrow> asm_error + u8 list" where
  "raddr_format typ reg1 reg2 =
     (if typ \<in> {IT_INC, IT_DEC, IT_JP} then rbind (InstructionA_encode typ reg1 reg2) (\<lambda>b. Inr [b])
      else Inl (AssemblerException ''Invalid Instruction1''))"

text \<open>The encodings of numbers are computed and dropped: only a throw has an effect.\<close>

definition number_format :: "InstructionType \<Rightarrow> u8 \<Rightarrow> OperandType \<Rightarrow> asm_error + u8 list" where
  "number_format typ val fmt =
     (case fmt of
        OT_IMM8 \<Rightarrow>
          if typ \<in> {IT_JR, IT_SUB, IT_AND, IT_OR, IT_XOR, IT_CP}
          then rbind (InstructionI8_encode typ) (\<lambda>b. Inr [b, val])
          else Inl (AssemblerException ''Invalid Instruction1'')
      | OT_IMM16 \<Rightarrow>
          if typ \<in> {IT_JP, IT_CALL}
          then rbind (InstructionI16_encode typ) (\<lambda>b.
            let hi = word_of_int (uint val div 256); lo = val in Inr [b, hi, lo])
          else Inl (AssemblerException ''Invalid Instruction1'')
      | _ \<Rightarrow> Inr [])"

fun format_loop :: "InstructionType \<Rightarrow> BaseNode \<Rightarrow> format list \<Rightarrow> unit asm_op" where
  "format_loop typ operand [] = sthrow (AssemblerException ''Invalid instruction1 usage'')"
| "format_loop typ operand ((fst_op, snd_op) # fmts) =
     (if snd_op \<noteq> OT_INVALID then format_loop typ operand fmts
      else case operand of
        Register reg \<Rightarrow>
          if fst_op = OT_REGISTER then emit (register_format typ reg)
          else format_loop typ operand fmts
      | DRegister reg1 reg2 \<Rightarrow>
          if fst_op = OT_DREGISTER then emit (dregister_format typ reg1 reg2)
          else if fst_op = OT_RADDR then emit (raddr_format typ reg1 reg2)
          else format_loop typ operand fmts
      | Number val \<Rightarrow>
          sbind (sread (\<lambda>_. number_format typ val fst_op)) (\<lambda>encoded. format_loop typ operand fmts)
      | _ \<Rightarrow> format_loop typ operand fmts)"

definition assembleInstruction :: "BaseNode \<Rightarrow> unit asm_op" where
  "assembleInstruction instr =
     (case instr of
        Instruction0 typ \<Rightarrow>
          (case RBT.lookup formats typ of
             None \<Rightarrow> sreturn ()
           | Some fmts \<Rightarrow>
               if list_ex (\<lambda>(fst_op, snd_op). fst_op = OT_INVALID \<and> snd_op = OT_INVALID) fmts
               then emit (rbind (InstructionNone_encode typ) (\<lambda>b. Inr [b]))
               else sthrow (AssemblerException ''Invalid instruction0 usage''))
      | Instruction1 typ operand \<Rightarrow>
          (case RBT.lookup formats typ of
             None \<Rightarrow> sthrow (AssemblerException ''Invalid instruction format'')
           | Some fmts \<Rightarrow> format_loop typ operand fmts)
      | Instruction2 _ _ _ \<Rightarrow> sreturn ()
      | InstructionN _ _ \<Rightarrow> sreturn ()
      | _ \<Rightarrow> sthrow wrong_node)"

section \<open>Programs\<close>

definition assemble_node :: "BaseNode \<Rightarrow> unit asm_op" where
  "assemble_node node =
     (case node_id node of
        NT_DIRECTIVE \<Rightarrow>
          (case node of
             Directive DT_SECTION operands \<Rightarrow>
               if operands = [] then sthrow operand_out_of_range
               else lift_elf (set_section (hd operands))
           | _ \<Rightarrow> sthrow (AssemblerException ''Invalid directive type''))
      | NT_INSTRUCTION \<Rightarrow> assembleInstruction node
      | NT_LABEL \<Rightarrow>
          (case node of
             Label name \<Rightarrow>
               sthen (lift_elf (add_symbol name 0 0 Type_default Binding_global Visibility_default False))
                 (sreturn ())
           | _ \<Rightarrow> sthrow wrong_node)
      | _ \<Rightarrow> sthrow (AssemblerException ''Invalid node''))"

definition assemble :: "BaseNode \<Rightarrow> unit asm_op" where
  "assemble ast =
     (case ast of
        Root ns \<Rightarrow> sforeach assemble_node ns
      | _ \<Rightarrow> sthrow wrong_node)"

end
