(* ===== verification/Assembler_Spec.thy ===== *)
theory Assembler_Spec
  imports Assembler
begin

text \<open>
  What the assembler does, without its search through formats and without the layout of
  the object. \<open>code_of\<close> is the code of one instruction; \<open>store_assemble_node\<close> assembles
  one node into the abstract store of \<open>Elf_Store\<close>. The assembler of the code refines it:
  the locale \<open>simulation\<close> carries the step lemma to whole programs. From there follow what
  each section contains after a run, and which programs assemble at all.
\<close>

section \<open>The code of one instruction\<close>

definition one_byte :: "asm_error + u8 \<Rightarrow> asm_error + u8 list option" where
  "one_byte m = rbind m (\<lambda>b. Inr (Some [b]))"

definition has_format :: "InstructionType \<Rightarrow> bool" where
  "has_format t \<longleftrightarrow> t \<in> set (map fst format_list)"

definition no_format :: "InstructionType \<Rightarrow> asm_error + u8 list option" where
  "no_format t =
     (if has_format t then Inl (AssemblerException ''Invalid instruction1 usage'')
      else Inl (AssemblerException ''Invalid instruction format''))"

definition code_of :: "BaseNode \<Rightarrow> asm_error + u8 list option" where
  "code_of n =
     (case n of
        Instruction0 t \<Rightarrow>
          if is_value (InstructionNone_encode t) then one_byte (InstructionNone_encode t)
          else if has_format t then Inl (AssemblerException ''Invalid instruction0 usage'')
          else Inr None
      | Instruction1 t (Register r) \<Rightarrow>
          if t \<in> {IT_INC, IT_DEC} then one_byte (InstructionR_encode t r)
          else if t \<in> {IT_SUB, IT_AND, IT_XOR, IT_OR, IT_CP} then one_byte (InstructionRA_encode t r)
          else no_format t
      | Instruction1 t (DRegister r1 r2) \<Rightarrow>
          if t \<in> {IT_INC, IT_DEC, IT_POP, IT_PUSH} then one_byte (InstructionD_encode t r1 r2)
          else no_format t
      | Instruction1 t _ \<Rightarrow> no_format t
      | Instruction2 _ _ _ \<Rightarrow> Inr None
      | InstructionN _ _ \<Rightarrow> Inr None
      | _ \<Rightarrow> Inl wrong_node)"

definition emit_code :: "asm_error + u8 list option \<Rightarrow> unit asm_op" where
  "emit_code m =
     (case m of
        Inl x \<Rightarrow> sthrow x
      | Inr None \<Rightarrow> sreturn ()
      | Inr (Some bytes) \<Rightarrow> lift_elf (add_progbits bytes))"

lemma emit_byte: "emit (rbind m (\<lambda>b. Inr [b])) = emit_code (one_byte m)"
  by (rule ext, cases m) (simp_all add: emit_def emit_code_def one_byte_def)

lemma sread_value: "sbind (sread (\<lambda>_. Inr a)) f = f a"
  by (rule ext) simp

lemma sread_error: "sbind (sread (\<lambda>_. Inl x)) f = sthrow x"
  by (rule ext) simp

lemma emit_code_simps [simp]:
  "emit_code (Inl x) = sthrow x"
  "emit_code (Inr None) = sreturn ()"
  "emit_code (Inr (Some bytes)) = lift_elf (add_progbits bytes)"
  by (simp_all add: emit_code_def)

lemmas format_simps = lookup_formats format_list_def has_format_def no_format_def code_of_def
  assembleInstruction_def emit_byte

lemma assemble_instruction0: "assembleInstruction (Instruction0 t) = emit_code (code_of (Instruction0 t))"
  by (cases t) (simp_all add: format_simps InstructionNone_encode_def one_byte_def emit_def sread_value
      del: rbind_simps, simp_all add: sread_value)

lemma assemble_register:
  "assembleInstruction (Instruction1 t (Register r)) = emit_code (code_of (Instruction1 t (Register r)))"
  by (cases t) (simp_all add: format_simps register_format_def instructionR_def instructionRA_def)

lemma assemble_dregister:
  "assembleInstruction (Instruction1 t (DRegister r1 r2)) = emit_code (code_of (Instruction1 t (DRegister r1 r2)))"
  by (cases t) (simp_all add: format_simps dregister_format_def instructionD_def)

lemma assemble_number:
  "assembleInstruction (Instruction1 t (Number v)) = emit_code (code_of (Instruction1 t (Number v)))"
  by (rule ext, cases t) (simp_all add: format_simps number_format_def InstructionI8_encode_def
      InstructionI16_encode_def sread_value)

text \<open>Operands of every other kind match no format.\<close>

lemma format_loop_other:
  "node_id a \<notin> {NT_REGISTER, NT_DREGISTER, NT_NUMBER} \<Longrightarrow>
   format_loop t a fmts = sthrow (AssemblerException ''Invalid instruction1 usage'')"
  by (induction t a fmts rule: format_loop.induct) (auto split: BaseNode.split)

lemma map_of_None_format: "map_of format_list t = None \<longleftrightarrow> \<not> has_format t"
  by (simp add: has_format_def map_of_eq_None_iff)

lemma assemble_other:
  assumes "node_id a \<notin> {NT_REGISTER, NT_DREGISTER, NT_NUMBER}"
  shows "assembleInstruction (Instruction1 t a) = emit_code (code_of (Instruction1 t a))"
proof -
  have "code_of (Instruction1 t a) = no_format t"
    using assms by (auto simp: code_of_def split: BaseNode.split)
  then show ?thesis
    using format_loop_other [OF assms] map_of_None_format [of t]
    by (auto simp: assembleInstruction_def lookup_formats no_format_def split: option.split)
qed

lemma assemble_instruction1: "assembleInstruction (Instruction1 t a) = emit_code (code_of (Instruction1 t a))"
  by (cases "node_id a \<in> {NT_REGISTER, NT_DREGISTER, NT_NUMBER}")
    (cases a, auto simp: assemble_register assemble_dregister assemble_number assemble_other)

lemma assembleInstruction_code: "assembleInstruction n = emit_code (code_of n)"
  by (cases n) (simp_all add: assemble_instruction0 assemble_instruction1,
      simp_all add: assembleInstruction_def code_of_def)

section \<open>Assembling into the abstract store\<close>

definition store_assemble_node :: "BaseNode \<Rightarrow> (asm_error, store, unit) operation" where
  "store_assemble_node n =
     (case n of
        Directive DT_SECTION (name # _) \<Rightarrow> slift elf_failure (store_set_section name)
      | Directive DT_SECTION [] \<Rightarrow> sthrow operand_out_of_range
      | Directive DT_INVALID _ \<Rightarrow> sthrow (AssemblerException ''Invalid directive type'')
      | Label name \<Rightarrow> slift elf_failure (store_add_symbol name)
      | _ \<Rightarrow>
          if node_id n = NT_INSTRUCTION then
            (case code_of n of
               Inl x \<Rightarrow> sthrow x
             | Inr None \<Rightarrow> sreturn ()
             | Inr (Some bytes) \<Rightarrow> slift elf_failure (store_add_progbits bytes))
          else sthrow (AssemblerException ''Invalid node''))"

lemma slift_refines:
  "m' (\<alpha> s) = (map_sum id g (fst (m s)), \<alpha> (snd (m s))) \<Longrightarrow>
   slift f m' (\<alpha> s) = (map_sum id g (fst (slift f m s)), \<alpha> (snd (slift f m s)))"
  by (cases "m s"; cases "fst (m s)") (auto simp: slift_def)

lemma slift_refines_same:
  "m' (\<alpha> s) = (fst (m s), \<alpha> (snd (m s))) \<Longrightarrow>
   slift f m' (\<alpha> s) = (fst (slift f m s), \<alpha> (snd (slift f m s)))"
  by (cases "m s"; cases "fst (m s)") (auto simp: slift_def)

lemma sthen_return_unit:
  "sthen m (sreturn ()) s = (map_sum id (\<lambda>_. ()) (fst (m s)), snd (m s))"
  by (cases "m s"; cases "fst (m s)") auto

lemma assemble_node_simps:
  "assemble_node (Directive DT_SECTION (name # ns)) = lift_elf (set_section name)"
  "assemble_node (Directive DT_SECTION []) = sthrow operand_out_of_range"
  "assemble_node (Directive DT_INVALID ns) = sthrow (AssemblerException ''Invalid directive type'')"
  "assemble_node (Label name) =
     sthen (lift_elf (add_symbol name 0 0 Type_default Binding_global Visibility_default False)) (sreturn ())"
  "node_id n = NT_INSTRUCTION \<Longrightarrow> assemble_node n = emit_code (code_of n)"
  "node_id n \<notin> {NT_DIRECTIVE, NT_INSTRUCTION, NT_LABEL} \<Longrightarrow>
     assemble_node n = sthrow (AssemblerException ''Invalid node'')"
  by (simp_all add: assemble_node_def assembleInstruction_code split: NodeType.split)

lemma store_node_simps:
  "node_id n = NT_INSTRUCTION \<Longrightarrow> store_assemble_node n =
     (case code_of n of
        Inl x \<Rightarrow> sthrow x
      | Inr None \<Rightarrow> sreturn ()
      | Inr (Some bytes) \<Rightarrow> slift elf_failure (store_add_progbits bytes))"
  "node_id n \<notin> {NT_DIRECTIVE, NT_INSTRUCTION, NT_LABEL} \<Longrightarrow>
     store_assemble_node n = sthrow (AssemblerException ''Invalid node'')"
  by (cases n; simp add: store_assemble_node_def)+

lemma node_cases:
  obtains (directive) name ns where "n = Directive DT_SECTION (name # ns)"
  | (no_section) "n = Directive DT_SECTION []"
  | (bad_directive) ns where "n = Directive DT_INVALID ns"
  | (label) name where "n = Label name"
  | (instruction) "node_id n = NT_INSTRUCTION"
  | (other) "node_id n \<notin> {NT_DIRECTIVE, NT_INSTRUCTION, NT_LABEL}"
proof (cases n)
  case (Directive t ts)
  then show thesis
    using directive no_section bad_directive by (cases t; cases ts) auto
qed (use label instruction other in auto)

lemma lift_progbits_refines:
  assumes "object_ok e"
  shows "slift f (store_add_progbits d) (store_of e) =
    (fst (slift f (add_progbits d) e), store_of (snd (slift f (add_progbits d) e)))"
  by (rule slift_refines_same [where \<alpha> = store_of and m' = "store_add_progbits d" and
        m = "add_progbits d" and s = e, OF add_progbits_refines [OF assms]])

lemma emit_code_refines:
  assumes "object_ok e"
  shows "(case m of Inl x \<Rightarrow> sthrow x | Inr None \<Rightarrow> sreturn ()
      | Inr (Some bytes) \<Rightarrow> slift elf_failure (store_add_progbits bytes)) (store_of e) =
    (fst (emit_code m e), store_of (snd (emit_code m e)))"
  using lift_progbits_refines [OF assms, of elf_failure]
  by (auto split: sum.split option.split simp del: fst_slift snd_slift)

lemma assemble_node_refines:
  assumes "object_ok e"
  shows "store_assemble_node n (store_of e) = (fst (assemble_node n e), store_of (snd (assemble_node n e)))"
proof (cases n rule: node_cases)
  case (directive name ns)
  then show ?thesis
    using slift_refines_same [where \<alpha> = store_of and m' = "store_set_section name" and
        m = "set_section name" and s = e and f = elf_failure, OF set_section_refines]
    by (simp add: assemble_node_simps store_assemble_node_def del: fst_slift snd_slift)
next
  case (label name)
  then show ?thesis
    using slift_refines [where \<alpha> = store_of and g = "\<lambda>_. ()" and s = e and m' = "store_add_symbol name" and
        m = "add_symbol name 0 0 Type_default Binding_global Visibility_default False", OF add_symbol_refines [OF assms, of name 0 0 Type_default
        Binding_global Visibility_default], of elf_failure]
    by (simp add: assemble_node_simps store_assemble_node_def sthen_return_unit del: fst_slift snd_slift)
next
  case instruction
  then show ?thesis using emit_code_refines [OF assms] by (simp add: assemble_node_simps store_node_simps)
next
  case other
  then show ?thesis by (simp add: assemble_node_simps store_node_simps)
qed (simp_all add: assemble_node_simps store_assemble_node_def)

lemma assemble_node_ok: "obj.keeps (assemble_node n)"
  by (cases n rule: node_cases)
    (auto simp: assemble_node_simps emit_code_def simp del: s_simps split: sum.split option.split
      intro!: obj.keeps_slift obj.keeps_sthen obj.keeps_set_current obj.keeps_add_symbol obj.keeps_add_data)

text \<open>The assembler makes an object of the program into another one, also when it throws.\<close>

lemma assembled_node: "asb.keeps junk (assemble_node n)"
  by (cases n rule: node_cases)
    (auto simp: assemble_node_simps emit_code_def simp del: s_simps split: sum.split option.split
      intro!: asb.keeps_slift asb.keeps_sthen assembled_operations)

interpretation asm: simulation store_of object_ok assemble_node store_assemble_node
  by unfold_locales (auto simp: assemble_node_refines obj.keepsD [OF assemble_node_ok])

section \<open>What a run leaves in the sections\<close>

definition node_code :: "BaseNode \<Rightarrow> u8 list" where
  "node_code n = (case code_of n of Inr (Some bytes) \<Rightarrow> bytes | _ \<Rightarrow> [])"

text \<open>The code that a program puts into a section, from its text alone.\<close>

fun emitted :: "string \<Rightarrow> BaseNode list \<Rightarrow> string \<Rightarrow> u8 list" where
  "emitted cur [] s = []"
| "emitted cur (n # ns) s =
     (case n of
        Directive _ (name # _) \<Rightarrow> emitted name ns s
      | _ \<Rightarrow> (if s = cur then node_code n else []) @ emitted cur ns s)"

fun defined_labels :: "BaseNode list \<Rightarrow> string list" where
  "defined_labels [] = []"
| "defined_labels (n # ns) = (case n of Label name \<Rightarrow> [name] | _ \<Rightarrow> []) @ defined_labels ns"

definition append_code :: "u8 list \<Rightarrow> contents option \<Rightarrow> contents option" where
  "append_code bytes c = (case c of Some (Code d) \<Rightarrow> Some (Code (d @ bytes)) | _ \<Rightarrow> c)"

lemma append_code_simps [simp]:
  "append_code [] c = c"
  "append_code bs (append_code as c) = append_code (as @ bs) c"
  "append_code bs (Some (Code d)) = Some (Code (d @ bs))"
  by (simp_all add: append_code_def split: option.split contents.split)

lemma store_node_run:
  assumes "store_assemble_node n \<sigma> = (Inr (), \<tau>)"
  obtains (directive) name ns where "n = Directive DT_SECTION (name # ns)" "st_sections \<sigma> name \<noteq> None"
      "\<tau> = \<sigma>\<lparr>st_current := name\<rparr>"
  | (label) name where "n = Label name" "name \<notin> set (st_symbols \<sigma>)"
      "\<tau> = \<sigma>\<lparr>st_symbols := st_symbols \<sigma> @ [name]\<rparr>"
  | (silent) "node_id n = NT_INSTRUCTION" "code_of n = Inr None" "\<tau> = \<sigma>"
  | (code) bytes d where "node_id n = NT_INSTRUCTION" "code_of n = Inr (Some bytes)"
      "st_sections \<sigma> (st_current \<sigma>) = Some (Code d)"
      "\<tau> = \<sigma>\<lparr>st_sections := (st_sections \<sigma>)(st_current \<sigma> \<mapsto> Code (d @ bytes))\<rparr>"
proof (cases n rule: node_cases)
  case (directive name ns)
  with assms that(1) [OF directive] show thesis
    by (auto simp: store_assemble_node_def store_set_section_def slift_def split: if_splits)
next
  case (label name)
  with assms that(2) [OF label] show thesis
    by (auto simp: store_assemble_node_def store_add_symbol_def slift_def split: if_splits)
next
  case instruction
  with assms that(3,4) [OF instruction] show thesis
    by (auto simp: store_node_simps store_add_progbits_def slift_def
        split: if_splits sum.splits option.splits contents.splits)
qed (use assms in \<open>simp_all add: store_node_simps, simp_all add: store_assemble_node_def\<close>)

lemma instruction_not_other:
  "node_id n = NT_INSTRUCTION \<Longrightarrow>
     emitted cur (n # ns) s = (if s = cur then node_code n else []) @ emitted cur ns s \<and>
     defined_labels (n # ns) = defined_labels ns"
  by (cases n) simp_all

lemma store_run:
  assumes "sforeach store_assemble_node ns \<sigma> = (Inr (), \<tau>)"
  shows "st_sections \<tau> s = append_code (emitted (st_current \<sigma>) ns s) (st_sections \<sigma> s)"
    and "st_symbols \<tau> = st_symbols \<sigma> @ defined_labels ns"
    and "distinct (st_symbols \<sigma>) \<Longrightarrow> distinct (st_symbols \<tau>)"
proof -
  have "st_sections \<tau> s = append_code (emitted (st_current \<sigma>) ns s) (st_sections \<sigma> s) \<and>
      st_symbols \<tau> = st_symbols \<sigma> @ defined_labels ns \<and>
      (distinct (st_symbols \<sigma>) \<longrightarrow> distinct (st_symbols \<tau>))"
    using assms
  proof (induction ns arbitrary: \<sigma>)
    case Nil
    then show ?case by simp
  next
    case (Cons n ns)
    then obtain \<sigma>1 where n: "store_assemble_node n \<sigma> = (Inr (), \<sigma>1)"
      and ns: "sforeach store_assemble_node ns \<sigma>1 = (Inr (), \<tau>)"
      by (auto simp: sthen_Inr_iff)
    note IH = Cons.IH [OF ns]
    from n show ?case
    proof (cases rule: store_node_run)
      case (code bytes d)
      with IH show ?thesis
        by (auto simp: instruction_not_other node_code_def simp del: emitted.simps(2) defined_labels.simps(2))
    next
      case silent
      with IH show ?thesis
        by (auto simp: instruction_not_other node_code_def simp del: emitted.simps(2) defined_labels.simps(2))
    qed (use IH in \<open>auto simp: node_code_def code_of_def\<close>)
  qed
  then show "st_sections \<tau> s = append_code (emitted (st_current \<sigma>) ns s) (st_sections \<sigma> s)"
    and "st_symbols \<tau> = st_symbols \<sigma> @ defined_labels ns"
    and "distinct (st_symbols \<sigma>) \<Longrightarrow> distinct (st_symbols \<tau>)"
    by blast+
qed

section \<open>Which programs assemble\<close>

text \<open>
  A check of the program text: every directive names a known section, no label is defined
  twice, every instruction has an encoding, and those that emit code do so in a section
  that holds code.
\<close>

fun accepts :: "(string \<Rightarrow> bool) \<Rightarrow> (string \<Rightarrow> bool) \<Rightarrow> string \<Rightarrow> string list \<Rightarrow> BaseNode list \<Rightarrow> bool" where
  "accepts known holds_code cur syms [] = True"
| "accepts known holds_code cur syms (n # ns) =
     (case n of
        Directive DT_SECTION (name # _) \<Rightarrow> known name \<and> accepts known holds_code name syms ns
      | Label name \<Rightarrow> name \<notin> set syms \<and> accepts known holds_code cur (syms @ [name]) ns
      | _ \<Rightarrow> node_id n = NT_INSTRUCTION \<and> is_value (code_of n) \<and>
            (code_of n \<noteq> Inr None \<longrightarrow> holds_code cur) \<and> accepts known holds_code cur syms ns)"

definition store_known :: "store \<Rightarrow> string \<Rightarrow> bool" where
  "store_known \<sigma> name \<longleftrightarrow> st_sections \<sigma> name \<noteq> None"

definition store_holds_code :: "store \<Rightarrow> string \<Rightarrow> bool" where
  "store_holds_code \<sigma> name \<longleftrightarrow> (\<exists>d. st_sections \<sigma> name = Some (Code d))"

lemma accepts_instruction:
  "node_id n = NT_INSTRUCTION \<Longrightarrow> accepts known holds_code cur syms (n # ns) \<longleftrightarrow>
     is_value (code_of n) \<and> (code_of n \<noteq> Inr None \<longrightarrow> holds_code cur) \<and> accepts known holds_code cur syms ns"
  by (cases n) simp_all

lemma accepts_other:
  "node_id n \<notin> {NT_DIRECTIVE, NT_INSTRUCTION, NT_LABEL} \<Longrightarrow> \<not> accepts known holds_code cur syms (n # ns)"
  by (cases n) simp_all

lemma sthen_value: "is_value (fst (sthen m k s)) \<longleftrightarrow> (\<exists>a t. m s = (Inr a, t) \<and> is_value (fst (k t)))"
proof (cases "m s")
  case (Pair r t)
  then show ?thesis by (cases r) auto
qed

text \<open>Adding code does not change which sections there are, and which hold code.\<close>

lemma shape_update:
  assumes "st_sections \<sigma> cur = Some (Code d)"
  shows "store_known (\<sigma>\<lparr>st_sections := (st_sections \<sigma>)(cur \<mapsto> Code d')\<rparr>) = store_known \<sigma>"
    and "store_holds_code (\<sigma>\<lparr>st_sections := (st_sections \<sigma>)(cur \<mapsto> Code d')\<rparr>) = store_holds_code \<sigma>"
  using assms by (auto simp: store_known_def store_holds_code_def fun_eq_iff)

lemma accepts_iff_store:
  "is_value (fst (sforeach store_assemble_node ns \<sigma>)) \<longleftrightarrow>
   accepts (store_known \<sigma>) (store_holds_code \<sigma>) (st_current \<sigma>) (st_symbols \<sigma>) ns"
proof (induction ns arbitrary: \<sigma>)
  case Nil
  then show ?case by simp
next
  case (Cons n ns)
  show ?case
  proof (cases n rule: node_cases)
    case (directive name ts)
    then show ?thesis
      using Cons.IH [of "\<sigma>\<lparr>st_current := name\<rparr>"]
      by (auto simp: sthen_value store_assemble_node_def store_set_section_def slift_def store_known_def
          store_holds_code_def [abs_def])
  next
    case (label name)
    then show ?thesis
      using Cons.IH [of "\<sigma>\<lparr>st_symbols := st_symbols \<sigma> @ [name]\<rparr>"]
      by (auto simp: sthen_value store_assemble_node_def store_add_symbol_def slift_def store_known_def
          store_holds_code_def [abs_def])
  next
    case instruction
    note accepts_step = accepts_instruction [OF instruction, of "store_known \<sigma>" "store_holds_code \<sigma>"]
    show ?thesis
    proof (cases "code_of n")
      case (Inl x)
      then show ?thesis
        unfolding accepts_step by (simp add: store_node_simps(1) [OF instruction] sthen_value)
    next
      case (Inr m)
      show ?thesis
      proof (cases m)
        case None
        with Inr Cons.IH [of \<sigma>] show ?thesis
          unfolding accepts_step by (simp add: store_node_simps(1) [OF instruction] sthen_value)
      next
        case (Some bytes)
        note step = store_node_simps(1) [OF instruction] Inr Some
        show ?thesis
        proof (cases "store_holds_code \<sigma> (st_current \<sigma>)")
          case True
          then obtain d where d: "st_sections \<sigma> (st_current \<sigma>) = Some (Code d)"
            by (auto simp: store_holds_code_def)
          let ?\<tau> = "\<sigma>\<lparr>st_sections := (st_sections \<sigma>)(st_current \<sigma> \<mapsto> Code (d @ bytes))\<rparr>"
          have "store_assemble_node n \<sigma> = (Inr (), ?\<tau>)"
            using d by (simp add: step store_add_progbits_def)
          with True Inr Cons.IH [of ?\<tau>] show ?thesis
            unfolding accepts_step by (simp add: sthen_value shape_update [OF d])
        next
          case False
          then have "\<not> is_value (fst (store_assemble_node n \<sigma>))"
            by (auto simp: step store_add_progbits_def store_holds_code_def slift_def
                split: option.split contents.split)
          with False Inr Some show ?thesis
            unfolding accepts_step by (auto simp: sthen_value)
        qed
      qed
    qed
  next
    case other
    then show ?thesis by (simp add: accepts_other store_node_simps sthen_value del: accepts.simps(2))
  qed (simp_all add: sthen_value store_assemble_node_def)
qed

section \<open>Runs on a new object\<close>

definition code_sections :: "string list" where
  "code_sections = [''data'', ''rodata'', ''bss'', ''text'', ''init'']"

definition table_sections :: "string list" where
  "table_sections = [''shstrtab'', ''strtab'', ''symtab'']"

lemma store_new:
  "store_of (new_object junk) = \<lparr>st_sections = named_contents initial_sections,
     st_current = ''shstrtab'', st_symbols = []\<rparr>"
  by (simp add: store_of_def new_object_def ELF_blank_def string_table_def strings_at_def section_at_def)
    (simp add: initial_sections_def make_section_defs)

lemma initial_contents:
  "named_contents initial_sections name =
     (if name \<in> set code_sections then Some (Code []) else if name \<in> set table_sections then Some Table else None)"
  by (simp add: named_contents_def initial_sections_def make_section_defs section_contents_def
      code_sections_def table_sections_def)

lemma assemble_Root: "assemble (Root ns) = sforeach assemble_node ns"
  by (simp add: assemble_def)

lemma assembled_program: "assembled junk e \<Longrightarrow> assembled junk (snd (assemble (Root ns) e))"
  unfolding assemble_Root by (rule asb.keepsD) (intro asb.keeps_sforeach assembled_node)

lemma new_object_ok: "object_ok (new_object junk)"
  by (rule obj.inv_new [OF ELF_new_object])

lemma named_contents_Code:
  assumes "named_contents ss name = Some (Code d)"
  shows "\<exists>s \<in> set ss. s_name s = name \<and> s_data s = ProgramSection d"
proof -
  from assms have "(name, Code d) \<in> set (map (\<lambda>s. (s_name s, section_contents s)) ss)"
    unfolding named_contents_def by (rule map_of_SomeD)
  then obtain s where "s \<in> set ss" "s_name s = name" "section_contents s = Code d" by auto
  moreover from this(3) have "s_data s = ProgramSection d"
    by (auto simp: section_contents_def split: section_data.splits)
  ultimately show ?thesis by blast
qed

text \<open>The check of a whole program: it starts in the section \<open>shstrtab\<close>, without symbols.\<close>

definition accepted :: "BaseNode list \<Rightarrow> bool" where
  "accepted ns \<longleftrightarrow>
     accepts (\<lambda>name. name \<in> set (code_sections @ table_sections)) (\<lambda>name. name \<in> set code_sections)
       ''shstrtab'' [] ns"

lemma accepts_new: "is_value (fst (assemble (Root ns) (new_object junk))) \<longleftrightarrow> accepted ns"
proof -
  let ?e = "new_object junk"
  have known: "store_known (store_of ?e) = (\<lambda>name. name \<in> set (code_sections @ table_sections))"
    by (auto simp: store_known_def store_new initial_contents fun_eq_iff)
  have code: "store_holds_code (store_of ?e) = (\<lambda>name. name \<in> set code_sections)"
    by (auto simp: store_holds_code_def store_new initial_contents fun_eq_iff)
  have "fst (assemble (Root ns) ?e) = fst (sforeach store_assemble_node ns (store_of ?e))"
    using asm.foreach_sim [OF new_object_ok, of ns junk] by (simp add: assemble_Root)
  then show ?thesis
    unfolding accepted_def
    using accepts_iff_store [of ns "store_of ?e"] by (simp add: known code) (simp add: store_new)
qed

lemma new_object_section:
  assumes "assemble (Root ns) (new_object junk) = (Inr (), e')" and "name \<in> set code_sections"
  shows "(\<exists>s \<in> set (elf_sections e'). s_name s = name \<and> s_data s = ProgramSection (emitted ''shstrtab'' ns name)) \<and>
    string_table e' = Inr ([] # defined_labels ns) \<and> distinct (defined_labels ns) \<and> object_ok e'"
proof -
  let ?e = "new_object junk"
  have run: "sforeach assemble_node ns ?e = (Inr (), e')" using assms(1) by (simp add: assemble_Root)
  have ok: "object_ok e'" using asm.foreach_inv [OF new_object_ok, of ns junk] run by simp
  have "sforeach store_assemble_node ns (store_of ?e) = (Inr (), store_of e')"
    using asm.foreach_sim [OF new_object_ok, of ns junk] run by simp
  note sto = store_run [OF this]
  from sto(1) [of name] assms(2) have "named_contents (elf_sections e') name = Some (Code (emitted ''shstrtab'' ns name))"
    by (simp add: store_new initial_contents) (simp add: store_of_def)
  moreover have "string_table e' = Inr ([] # defined_labels ns)"
  proof -
    obtain names where "string_table e' = Inr ([] # names)"
      using ok by (auto simp: object_inv_def elim!: symbols_wfE)
    moreover from this have "st_symbols (store_of e') = names" by (simp add: store_of_def)
    ultimately show ?thesis using sto(2) by (simp add: store_new)
  qed
  moreover have "distinct (defined_labels ns)"
    using sto(2,3) by (simp add: store_new)
  ultimately show ?thesis using ok named_contents_Code by blast
qed

lemma new_object_sections:
  assumes "assemble (Root ns) (new_object junk) = (Inr (), e')"
  shows "object_ok e' \<and> (\<forall>name \<in> set code_sections. \<exists>s \<in> set (elf_sections e').
    s_name s = name \<and> s_data s = ProgramSection (emitted ''shstrtab'' ns name))"
  using new_object_section [OF assms] new_object_section [OF assms, of "''text''"]
  by (simp add: code_sections_def)

section \<open>Properties\<close>

text \<open>C11: What the assembler leaves in a new object. After a run that does not throw, each of the
  five program sections holds exactly the code of the instructions that follow a directive for
  this section, in the order of the program; the string table holds the labels of the program,
  which are distinct; and the names table is unchanged.\<close>

theorem assemble_sections:
  assumes "assemble (Root ns) (new_object junk) = (Inr (), e')" and "name \<in> set code_sections"
  shows "(\<exists>s \<in> set (elf_sections e'). s_name s = name \<and> s_data s = ProgramSection (emitted ''shstrtab'' ns name)) \<and>
    string_table e' = Inr ([] # defined_labels ns) \<and> distinct (defined_labels ns) \<and> object_ok e'"
  by (rule new_object_section [OF assms])

theorem assemble_sections_witness:
  "\<exists>e'. (\<exists>s \<in> set (elf_sections e'). s_name s = ''text'' \<and> s_data s = ProgramSection [0x00, 0x90]) \<and>
    string_table e' = Inr ([] # [''l'']) \<and> object_ok e'"
proof -
  let ?ns = "[Directive DT_SECTION [''text''], Instruction0 IT_NOP, Label ''l'', Instruction1 IT_SUB (Register CHR ''b'')]"
  have codes: "code_of (Instruction0 IT_NOP) = Inr (Some [0x00])"
      "code_of (Instruction1 IT_SUB (Register CHR ''b'')) = Inr (Some [0x90])"
    by (simp_all add: code_of_def one_byte_def InstructionNone_encode_def InstructionRA_encode_def
        encodeRegister_def)
  then have "is_value (fst (assemble (Root ?ns) (new_object 0)))"
    using accepts_new [of ?ns 0] by (simp add: accepted_def code_sections_def)
  then obtain e' where run: "assemble (Root ?ns) (new_object 0) = (Inr (), e')"
    by (cases "assemble (Root ?ns) (new_object 0)") (auto simp: is_value_iff)
  have "emitted ''shstrtab'' ?ns ''text'' = [0x00, 0x90]" "defined_labels ?ns = [''l'']"
    by (simp_all add: node_code_def codes) (simp add: code_of_def)
  with assemble_sections [OF run, of "''text''"] show ?thesis by (auto simp: code_sections_def)
qed

text \<open>C12: Which programs assemble: a run on a new object returns exactly if every directive names
  one of the eight sections, no label is defined twice, every instruction has an encoding, and
  instructions that emit code stand in one of the five program sections. In particular code
  before the first directive is refused.\<close>

theorem assemble_accepts:
  "is_value (fst (assemble (Root ns) (new_object junk))) \<longleftrightarrow> accepted ns"
  by (rule accepts_new)

text \<open>C13: The assembler of the code implements the specification on abstract stores: on every
  object of the program both have the same result or exception and end in corresponding states,
  also when they throw in the middle of the program.\<close>

theorem assemble_implements:
  assumes "assembled junk e"
  shows "sforeach store_assemble_node ns (store_of e) =
    (fst (assemble (Root ns) e), store_of (snd (assemble (Root ns) e)))"
proof -
  have "object_ok e" by (rule assembled_keeps [OF assms])
  then show ?thesis unfolding assemble_Root by (rule asm.foreach_sim)
qed

theorem assemble_implements_witness:
  "sforeach store_assemble_node [Directive DT_SECTION [''text''], Instruction0 IT_NOP] (store_of (new_object 0)) =
    (fst (assemble (Root [Directive DT_SECTION [''text''], Instruction0 IT_NOP]) (new_object 0)),
     store_of (snd (assemble (Root [Directive DT_SECTION [''text''], Instruction0 IT_NOP]) (new_object 0))))"
  by (rule assemble_implements [OF assembled_new])

text \<open>C28: The search through the table of formats amounts to the direct description of an
  instruction's code: \<open>assembleInstruction\<close> adds the code, adds nothing or throws as
  \<open>code_of\<close> says, for every instruction and every object.\<close>

theorem assembleInstruction_implements:
  "assembleInstruction n = emit_code (code_of n)"
  by (rule assembleInstruction_code)

lemma code_of_one_byte: "code_of n = Inr (Some bytes) \<Longrightarrow> \<exists>b. bytes = [b]"
proof -
  assume c: "code_of n = Inr (Some bytes)"
  have "\<exists>b. bs = [b]" if "one_byte m = Inr (Some bs)" for m bs
    using that by (auto simp: one_byte_def rbind_Inr_iff)
  moreover have "no_format t \<noteq> Inr x" for t x by (simp add: no_format_def)
  ultimately show ?thesis
    using c by (cases n) (auto simp: code_of_def split: if_splits BaseNode.splits)
qed

lemma code_of_expr: "is_expr a \<Longrightarrow> code_of (Instruction1 t a) = no_format t"
  by (cases a) (simp_all add: code_of_def)

end
