(* ===== verification/Parser.thy ===== *)
theory Parser
  imports Ast
begin

text \<open>
  The recursive-descent parser of \<open>include/parser.hpp\<close> and \<open>src/parser.cpp\<close>. The
  members \<open>mTokens\<close> and \<open>mPos\<close> are the state \<open>pstate\<close>, passed explicitly; the
  member \<open>mRoot\<close> is never used by the code. Each member function is a definition of the
  same name. An exception is \<open>Inl\<close>: \<open>ParserException\<close> with its message,
  \<open>out_of_range\<close> where \<open>vector::at\<close> throws, and \<open>atoi_undefined\<close> where the code
  calls \<open>std::atoi\<close> on a number that no \<open>int\<close> represents, for which the C standard
  defines no behaviour. The parser's contract (each function that returns has moved the
  cursor forward over the unchanged token list) is the locale \<open>consuming\<close>; it carries
  the termination proofs.
\<close>

datatype parser_error = ParserException string | out_of_range | atoi_undefined

record pstate =
  mTokens :: TokenList
  mPos :: nat

section \<open>The tables\<close>

definition registers :: "Token list" where
  "registers = [''a'', ''f'', ''b'', ''c'', ''d'', ''e'', ''h'', ''l'']"

definition doubleRegisters :: "Token list" where
  "doubleRegisters = [''af'', ''bc'', ''de'', ''hl'', ''sp'', ''pc'']"

record DirectiveProps =
  d_lexeme :: Token
  d_type :: DirectiveType
  d_args :: nat

definition directives :: "DirectiveProps list" where
  "directives = [\<lparr>d_lexeme = ''.section'', d_type = DT_SECTION, d_args = 1\<rparr>]"

record InstructionProps =
  i_lexeme :: Token
  i_type :: InstructionType
  i_args1 :: nat
  i_args2 :: nat

definition iprops :: "Token \<Rightarrow> InstructionType \<Rightarrow> nat \<Rightarrow> nat \<Rightarrow> InstructionProps" where
  "iprops l t a b = \<lparr>i_lexeme = l, i_type = t, i_args1 = a, i_args2 = b\<rparr>"

definition instructions :: "InstructionProps list" where
  "instructions =
    [iprops ''add'' IT_ADD 2 2, iprops ''adc'' IT_ADC 2 2, iprops ''inc'' IT_INC 1 1,
     iprops ''sub'' IT_SUB 1 2, iprops ''sbc'' IT_SBC 2 2, iprops ''and'' IT_AND 1 1,
     iprops ''xor'' IT_XOR 1 1, iprops ''or'' IT_OR 1 1, iprops ''cp'' IT_CP 1 1,
     iprops ''dec'' IT_DEC 1 1, iprops ''rlc'' IT_RLC 1 1, iprops ''rlca'' IT_RLCA 0 0,
     iprops ''rl'' IT_RL 1 1, iprops ''rla'' IT_RLA 0 0, iprops ''rrc'' IT_RRC 1 1,
     iprops ''rrca'' IT_RRCA 0 0, iprops ''rr'' IT_RR 1 1, iprops ''rra'' IT_RRA 0 0,
     iprops ''daa'' IT_DAA 0 0, iprops ''scf'' IT_SCF 0 0, iprops ''cpl'' IT_CPL 0 0,
     iprops ''ccf'' IT_CCF 0 0,
     iprops ''ld'' IT_LD 2 2, iprops ''ldi'' IT_LDI 2 2, iprops ''ldd'' IT_LDD 2 2,
     iprops ''push'' IT_PUSH 1 1, iprops ''pop'' IT_POP 1 1,
     iprops ''jr'' IT_JR 1 2, iprops ''ret'' IT_RET 0 0, iprops ''jp'' IT_JP 0 0,
     iprops ''call'' IT_CALL 0 0, iprops ''rst'' IT_RST 1 1,
     iprops ''nop'' IT_NOP 0 0, iprops ''stop'' IT_STOP 0 0, iprops ''halt'' IT_HALT 0 0,
     iprops ''di'' IT_DI 0 0, iprops ''ei'' IT_EI 0 0,
     iprops ''sla'' IT_SLA 1 1, iprops ''sra'' IT_SRA 1 1, iprops ''swap'' IT_SWAP 1 1,
     iprops ''srl'' IT_SRL 1 1, iprops ''bit'' IT_BIT 2 2, iprops ''res'' IT_RES 2 2,
     iprops ''set'' IT_SET 2 2]"

section \<open>Token predicates\<close>

definition isNewline :: "Token \<Rightarrow> bool" where
  "isNewline tok \<longleftrightarrow> tok = ''EOL''"

definition isComma :: "Token \<Rightarrow> bool" where
  "isComma tok \<longleftrightarrow> tok = '',''"

definition isEof :: "Token \<Rightarrow> bool" where
  "isEof tok \<longleftrightarrow> tok = ''EOF''"

definition isNumericOp_tok :: "Token \<Rightarrow> bool" where
  "isNumericOp_tok tok \<longleftrightarrow> length tok = 1 \<and> isNumericOp (tok ! 0)"

definition isAddition :: "Token \<Rightarrow> bool" where
  "isAddition tok \<longleftrightarrow> length tok > 0 \<and> (tok = ''+'' \<or> tok = ''-'')"

definition isMultiplication :: "Token \<Rightarrow> bool" where
  "isMultiplication tok \<longleftrightarrow> length tok > 0 \<and> (tok = ''*'' \<or> tok = ''/'')"

text \<open>\<open>None\<close> is \<open>instructions.end()\<close>.\<close>

definition findInstruction :: "Token \<Rightarrow> InstructionProps option" where
  "findInstruction tok = List.find (\<lambda>p. i_lexeme p = tok) instructions"

definition isInstruction :: "Token \<Rightarrow> bool" where
  "isInstruction tok \<longleftrightarrow> findInstruction tok \<noteq> None"

definition isLabel :: "Token \<Rightarrow> bool" where
  "isLabel tok =
     (if length tok = 0 then False
      else if isDigit (tok ! 0) then False
      else if tok ! 0 = CHR ''.'' then False
      else if list_ex (\<lambda>c. \<not> isAlphaNumeric c \<and> c \<noteq> CHR ''_'') tok then False
      else if isInstruction tok then False
      else True)"

definition isDirective :: "Token \<Rightarrow> bool" where
  "isDirective tok =
     (if length tok < 2 then False
      else if tok ! 0 \<noteq> CHR ''.'' then False
      else if isDigit (tok ! 1) then False
      else list_all isAlphaNumeric (drop 1 tok))"

definition isRegister :: "Token \<Rightarrow> bool" where
  "isRegister tok \<longleftrightarrow> List.member registers tok"

definition isDRegister :: "Token \<Rightarrow> bool" where
  "isDRegister tok \<longleftrightarrow> List.member doubleRegisters tok"

text \<open>
  \<open>expectNewline\<close> and \<open>readLine\<close> are not called by the parser; their loops read
  with \<open>at\<close>. The index of \<open>expectNewline\<close> starts at a given \<open>int\<close>; a negative one is
  converted to a huge \<open>size_t\<close>, for which \<open>at\<close> throws.
\<close>

function expectNewline :: "TokenList \<Rightarrow> int \<Rightarrow> int \<Rightarrow> parser_error + int" where
  "expectNewline list i mx =
     (if i < mx then
        (if 0 \<le> i \<and> nat i < length list
         then (if isNewline (list ! nat i) then Inr i else expectNewline list (i + 1) mx)
         else Inl out_of_range)
      else Inr (- 1))"
  by pat_completeness auto
termination
  by (relation "measure (\<lambda>(list, i, mx). nat (mx - i))") auto

declare expectNewline.simps [simp del]

fun readLine :: "TokenList \<Rightarrow> parser_error + TokenList" where
  "readLine [] = Inl out_of_range"
| "readLine (t # ts) =
     (if t \<noteq> ''EOL'' then rbind (readLine ts) (\<lambda>l. Inr (t # l)) else Inr [])"

section \<open>Numbers\<close>

text \<open>
  \<open>std::atoi\<close>: white space of the C locale, an optional sign, decimal digits up to the
  first character that is none. \<open>None\<close> where the value does not fit an \<open>int\<close>.
\<close>

definition isspace :: "char \<Rightarrow> bool" where
  "isspace c \<longleftrightarrow> c = CHR '' '' \<or> (CHR 0x09 \<le> c \<and> c \<le> CHR 0x0D)"

definition digits_value :: "string \<Rightarrow> int" where
  "digits_value ds = foldl (\<lambda>v c. 10 * v + (int (of_char c) - 48)) 0 ds"

definition atoi :: "string \<Rightarrow> int option" where
  "atoi str =
     (let s = dropWhile isspace str;
          neg = (s \<noteq> [] \<and> hd s = CHR ''-'');
          s = (if s \<noteq> [] \<and> (hd s = CHR ''-'' \<or> hd s = CHR ''+'') then tl s else s);
          v = digits_value (takeWhile isDigit s);
          v = (if neg then - v else v)
      in if - (2 ^ 31) \<le> v \<and> v < 2 ^ 31 then Some v else None)"

definition parseNumber :: "Token \<Rightarrow> parser_error + BaseNode" where
  "parseNumber tok = (case atoi (c_str tok) of None \<Rightarrow> Inl atoi_undefined | Some v \<Rightarrow> Inr (make_Number v))"

section \<open>The cursor\<close>

definition Parser :: "TokenList \<Rightarrow> pstate" where
  "Parser tokens = \<lparr>mTokens = tokens, mPos = 0\<rparr>"

definition token_at :: "pstate \<Rightarrow> nat \<Rightarrow> parser_error + Token" where
  "token_at s i = (if i < length (mTokens s) then Inr (mTokens s ! i) else Inl out_of_range)"

definition next_token :: "pstate \<Rightarrow> parser_error + Token \<times> pstate" where
  "next_token s = rbind (token_at s (mPos s)) (\<lambda>t. Inr (t, s\<lparr>mPos := mPos s + 1\<rparr>))"

definition peek :: "pstate \<Rightarrow> Token" where
  "peek s = (if mPos s < length (mTokens s) then mTokens s ! mPos s else '' '')"

definition peekNext :: "pstate \<Rightarrow> parser_error + Token" where
  "peekNext s = token_at s (mPos s + 1)"

definition remaining :: "pstate \<Rightarrow> nat" where
  "remaining s = length (mTokens s) - mPos s"

text \<open>The parser's contract: on return, the cursor has moved forward.\<close>

definition advances :: "pstate \<Rightarrow> pstate \<Rightarrow> bool" where
  "advances s s' \<longleftrightarrow> mTokens s' = mTokens s \<and> mPos s < mPos s' \<and> mPos s' \<le> length (mTokens s)"

lemma advances_trans [trans]: "advances s t \<Longrightarrow> advances t u \<Longrightarrow> advances s u"
  by (auto simp: advances_def)

lemma advances_remaining: "advances s s' \<Longrightarrow> remaining s' < remaining s"
  by (auto simp: advances_def remaining_def)

locale consuming =
  fixes p :: "pstate \<Rightarrow> parser_error + 'a \<times> pstate"
  assumes consumes: "p s = Inr (a, s') \<Longrightarrow> advances s s'"
begin

lemma consumes_less: "p s = Inr (a, s') \<Longrightarrow> remaining s' < remaining s"
  by (rule advances_remaining [OF consumes])

lemma consumes_tokens: "p s = Inr (a, s') \<Longrightarrow> mTokens s' = mTokens s"
  using consumes by (auto simp: advances_def)

lemma consumes_bounds: "p s = Inr (a, s') \<Longrightarrow> mPos s < mPos s' \<and> mPos s' \<le> length (mTokens s)"
  using consumes by (auto simp: advances_def)

text \<open>A result that is post-processed still meets the contract.\<close>

lemma consumes_then:
  "rbind (p s) (\<lambda>(a, s'). Inr (f a, s')) = Inr (b, t) \<Longrightarrow> advances s t"
  by (auto simp: result_iff split: prod.splits dest: consumes)

text \<open>Nothing can be parsed at the end of the tokens.\<close>

lemma fails_at_end: "length (mTokens s) \<le> mPos s \<Longrightarrow> p s \<noteq> Inr (a, s')"
  using consumes_bounds [of s a s'] by auto

end

lemma next_token_Inr_iff [result_iff]:
  "next_token s = Inr (t, s') \<longleftrightarrow>
     mPos s < length (mTokens s) \<and> t = mTokens s ! mPos s \<and> s' = s\<lparr>mPos := mPos s + 1\<rparr>"
  by (auto simp: next_token_def token_at_def result_iff)

interpretation nxt: consuming next_token
  by unfold_locales (auto simp: result_iff advances_def)

lemma next_token_peek: "next_token s = Inr (t, s') \<Longrightarrow> t = peek s"
  by (auto simp: result_iff peek_def)

lemma peek_within: "peek s \<noteq> '' '' \<Longrightarrow> mPos s < length (mTokens s)"
  by (auto simp: peek_def split: if_splits)

section \<open>Expressions\<close>

definition parseLabel :: "Token \<Rightarrow> BaseNode" where
  "parseLabel tok = Label tok"

definition label :: "pstate \<Rightarrow> parser_error + BaseNode \<times> pstate" where
  "label s = rbind (next_token s) (\<lambda>(t, s'). Inr (parseLabel t, s'))"

definition number :: "pstate \<Rightarrow> parser_error + BaseNode \<times> pstate" where
  "number s = rbind (next_token s) (\<lambda>(t, s'). rbind (parseNumber t) (\<lambda>n. Inr (n, s')))"

definition primary :: "pstate \<Rightarrow> parser_error + BaseNode \<times> pstate" where
  "primary s =
     (let tok = peek s in
      if isLabel tok then label s
      else if isNumber tok then number s
      else Inl (ParserException ''Unrecognized primary expression''))"

interpretation lbl: consuming label
  by unfold_locales (auto simp: label_def result_iff advances_def)

interpretation num: consuming number
  by unfold_locales (auto simp: number_def result_iff advances_def)

interpretation prim: consuming primary
  by unfold_locales (auto simp: primary_def Let_def split: if_splits dest: lbl.consumes num.consumes)

function unary :: "pstate \<Rightarrow> parser_error + BaseNode \<times> pstate" where
  "unary s =
     (if length (peek s) < 1 then Inl (ParserException ''Invalid unary op'')
      else if peek s ! 0 = CHR ''-'' then
        rbind (next_token s) (\<lambda>(_, s1). rbind (unary s1) (\<lambda>(n, s2). Inr (UnaryOp UO_NEG n, s2)))
      else primary s)"
  by pat_completeness auto
termination
  by (relation "measure remaining") (auto dest: nxt.consumes_less)

declare unary.simps [simp del]

interpretation una: consuming unary
proof unfold_locales
  show "unary s = Inr (a, s') \<Longrightarrow> advances s s'" for s a s'
  proof (induction s arbitrary: a s' rule: unary.induct)
    case (1 s)
    consider (neg) t s1 n where "peek s \<noteq> []" "peek s ! 0 = CHR ''-''"
        "next_token s = Inr (t, s1)" "unary s1 = Inr (n, s')"
      | (prim) "primary s = Inr (a, s')"
      using "1.prems" unfolding unary.simps [of s]
      by (auto simp: rbind_Inr_iff split: if_splits prod.splits)
    then show ?case
    proof cases
      case neg
      then have "advances s1 s'" using "1.IH" [of "(t, s1)" t s1 n s'] by simp
      with nxt.consumes [OF neg(3)] show ?thesis by (rule advances_trans)
    next
      case prim
      then show ?thesis by (rule prim.consumes)
    qed
  qed
qed

text \<open>
  The two loops \<open>while (isOp(peek()))\<close> build left-associated trees over a parser for
  their operands. What they share is proved once, for any loop with these equations.
\<close>

locale left_assoc = consuming sub for sub :: "pstate \<Rightarrow> parser_error + BaseNode \<times> pstate" +
  fixes isop :: "Token \<Rightarrow> bool"
    and mk :: "Token \<Rightarrow> BinaryOpType"
    and loop :: "BaseNode \<Rightarrow> pstate \<Rightarrow> parser_error + BaseNode \<times> pstate"
  assumes loop_stop: "\<not> isop (peek s) \<Longrightarrow> loop left s = Inr (left, s)"
    and loop_step: "isop (peek s) \<Longrightarrow> loop left s =
      rbind (next_token s) (\<lambda>(t, s1). rbind (sub s1) (\<lambda>(right, s2).
        loop (BinaryOp (mk t) left right) s2))"
begin

text \<open>One turn of the loop, with what is left to read getting shorter.\<close>

lemma loop_turn:
  assumes "loop left s = Inr (n, s')"
  obtains (stop) "\<not> isop (peek s)" "n = left" "s' = s"
  | (step) t s1 right s2 where "isop (peek s)" "next_token s = Inr (t, s1)" "t = peek s"
      "sub s1 = Inr (right, s2)" "advances s s2" "loop (BinaryOp (mk t) left right) s2 = Inr (n, s')"
proof (cases "isop (peek s)")
  case False
  with assms loop_stop [of s left] have "n = left" and "s' = s" by simp_all
  with False show thesis by (rule stop)
next
  case True
  with assms obtain t s1 right s2 where *: "next_token s = Inr (t, s1)" "sub s1 = Inr (right, s2)"
    "loop (BinaryOp (mk t) left right) s2 = Inr (n, s')"
    by (auto simp: loop_step rbind_Inr_iff)
  moreover have "advances s s2"
    using nxt.consumes [OF *(1)] consumes [OF *(2)] by (rule advances_trans)
  ultimately show thesis
    using True step [OF True *(1) next_token_peek [OF *(1)] *(2)] by simp
qed

lemma loop_induct [consumes 1, case_names stop step]:
  assumes "loop left s = Inr (n, s')"
    and "\<And>left s. \<not> isop (peek s) \<Longrightarrow> P left s left s"
    and "\<And>left s s1 right s2 n s'. isop (peek s) \<Longrightarrow> next_token s = Inr (peek s, s1) \<Longrightarrow>
      sub s1 = Inr (right, s2) \<Longrightarrow> advances s s2 \<Longrightarrow>
      loop (BinaryOp (mk (peek s)) left right) s2 = Inr (n, s') \<Longrightarrow>
      P (BinaryOp (mk (peek s)) left right) s2 n s' \<Longrightarrow> P left s n s'"
  shows "P left s n s'"
  using assms(1)
proof (induction "remaining s" arbitrary: left s rule: less_induct)
  case less
  from less.prems show ?case
  proof (cases rule: loop_turn)
    case stop
    with assms(2) [of s left] show ?thesis by simp
  next
    case (step t s1 right s2)
    have "P (BinaryOp (mk (peek s)) left right) s2 n s'"
      using less.hyps [OF advances_remaining [OF step(5)]] step by simp
    with step assms(3) show ?thesis by blast
  qed
qed

lemma loop_keeps: "loop left s = Inr (n, s') \<Longrightarrow> s' = s \<or> advances s s'"
  by (induction rule: loop_induct) (auto intro: advances_trans)

text \<open>The loop is greedy: it returns where no operator follows.\<close>

lemma loop_greedy: "loop left s = Inr (n, s') \<Longrightarrow> \<not> isop (peek s')"
  by (induction rule: loop_induct) auto

lemma chain_consumes:
  "rbind (sub s) (\<lambda>(left, s1). loop left s1) = Inr (n, s') \<Longrightarrow> advances s s'"
  by (auto simp: rbind_Inr_iff dest!: consumes loop_keeps intro: advances_trans)

end

definition mul_op :: "Token \<Rightarrow> BinaryOpType" where
  "mul_op t = (if t = ''*'' then BO_MULT else BO_DIV)"

definition add_op :: "Token \<Rightarrow> BinaryOpType" where
  "add_op t = (if t = ''+'' then BO_ADD else BO_SUB)"

lemma isop_blank [simp]: "\<not> isMultiplication '' ''" "\<not> isAddition '' ''"
  by (simp_all add: isMultiplication_def isAddition_def)

function multiplication_loop :: "BaseNode \<Rightarrow> pstate \<Rightarrow> parser_error + BaseNode \<times> pstate" where
  "multiplication_loop left s =
     (if isMultiplication (peek s) then
        rbind (next_token s) (\<lambda>(t, s1).
          if t ! 0 = CHR ''*'' then
            rbind (unary s1) (\<lambda>(right, s2). multiplication_loop (BinaryOp BO_MULT left right) s2)
          else if t ! 0 = CHR ''/'' then
            rbind (unary s1) (\<lambda>(right, s2). multiplication_loop (BinaryOp BO_DIV left right) s2)
          else multiplication_loop left s1)
      else Inr (left, s))"
  by pat_completeness auto
termination
  by (relation "measure (\<lambda>(left, s). remaining s)")
    (auto dest!: nxt.consumes_less una.consumes_less)

declare multiplication_loop.simps [simp del]

definition multiplication :: "pstate \<Rightarrow> parser_error + BaseNode \<times> pstate" where
  "multiplication s = rbind (unary s) (\<lambda>(left, s1). multiplication_loop left s1)"

interpretation mul: left_assoc unary isMultiplication mul_op multiplication_loop
proof unfold_locales
  fix left s
  show "\<not> isMultiplication (peek s) \<Longrightarrow> multiplication_loop left s = Inr (left, s)"
    unfolding multiplication_loop.simps [of left s] by simp
  assume op: "isMultiplication (peek s)"
  have tok: "next_token s = Inr (t, s1) \<Longrightarrow> t = ''*'' \<or> t = ''/''" for t s1
    using op next_token_peek by (auto simp: isMultiplication_def)
  show "multiplication_loop left s =
      rbind (next_token s) (\<lambda>(t, s1). rbind (unary s1) (\<lambda>(right, s2).
        multiplication_loop (BinaryOp (mul_op t) left right) s2))"
    unfolding multiplication_loop.simps [of left s] using op
    by (auto simp: mul_op_def intro!: rbind_cong [OF refl] dest!: tok)
qed

interpretation mult: consuming multiplication
  by unfold_locales (simp add: multiplication_def mul.chain_consumes)

function addition_loop :: "BaseNode \<Rightarrow> pstate \<Rightarrow> parser_error + BaseNode \<times> pstate" where
  "addition_loop left s =
     (if isAddition (peek s) then
        rbind (next_token s) (\<lambda>(t, s1).
          if t ! 0 = CHR ''+'' then
            rbind (multiplication s1) (\<lambda>(right, s2). addition_loop (BinaryOp BO_ADD left right) s2)
          else if t ! 0 = CHR ''-'' then
            rbind (multiplication s1) (\<lambda>(right, s2). addition_loop (BinaryOp BO_SUB left right) s2)
          else addition_loop left s1)
      else Inr (left, s))"
  by pat_completeness auto
termination
  by (relation "measure (\<lambda>(left, s). remaining s)")
    (auto dest!: nxt.consumes_less mult.consumes_less)

declare addition_loop.simps [simp del]

definition addition :: "pstate \<Rightarrow> parser_error + BaseNode \<times> pstate" where
  "addition s = rbind (multiplication s) (\<lambda>(left, s1). addition_loop left s1)"

interpretation addl: left_assoc multiplication isAddition add_op addition_loop
proof unfold_locales
  fix left s
  show "\<not> isAddition (peek s) \<Longrightarrow> addition_loop left s = Inr (left, s)"
    unfolding addition_loop.simps [of left s] by simp
  assume op: "isAddition (peek s)"
  have tok: "next_token s = Inr (t, s1) \<Longrightarrow> t = ''+'' \<or> t = ''-''" for t s1
    using op next_token_peek by (auto simp: isAddition_def)
  show "addition_loop left s =
      rbind (next_token s) (\<lambda>(t, s1). rbind (multiplication s1) (\<lambda>(right, s2).
        addition_loop (BinaryOp (add_op t) left right) s2))"
    unfolding addition_loop.simps [of left s] using op
    by (auto simp: add_op_def intro!: rbind_cong [OF refl] dest!: tok)
qed

interpretation add: consuming addition
  by unfold_locales (simp add: addition_def addl.chain_consumes)

section \<open>Operands\<close>

definition parse_register :: "pstate \<Rightarrow> parser_error + BaseNode \<times> pstate" where
  "parse_register s = rbind (next_token s) (\<lambda>(tok, s').
     if length tok \<noteq> 1 then Inl (ParserException ''Unrecognized Register'')
     else if tok ! 0 \<in> {CHR ''a'', CHR ''f'', CHR ''b'', CHR ''c'', CHR ''d'', CHR ''e'', CHR ''h'', CHR ''l''}
     then Inr (Register (tok ! 0), s')
     else Inl (ParserException ''Unrecognized Register''))"

definition dregister :: "pstate \<Rightarrow> parser_error + BaseNode \<times> pstate" where
  "dregister s = rbind (next_token s) (\<lambda>(tok, s').
     if tok = ''af'' then Inr (DRegister CHR ''a'' CHR ''f'', s')
     else if tok = ''bc'' then Inr (DRegister CHR ''b'' CHR ''c'', s')
     else if tok = ''de'' then Inr (DRegister CHR ''d'' CHR ''e'', s')
     else if tok = ''hl'' then Inr (DRegister CHR ''h'' CHR ''l'', s')
     else if tok = ''sp'' then Inr (DRegister CHR ''s'' CHR ''p'', s')
     else if tok = ''pc'' then Inr (DRegister CHR ''p'' CHR ''c'', s')
     else Inl (ParserException ''Unrecognized DRegister''))"

definition operand :: "pstate \<Rightarrow> parser_error + BaseNode \<times> pstate" where
  "operand s =
     (let tok = peek s in
      if isRegister tok then parse_register s
      else if isDRegister tok then dregister s
      else addition s)"

interpretation reg: consuming parse_register
  by unfold_locales (auto simp: parse_register_def result_iff advances_def split: if_splits)

interpretation dreg: consuming dregister
  by unfold_locales (auto simp: dregister_def rbind_Inr_iff dest!: nxt.consumes split: if_splits)

interpretation opd: consuming operand
  by unfold_locales
    (auto simp: operand_def Let_def split: if_splits dest: reg.consumes dreg.consumes add.consumes)

section \<open>Lines\<close>

function operands_loop :: "BaseNode list \<Rightarrow> pstate \<Rightarrow> parser_error + BaseNode list \<times> pstate" where
  "operands_loop operands s =
     (if \<not> isNewline (peek s) \<and> length operands < 3 then
        (if isComma (peek s) then
           rbind (next_token s) (\<lambda>(_, s1). operands_loop operands s1)
         else
           rbind (operand s) (\<lambda>(n, s1). operands_loop (operands @ [n]) s1))
      else Inr (operands, s))"
  by pat_completeness auto
termination
  by (relation "measure (\<lambda>(operands, s). remaining s)")
    (auto dest!: nxt.consumes_less opd.consumes_less)

declare operands_loop.simps [simp del]

definition make_instruction :: "Token \<Rightarrow> BaseNode list \<Rightarrow> parser_error + BaseNode" where
  "make_instruction inst operands =
     (case findInstruction inst of
        None \<Rightarrow> Inl (ParserException ''Unrecognized instruction'')
      | Some props \<Rightarrow>
          if length operands = i_args1 props \<or> length operands = i_args2 props then
            (case operands of
               [] \<Rightarrow> Inr (Instruction0 (i_type props))
             | [a] \<Rightarrow> Inr (Instruction1 (i_type props) a)
             | [a, b] \<Rightarrow> Inr (Instruction2 (i_type props) a b)
             | _ \<Rightarrow> Inl (ParserException ''Invalid number of args for instruction''))
          else Inl (ParserException ''Invalid number of args for instruction''))"

definition instruction :: "pstate \<Rightarrow> parser_error + BaseNode \<times> pstate" where
  "instruction s = rbind (next_token s) (\<lambda>(inst, s1).
     rbind (operands_loop [] s1) (\<lambda>(operands, s2).
       rbind (make_instruction inst operands) (\<lambda>n. Inr (n, s2))))"

definition findDirective :: "Token \<Rightarrow> parser_error + DirectiveProps" where
  "findDirective tok =
     (case List.find (\<lambda>p. d_lexeme p = tok) directives of
        None \<Rightarrow> Inl (ParserException ''Invalid directive in program'')
      | Some props \<Rightarrow> Inr props)"

fun directive_loop :: "nat \<Rightarrow> TokenList \<Rightarrow> pstate \<Rightarrow> parser_error + TokenList \<times> pstate" where
  "directive_loop 0 operands s = Inr (operands, s)"
| "directive_loop (Suc k) operands s =
     (if isNewline (peek s) then Inl (ParserException ''Expected more arguments in directive'')
      else rbind (next_token s) (\<lambda>(t, s1). directive_loop k (operands @ [t]) s1))"

definition directive :: "pstate \<Rightarrow> parser_error + BaseNode \<times> pstate" where
  "directive s = rbind (next_token s) (\<lambda>(t, s1).
     rbind (findDirective t) (\<lambda>props.
       rbind (directive_loop (d_args props) [] s1) (\<lambda>(operands, s2).
         Inr (Directive (d_type props) operands, s2))))"

definition line :: "pstate \<Rightarrow> parser_error + BaseNode \<times> pstate" where
  "line s =
     (let tok = peek s in
      if isDirective tok then directive s
      else rbind (if isLabel tok then rbind (peekNext s) (\<lambda>t. Inr (t = '':'')) else Inr False)
        (\<lambda>is_label. if is_label then label s
          else if isInstruction tok then instruction s
          else Inl (ParserException ''Invalid token in program'')))"

lemma operands_loop_keeps: "operands_loop ops s = Inr (ns, s') \<Longrightarrow> s' = s \<or> advances s s'"
proof (induction ops s arbitrary: ns s' rule: operands_loop.induct)
  case (1 ops s)
  consider (stop) "s' = s"
    | (comma) t s1 where "next_token s = Inr (t, s1)" "s' = s1 \<or> advances s1 s'"
    | (opd) n s1 where "operand s = Inr (n, s1)" "s' = s1 \<or> advances s1 s'"
    using "1.prems" "1.IH" unfolding operands_loop.simps [of ops s]
    by (auto simp: rbind_Inr_iff split: if_splits)
  then show ?case
    by cases (auto dest!: nxt.consumes opd.consumes intro: advances_trans)
qed

lemma directive_loop_keeps: "directive_loop k ops s = Inr (ns, s') \<Longrightarrow> s' = s \<or> advances s s'"
proof (induction k ops s arbitrary: ns s' rule: directive_loop.induct)
  case (2 k ops s)
  then obtain t s1 where "next_token s = Inr (t, s1)" "s' = s1 \<or> advances s1 s'"
    by (auto simp: rbind_Inr_iff split: if_splits)
  then show ?case by (auto dest!: nxt.consumes intro: advances_trans)
qed simp

interpretation ins: consuming instruction
  by unfold_locales
    (auto simp: instruction_def rbind_Inr_iff dest!: nxt.consumes operands_loop_keeps
      intro: advances_trans)

interpretation dir: consuming directive
  by unfold_locales
    (auto simp: directive_def rbind_Inr_iff dest!: nxt.consumes directive_loop_keeps
      intro: advances_trans)

interpretation lin: consuming line
  by unfold_locales
    (auto simp: line_def Let_def rbind_Inr_iff split: if_splits
      dest: lbl.consumes ins.consumes dir.consumes)

section \<open>The program\<close>

function program_loop :: "BaseNode list \<Rightarrow> pstate \<Rightarrow> parser_error + BaseNode list \<times> pstate" where
  "program_loop lines s =
     (if \<not> isEof (peek s) then
        (if isNewline (peek s) then
           rbind (next_token s) (\<lambda>(_, s1). program_loop lines s1)
         else
           rbind (line s) (\<lambda>(n, s1). program_loop (lines @ [n]) s1))
      else Inr (lines, s))"
  by pat_completeness auto
termination
  by (relation "measure (\<lambda>(lines, s). remaining s)")
    (auto dest!: nxt.consumes_less lin.consumes_less)

declare program_loop.simps [simp del]

definition program :: "pstate \<Rightarrow> parser_error + BaseNode \<times> pstate" where
  "program s = rbind (program_loop [] s) (\<lambda>(lines, s'). Inr (Root lines, s'))"

definition parse :: "TokenList \<Rightarrow> parser_error + BaseNode" where
  "parse tokens = rbind (program (Parser tokens)) (\<lambda>(root, _). Inr root)"

end
