(* ===== verification/Grammar.thy ===== *)
theory Grammar
  imports Parser
begin

text \<open>
  What the parser promises: the grammar in the comment above \<open>class Parser\<close> in
  \<open>include/parser.hpp\<close>, as inductive relations between token lists and trees, with the
  places where the code departs from it written out. The parser accepts exactly this
  grammar (\<open>parse_iff_grammar\<close> at the end), and each level of it is an equivalence between a
  member function and a relation.
\<close>

section \<open>Reading tokens\<close>

text \<open>\<open>reads s ts s'\<close>: between the cursors of \<open>s\<close> and \<open>s'\<close> lie the tokens \<open>ts\<close>.\<close>

definition rest :: "pstate \<Rightarrow> TokenList" where
  "rest s = drop (mPos s) (mTokens s)"

definition reads :: "pstate \<Rightarrow> TokenList \<Rightarrow> pstate \<Rightarrow> bool" where
  "reads s ts s' \<longleftrightarrow> s' = s\<lparr>mPos := mPos s + length ts\<rparr> \<and> (\<exists>us. rest s = ts @ us)"

lemma reads_Nil [simp]: "reads s [] s' \<longleftrightarrow> s' = s"
  by (auto simp: reads_def)

lemma rest_advance: "rest s = ts @ us \<Longrightarrow> rest (s\<lparr>mPos := mPos s + length ts\<rparr>) = us"
proof -
  assume "rest s = ts @ us"
  then have "drop (length ts) (rest s) = us" by simp
  then show ?thesis by (simp add: rest_def add.commute)
qed

lemma reads_rest: "reads s ts s' \<Longrightarrow> rest s = ts @ rest s'"
  by (auto simp: reads_def rest_advance)

lemma reads_intro: "rest s = ts @ us \<Longrightarrow> reads s ts (s\<lparr>mPos := mPos s + length ts\<rparr>)"
  by (auto simp: reads_def)

lemma reads_append: "reads s (ts @ us) s' \<longleftrightarrow> (\<exists>s1. reads s ts s1 \<and> reads s1 us s')"
proof
  assume r: "reads s (ts @ us) s'"
  then obtain vs where rs: "rest s = ts @ us @ vs" and s': "s' = s\<lparr>mPos := mPos s + length (ts @ us)\<rparr>"
    by (auto simp: reads_def)
  let ?s1 = "s\<lparr>mPos := mPos s + length ts\<rparr>"
  have "reads s ts ?s1" using rs by (rule reads_intro)
  moreover have "reads ?s1 us s'"
    using rest_advance [OF rs] s' by (auto simp: reads_def add.assoc)
  ultimately show "\<exists>s1. reads s ts s1 \<and> reads s1 us s'" by blast
next
  assume "\<exists>s1. reads s ts s1 \<and> reads s1 us s'"
  then obtain s1 where "reads s ts s1" "reads s1 us s'" by blast
  then have "rest s = ts @ us @ rest s'" by (simp add: reads_rest)
  with \<open>reads s ts s1\<close> \<open>reads s1 us s'\<close> show "reads s (ts @ us) s'"
    by (auto simp: reads_def add.assoc)
qed

lemma next_token_reads: "next_token s = Inr (t, s') \<longleftrightarrow> reads s [t] s'"
proof
  assume "next_token s = Inr (t, s')"
  then show "reads s [t] s'"
    by (auto simp: result_iff reads_def rest_def drop_eq_Cons_nth)
next
  assume r: "reads s [t] s'"
  then obtain us where us: "drop (mPos s) (mTokens s) = t # us" by (auto simp: reads_def rest_def)
  then have "mPos s < length (mTokens s)" by (metis drop_all list.distinct(1) not_le)
  with us r show "next_token s = Inr (t, s')"
    by (auto simp: result_iff reads_def drop_eq_Cons_nth)
qed

lemma reads_Cons: "reads s (t # ts) s' \<longleftrightarrow> (\<exists>s1. next_token s = Inr (t, s1) \<and> reads s1 ts s')"
  using reads_append [of s "[t]" ts s'] by (simp add: next_token_reads)

lemma reads_snoc: "reads s (ts @ [t]) s' \<longleftrightarrow> (\<exists>s1. reads s ts s1 \<and> next_token s1 = Inr (t, s'))"
  using reads_append [of s ts "[t]" s'] by (simp add: next_token_reads)

lemma peek_rest: "peek s = (case rest s of [] \<Rightarrow> '' '' | t # _ \<Rightarrow> t)"
  by (auto simp: peek_def rest_def drop_eq_Cons_nth split: list.split)

lemma reads_peek: "reads s (t # ts) s' \<Longrightarrow> peek s = t"
  by (auto dest!: reads_rest simp: peek_rest)

lemma peek_next_token: "peek s = t \<Longrightarrow> t \<noteq> '' '' \<Longrightarrow> \<exists>s'. next_token s = Inr (t, s')"
  by (auto simp: result_iff peek_def split: if_splits)

lemma reads_Parser: "reads (Parser ts) us s' \<Longrightarrow> \<exists>vs. ts = us @ vs"
  by (auto simp: reads_def rest_def Parser_def)

lemma reads_tokens: "reads s ts s' \<Longrightarrow> mTokens s' = mTokens s"
  by (auto simp: reads_def)

section \<open>Expressions\<close>

inductive g_primary :: "TokenList \<Rightarrow> BaseNode \<Rightarrow> bool" where
  g_label: "isLabel t \<Longrightarrow> g_primary [t] (Label t)"
| g_number: "isNumber t \<Longrightarrow> parseNumber t = Inr n \<Longrightarrow> g_primary [t] n"

inductive g_unary :: "TokenList \<Rightarrow> BaseNode \<Rightarrow> bool" where
  g_prim: "g_primary ts n \<Longrightarrow> g_unary ts n"
| g_neg: "t \<noteq> [] \<Longrightarrow> t ! 0 = CHR ''-'' \<Longrightarrow> g_unary ts n \<Longrightarrow> g_unary (t # ts) (UnaryOp UO_NEG n)"

text \<open>\<open>operand ( op operand )*\<close>, grouped to the left.\<close>

inductive g_chain :: "(Token \<Rightarrow> bool) \<Rightarrow> (Token \<Rightarrow> BinaryOpType) \<Rightarrow> (TokenList \<Rightarrow> BaseNode \<Rightarrow> bool) \<Rightarrow>
    TokenList \<Rightarrow> BaseNode \<Rightarrow> bool" for isop mk G where
  g_one: "G ts n \<Longrightarrow> g_chain isop mk G ts n"
| g_more: "g_chain isop mk G ts l \<Longrightarrow> isop t \<Longrightarrow> G us r \<Longrightarrow>
     g_chain isop mk G (ts @ t # us) (BinaryOp (mk t) l r)"

abbreviation g_multiplication :: "TokenList \<Rightarrow> BaseNode \<Rightarrow> bool" where
  "g_multiplication \<equiv> g_chain isMultiplication mul_op g_unary"

abbreviation g_addition :: "TokenList \<Rightarrow> BaseNode \<Rightarrow> bool" where
  "g_addition \<equiv> g_chain isAddition add_op g_multiplication"

lemma isNumber_not_label: "isNumber t \<Longrightarrow> \<not> isLabel t"
  by (cases t) (auto simp: isNumber_def isLabel_def)

lemma isLabel_no_minus: "isLabel t \<Longrightarrow> t \<noteq> [] \<and> t ! 0 \<noteq> CHR ''-''"
  by (cases t) (auto simp: isLabel_def split: if_splits)

lemma isNumber_no_minus: "isNumber t \<Longrightarrow> t \<noteq> [] \<and> t ! 0 \<noteq> CHR ''-''"
  by (cases t) (auto simp: isNumber_def)

lemma label_number_nonblank [simp]: "\<not> isLabel '' ''" "\<not> isNumber '' ''"
  by (simp_all add: isLabel_def isNumber_def)

lemma primary_iff: "primary s = Inr (n, s') \<longleftrightarrow> (\<exists>ts. reads s ts s' \<and> g_primary ts n)"
proof
  assume "primary s = Inr (n, s')"
  then consider (l) "isLabel (peek s)" "label s = Inr (n, s')"
    | (n) "\<not> isLabel (peek s)" "isNumber (peek s)" "number s = Inr (n, s')"
    by (auto simp: primary_def Let_def split: if_splits)
  then show "\<exists>ts. reads s ts s' \<and> g_primary ts n"
  proof cases
    case l
    then obtain t where t: "next_token s = Inr (t, s')" "n = Label t"
      by (auto simp: label_def parseLabel_def rbind_Inr_iff)
    with l next_token_peek [OF t(1)] show ?thesis
      by (auto simp: next_token_reads intro: g_label)
  next
    case n
    then obtain t where t: "next_token s = Inr (t, s')" "parseNumber t = Inr n"
      by (auto simp: number_def rbind_Inr_iff)
    with n next_token_peek [OF t(1)] show ?thesis
      by (auto simp: next_token_reads intro: g_number)
  qed
next
  assume "\<exists>ts. reads s ts s' \<and> g_primary ts n"
  then obtain ts where r: "reads s ts s'" and g: "g_primary ts n" by blast
  from g r show "primary s = Inr (n, s')"
    by (cases rule: g_primary.cases)
      (auto simp: primary_def label_def parseLabel_def number_def Let_def isNumber_not_label
        next_token_reads [symmetric] dest: next_token_peek)
qed

lemma unary_iff: "unary s = Inr (n, s') \<longleftrightarrow> (\<exists>ts. reads s ts s' \<and> g_unary ts n)"
proof
  assume "unary s = Inr (n, s')"
  then show "\<exists>ts. reads s ts s' \<and> g_unary ts n"
  proof (induction s arbitrary: n s' rule: unary.induct)
    case (1 s)
    consider (neg) t s1 m where "peek s \<noteq> []" "peek s ! 0 = CHR ''-''"
        "next_token s = Inr (t, s1)" "unary s1 = Inr (m, s')" "n = UnaryOp UO_NEG m"
      | (prim) "primary s = Inr (n, s')"
      using "1.prems" unfolding unary.simps [of s]
      by (auto simp: rbind_Inr_iff split: if_splits prod.splits)
    then show ?case
    proof cases
      case neg
      then obtain ts where "reads s1 ts s'" "g_unary ts m"
        using "1.IH" [of "(t, s1)" t s1 m s'] by auto
      with neg next_token_peek [OF neg(3)] show ?thesis
        by (intro exI [of _ "t # ts"]) (auto simp: reads_Cons intro: g_neg)
    next
      case prim
      then show ?thesis by (auto simp: primary_iff intro: g_prim)
    qed
  qed
next
  assume "\<exists>ts. reads s ts s' \<and> g_unary ts n"
  then obtain ts where r: "reads s ts s'" and g: "g_unary ts n" by blast
  from g r show "unary s = Inr (n, s')"
  proof (induction arbitrary: s rule: g_unary.induct)
    case (g_prim ts n)
    then have p: "primary s = Inr (n, s')" by (auto simp: primary_iff)
    from g_prim(1) obtain t where "ts = [t]" "t \<noteq> [] \<and> t ! 0 \<noteq> CHR ''-''"
      by (cases rule: g_primary.cases) (auto dest: isLabel_no_minus isNumber_no_minus)
    with g_prim(2) have "peek s \<noteq> []" "peek s ! 0 \<noteq> CHR ''-''"
      using reads_peek by blast+
    with p show ?case unfolding unary.simps [of s] by simp
  next
    case (g_neg t ts n)
    from g_neg.prems have "peek s = t" by (rule reads_peek)
    with g_neg show ?case
      unfolding unary.simps [of s] by (auto simp: reads_Cons)
  qed
qed

section \<open>Chains of binary operators\<close>

text \<open>
  If the operand parser accepts \<open>G\<close> wherever the token after it satisfies \<open>stop\<close>, the
  loop over it accepts the chains of \<open>G\<close> that no operator follows.
\<close>

locale chain_grammar = left_assoc sub isop mk loop
  for sub :: "pstate \<Rightarrow> parser_error + BaseNode \<times> pstate" and isop mk loop +
  fixes G :: "TokenList \<Rightarrow> BaseNode \<Rightarrow> bool" and stop :: "Token \<Rightarrow> bool"
  assumes sub_iff: "sub s = Inr (n, s') \<longleftrightarrow> (\<exists>ts. reads s ts s' \<and> G ts n \<and> stop (peek s'))"
    and isop_stop: "isop t \<Longrightarrow> stop t"
begin

lemma loop_sound:
  assumes "loop left s = Inr (n, s')" and "reads s0 ts s" and "g_chain isop mk G ts left" and "stop (peek s)"
  shows "\<exists>us. reads s0 us s' \<and> g_chain isop mk G us n \<and> stop (peek s')"
  using assms
proof (induction arbitrary: ts rule: loop_induct)
  case (stop left s)
  then show ?case by blast
next
  case (step left s s1 right s2 n s')
  from step.hyps(3) obtain us where us: "reads s1 us s2" "G us right" "stop (peek s2)"
    by (auto simp: sub_iff)
  with step have "reads s0 (ts @ peek s # us) s2"
    by (auto simp: reads_append reads_Cons)
  with us step show ?case by (blast intro: g_more)
qed

lemma chain_complete:
  assumes "g_chain isop mk G ts n" and "reads s ts s'" and "stop (peek s')"
  shows "rbind (sub s) (\<lambda>(left, s1). loop left s1) = loop n s'"
  using assms
proof (induction arbitrary: s' rule: g_chain.induct)
  case (g_one ts n)
  then have "sub s = Inr (n, s')" by (auto simp: sub_iff)
  then show ?case by simp
next
  case (g_more ts l t us r)
  from g_more.prems obtain s0 s1 where r: "reads s ts s0" "next_token s0 = Inr (t, s1)" "reads s1 us s'"
    by (auto simp: reads_append reads_Cons)
  have t: "peek s0 = t" using next_token_peek [OF r(2)] by simp
  have "sub s1 = Inr (r, s')" using r g_more by (auto simp: sub_iff)
  with r t g_more.hyps have "loop l s0 = loop (BinaryOp (mk t) l r) s'"
    by (simp add: loop_step)
  moreover have "rbind (sub s) (\<lambda>(left, s1). loop left s1) = loop l s0"
    using g_more.IH [OF r(1)] t g_more.hyps isop_stop by blast
  ultimately show ?case by simp
qed

lemma chain_iff:
  "rbind (sub s) (\<lambda>(left, s1). loop left s1) = Inr (n, s') \<longleftrightarrow>
   (\<exists>ts. reads s ts s' \<and> g_chain isop mk G ts n \<and> stop (peek s') \<and> \<not> isop (peek s'))"
proof
  assume "rbind (sub s) (\<lambda>(left, s1). loop left s1) = Inr (n, s')"
  then obtain left s1 where sub: "sub s = Inr (left, s1)" and loop: "loop left s1 = Inr (n, s')"
    by (auto simp: rbind_Inr_iff)
  from sub obtain ts where "reads s ts s1" "G ts left" "stop (peek s1)" by (auto simp: sub_iff)
  with loop_sound [OF loop] loop_greedy [OF loop]
  show "\<exists>ts. reads s ts s' \<and> g_chain isop mk G ts n \<and> stop (peek s') \<and> \<not> isop (peek s')"
    by (blast intro: g_one)
next
  assume "\<exists>ts. reads s ts s' \<and> g_chain isop mk G ts n \<and> stop (peek s') \<and> \<not> isop (peek s')"
  then obtain ts where g: "g_chain isop mk G ts n" "reads s ts s'" "stop (peek s')" and no: "\<not> isop (peek s')"
    by blast
  show "rbind (sub s) (\<lambda>(left, s1). loop left s1) = Inr (n, s')"
    using chain_complete [OF g] loop_stop [OF no] by simp
qed

end

interpretation gmul: chain_grammar unary isMultiplication mul_op multiplication_loop g_unary "\<lambda>_. True"
  by unfold_locales (simp_all add: unary_iff)

lemma multiplication_iff:
  "multiplication s = Inr (n, s') \<longleftrightarrow>
   (\<exists>ts. reads s ts s' \<and> g_multiplication ts n \<and> \<not> isMultiplication (peek s'))"
  unfolding multiplication_def by (simp add: gmul.chain_iff)

interpretation gadd: chain_grammar multiplication isAddition add_op addition_loop g_multiplication
    "\<lambda>t. \<not> isMultiplication t"
  by unfold_locales (auto simp: multiplication_iff isAddition_def isMultiplication_def)

definition ends_expr :: "Token \<Rightarrow> bool" where
  "ends_expr t \<longleftrightarrow> \<not> isAddition t \<and> \<not> isMultiplication t"

lemma addition_iff:
  "addition s = Inr (n, s') \<longleftrightarrow> (\<exists>ts. reads s ts s' \<and> g_addition ts n \<and> ends_expr (peek s'))"
  unfolding addition_def ends_expr_def by (auto simp: gadd.chain_iff)

section \<open>Operands\<close>

inductive g_operand :: "TokenList \<Rightarrow> BaseNode \<Rightarrow> bool" where
  g_register: "isRegister t \<Longrightarrow> g_operand [t] (Register (t ! 0))"
| g_dregister: "isDRegister t \<Longrightarrow> g_operand [t] (DRegister (t ! 0) (t ! 1))"
| g_expr: "g_addition (t # ts) n \<Longrightarrow> \<not> isRegister t \<Longrightarrow> \<not> isDRegister t \<Longrightarrow> g_operand (t # ts) n"

text \<open>A register is complete as it is; an expression goes on while operators follow.\<close>

definition is_reg_tok :: "TokenList \<Rightarrow> bool" where
  "is_reg_tok ts \<longleftrightarrow> ts \<noteq> [] \<and> (isRegister (hd ts) \<or> isDRegister (hd ts))"

definition operand_ends :: "TokenList \<Rightarrow> Token \<Rightarrow> bool" where
  "operand_ends ts t \<longleftrightarrow> is_reg_tok ts \<or> ends_expr t"

lemma g_chain_nonempty:
  "g_chain isop mk G ts n \<Longrightarrow> (\<And>us m. G us m \<Longrightarrow> us \<noteq> []) \<Longrightarrow> ts \<noteq> []"
  by (induction rule: g_chain.induct) auto

lemma g_unary_nonempty: "g_unary ts n \<Longrightarrow> ts \<noteq> []"
  by (induction rule: g_unary.induct) (auto elim: g_primary.cases)

lemma g_addition_nonempty: "g_addition ts n \<Longrightarrow> ts \<noteq> []"
  by (metis g_chain_nonempty g_unary_nonempty)

lemma g_operand_nonempty: "g_operand ts n \<Longrightarrow> ts \<noteq> []"
  by (auto elim: g_operand.cases)

lemma isRegister_iff: "isRegister t \<longleftrightarrow> t \<in> set registers"
  by (simp add: isRegister_def)

lemma isDRegister_iff: "isDRegister t \<longleftrightarrow> t \<in> set doubleRegisters"
  by (simp add: isDRegister_def)

lemma next_token_at_peek: "next_token s = Inr (t, s') \<longleftrightarrow> t = peek s \<and> reads s [peek s] s'"
  by (auto simp: next_token_reads dest: reads_peek)

lemma parse_register_reads:
  assumes "isRegister (peek s)"
  shows "parse_register s = Inr (n, s') \<longleftrightarrow> reads s [peek s] s' \<and> n = Register (peek s ! 0)"
proof -
  have "length (peek s) = 1 \<and> peek s ! 0 \<in> {CHR ''a'', CHR ''f'', CHR ''b'', CHR ''c'', CHR ''d'', CHR ''e'', CHR ''h'', CHR ''l''}"
    using assms unfolding isRegister_iff registers_def by auto
  then show ?thesis
    by (auto simp: parse_register_def rbind_Inr_iff next_token_at_peek simp del: insert_iff)
qed

lemma dregister_reads:
  assumes "isDRegister (peek s)"
  shows "dregister s = Inr (n, s') \<longleftrightarrow> reads s [peek s] s' \<and> n = DRegister (peek s ! 0) (peek s ! 1)"
proof -
  consider "peek s = ''af''" | "peek s = ''bc''" | "peek s = ''de''" | "peek s = ''hl''"
    | "peek s = ''sp''" | "peek s = ''pc''"
    using assms unfolding isDRegister_iff doubleRegisters_def by auto
  then show ?thesis
    by cases (auto simp: dregister_def rbind_Inr_iff next_token_at_peek)
qed

lemma register_not_dregister: "isRegister t \<Longrightarrow> \<not> isDRegister t"
  by (auto simp: isRegister_iff isDRegister_iff registers_def doubleRegisters_def)

lemma operand_register_iff:
  assumes "isRegister (peek s) \<or> isDRegister (peek s)"
  shows "operand s = Inr (n, s') \<longleftrightarrow> reads s [peek s] s' \<and> g_operand [peek s] n"
proof -
  have "\<not> (\<exists>t ts. [peek s] = t # ts \<and> \<not> isRegister t \<and> \<not> isDRegister t)" using assms by auto
  then have "g_operand [peek s] n \<longleftrightarrow> n = (if isRegister (peek s) then Register (peek s ! 0)
      else DRegister (peek s ! 0) (peek s ! 1))"
    using assms register_not_dregister
    by (auto elim!: g_operand.cases intro: g_register g_dregister [unfolded One_nat_def])
  then show ?thesis
    using assms by (auto simp: operand_def Let_def parse_register_reads dregister_reads)
qed

lemma operand_expr_iff:
  assumes "\<not> isRegister (peek s)" and "\<not> isDRegister (peek s)"
  shows "operand s = Inr (n, s') \<longleftrightarrow> (\<exists>ts. reads s ts s' \<and> g_addition ts n \<and> ends_expr (peek s'))"
  using assms by (simp add: operand_def addition_iff)

text \<open>A register operand is one token; any other operand is an expression.\<close>

lemma g_operand_split:
  "g_operand ts n \<longleftrightarrow> (if is_reg_tok ts then length ts = 1 \<and> g_operand [hd ts] n else g_addition ts n)"
proof
  assume "g_operand ts n"
  then show "if is_reg_tok ts then length ts = 1 \<and> g_operand [hd ts] n else g_addition ts n"
    by cases (auto simp: is_reg_tok_def intro: g_register g_dregister [unfolded One_nat_def])
next
  assume r: "if is_reg_tok ts then length ts = 1 \<and> g_operand [hd ts] n else g_addition ts n"
  show "g_operand ts n"
  proof (cases "is_reg_tok ts")
    case True
    with r show ?thesis by (cases ts) auto
  next
    case False
    with r have "g_addition ts n" by simp
    moreover from g_addition_nonempty [OF this] obtain t us where "ts = t # us" by (cases ts) auto
    ultimately show ?thesis using False by (auto simp: is_reg_tok_def intro: g_expr)
  qed
qed

lemma reads_is_reg_tok:
  "reads s ts s' \<Longrightarrow> ts \<noteq> [] \<Longrightarrow> is_reg_tok ts \<longleftrightarrow> isRegister (peek s) \<or> isDRegister (peek s)"
  by (cases ts) (auto simp: is_reg_tok_def dest: reads_peek)

lemma operand_iff:
  "operand s = Inr (n, s') \<longleftrightarrow>
   (\<exists>ts. reads s ts s' \<and> g_operand ts n \<and> operand_ends ts (peek s'))"
proof (cases "isRegister (peek s) \<or> isDRegister (peek s)")
  case True
  have "ts = [peek s]" if "reads s ts s'" "g_operand ts n" for ts
  proof -
    have "is_reg_tok ts" using reads_is_reg_tok [OF that(1) g_operand_nonempty [OF that(2)]] True by simp
    with that(2) obtain t where "ts = [t]"
      using g_operand_split [of ts n] by (auto simp: length_Suc_conv)
    with that(1) show ?thesis by (auto dest: reads_peek)
  qed
  moreover have "operand_ends [peek s] t" for t using True by (simp add: operand_ends_def is_reg_tok_def)
  ultimately show ?thesis using operand_register_iff [OF True] by blast
next
  case False
  have "g_operand ts n \<and> operand_ends ts t \<longleftrightarrow> g_addition ts n \<and> ends_expr t" if "reads s ts s'" for ts t
  proof (cases "ts = []")
    case True
    then show ?thesis using g_operand_nonempty g_addition_nonempty by blast
  next
    case nonempty: False
    have "\<not> is_reg_tok ts" using reads_is_reg_tok [OF that nonempty] False by simp
    then show ?thesis by (simp add: g_operand_split operand_ends_def)
  qed
  then show ?thesis using operand_expr_iff [of s] False by blast
qed

text \<open>
  The operands of an instruction. The grammar of the comment asks for one comma between
  two operands; the code skips commas wherever they are and asks for none.
\<close>

inductive g_operands :: "TokenList \<Rightarrow> BaseNode list \<Rightarrow> bool" where
  g_no_operand: "g_operands [] []"
| g_comma: "g_operands ts ns \<Longrightarrow> g_operands ('','' # ts) ns"
| g_operand: "g_operand us n \<Longrightarrow> hd us \<noteq> ''EOL'' \<Longrightarrow> operand_ends us (hd (ts @ [''EOL''])) \<Longrightarrow> g_operands ts ns \<Longrightarrow>
     g_operands (us @ ts) (n # ns)"

lemma isRegister_not_special: "isRegister t \<Longrightarrow> t \<noteq> '','' \<and> t \<noteq> ''EOL'' \<and> t \<noteq> ''EOF'' \<and> t \<noteq> '' ''"
  "isDRegister t \<Longrightarrow> t \<noteq> '','' \<and> t \<noteq> ''EOL'' \<and> t \<noteq> ''EOF'' \<and> t \<noteq> '' ''"
  unfolding isRegister_iff isDRegister_iff registers_def doubleRegisters_def by auto

lemma comma_starts_nothing:
  "\<not> isLabel '',''" "\<not> isNumber '',''" "\<not> isRegister '',''" "\<not> isDRegister '',''"
  by (simp_all add: isLabel_def isNumber_def char_class_defs isRegister_iff isDRegister_iff
      registers_def doubleRegisters_def)

lemma g_operand_not_comma: "g_operand ts n \<Longrightarrow> \<not> (\<exists>us. ts = '','' # us)"
proof -
  have prim: "g_primary ts n \<Longrightarrow> hd ts \<noteq> '',''" for ts n
    by (auto elim!: g_primary.cases simp: comma_starts_nothing)
  have una: "g_unary ts n \<Longrightarrow> hd ts \<noteq> '',''" for ts n
    by (induction rule: g_unary.induct) (auto dest: prim)
  have chain: "g_chain isop mk G ts n \<Longrightarrow> (\<And>us m. G us m \<Longrightarrow> us \<noteq> [] \<and> hd us \<noteq> '','') \<Longrightarrow>
      ts \<noteq> [] \<and> hd ts \<noteq> '',''" for isop mk G ts n
    by (induction rule: g_chain.induct) auto
  have add: "g_addition ts n \<Longrightarrow> hd ts \<noteq> '',''" for ts n
    by (metis chain una g_unary_nonempty)
  assume "g_operand ts n"
  then show ?thesis
    by cases (auto simp: comma_starts_nothing dest: add)
qed

lemma operands_loop_cases:
  assumes run: "operands_loop ops s = Inr (res, s')"
  obtains (nl) "isNewline (peek s)" "res = ops" "s' = s"
    | (full) "\<not> length ops < 3" "res = ops"
    | (comma) t s1 where "\<not> isNewline (peek s)" "length ops < 3" "isComma (peek s)"
        "next_token s = Inr (t, s1)" "operands_loop ops s1 = Inr (res, s')"
    | (opd) n s1 where "\<not> isNewline (peek s)" "length ops < 3" "\<not> isComma (peek s)"
        "operand s = Inr (n, s1)" "operands_loop (ops @ [n]) s1 = Inr (res, s')"
proof (cases "\<not> isNewline (peek s) \<and> length ops < 3")
  case False
  with run have "res = ops" "s' = s" unfolding operands_loop.simps [of ops s] by auto
  with False show thesis using nl full by blast
next
  case True
  show thesis
  proof (cases "isComma (peek s)")
    case c: True
    with run True have "rbind (next_token s) (\<lambda>(_, s1). operands_loop ops s1) = Inr (res, s')"
      unfolding operands_loop.simps [of ops s] by simp
    then obtain t s1 where "next_token s = Inr (t, s1)" "operands_loop ops s1 = Inr (res, s')"
      unfolding rbind_Inr_iff by auto
    with True c show thesis using comma by blast
  next
    case c: False
    with run True have "rbind (operand s) (\<lambda>(n, s1). operands_loop (ops @ [n]) s1) = Inr (res, s')"
      unfolding operands_loop.simps [of ops s] by simp
    then obtain n s1 where "operand s = Inr (n, s1)" "operands_loop (ops @ [n]) s1 = Inr (res, s')"
      unfolding rbind_Inr_iff by auto
    with True c show thesis using opd by blast
  qed
qed

lemma operands_loop_sound:
  assumes "operands_loop ops s = Inr (res, s')" and "length res < 3"
  shows "\<exists>ts ns. res = ops @ ns \<and> reads s ts s' \<and> g_operands ts ns \<and> isNewline (peek s')"
  using assms
proof (induction ops s arbitrary: res s' rule: operands_loop.induct)
  case (1 ops s)
  from "1.prems"(1) show ?case
  proof (cases rule: operands_loop_cases)
    case nl
    then show ?thesis by (intro exI [of _ "[]"]) (auto intro: g_no_operand)
  next
    case full
    with "1.prems" show ?thesis by simp
  next
    case (comma t s1)
    then obtain ts ns where "res = ops @ ns" "reads s1 ts s'" "g_operands ts ns" "isNewline (peek s')"
      using "1.IH"(1) [of "(t, s1)" t s1 res s'] "1.prems" by auto
    with comma next_token_peek [OF comma(4)] show ?thesis
      by (intro exI [of _ "'','' # ts"] exI [of _ ns]) (auto simp: reads_Cons isComma_def intro: g_comma)
  next
    case (opd n s1)
    then obtain ts ns where rec: "res = (ops @ [n]) @ ns" "reads s1 ts s'" "g_operands ts ns" "isNewline (peek s')"
      using "1.IH"(2) [of "(n, s1)" n s1 res s'] "1.prems" by auto
    from opd obtain us where us: "reads s us s1" "g_operand us n" "operand_ends us (peek s1)"
      by (auto simp: operand_iff)
    have hd: "hd us \<noteq> ''EOL''"
      using us(1,2) opd(1) by (cases us) (auto dest: reads_peek g_operand_nonempty simp: isNewline_def)
    have "peek s1 = hd (ts @ [''EOL''])"
      using rec(2,4) by (cases ts) (auto dest: reads_peek simp: isNewline_def)
    with us rec hd show ?thesis
      by (intro exI [of _ "us @ ts"] exI [of _ "n # ns"]) (auto simp: reads_append intro: g_operand)
  qed
qed

lemma operands_loop_complete:
  assumes "g_operands ts ns" and "reads s ts s'" and "isNewline (peek s')" and "length (ops @ ns) < 3"
  shows "operands_loop ops s = Inr (ops @ ns, s')"
  using assms
proof (induction arbitrary: s ops rule: g_operands.induct)
  case g_no_operand
  then show ?case unfolding operands_loop.simps [of ops s] by simp
next
  case (g_comma ts ns)
  then have "isComma (peek s)" "\<not> isNewline (peek s)"
    by (auto simp: isComma_def isNewline_def dest: reads_peek)
  with g_comma show ?case
    unfolding operands_loop.simps [of ops s] by (auto simp: reads_Cons)
next
  case (g_operand us n ts ns)
  from g_operand.prems obtain s1 where r: "reads s us s1" "reads s1 ts s'"
    by (auto simp: reads_append)
  obtain t vs where us: "us = t # vs"
    using g_operand_nonempty [OF g_operand.hyps(1)] by (cases us) auto
  have t: "peek s = t" using r(1) us by (auto dest: reads_peek)
  have nl: "\<not> isNewline (peek s)" "\<not> isComma (peek s)"
    using t us g_operand.hyps g_operand_not_comma [OF g_operand.hyps(1)]
    by (auto simp: isNewline_def isComma_def)
  have "peek s1 = hd (ts @ [''EOL''])"
    using r(2) g_operand.prems(2) by (cases ts) (auto dest: reads_peek simp: isNewline_def)
  with g_operand.hyps r have "operand s = Inr (n, s1)" by (auto simp: operand_iff)
  moreover have "operands_loop (ops @ [n]) s1 = Inr ((ops @ [n]) @ ns, s')"
    using g_operand.IH [OF r(2)] g_operand.prems by simp
  ultimately show ?case
    using nl g_operand.prems unfolding operands_loop.simps [of ops s] by simp
qed

section \<open>Lines\<close>

inductive g_instruction :: "TokenList \<Rightarrow> BaseNode \<Rightarrow> bool" where
  g_instr: "make_instruction t ns = Inr n \<Longrightarrow> g_operands ts ns \<Longrightarrow> g_instruction (t # ts) n"

lemma make_instruction_length: "make_instruction t ns = Inr n \<Longrightarrow> length ns < 3"
  by (auto simp: make_instruction_def split: option.splits list.splits if_splits)

lemma make_instruction_known: "make_instruction t ns = Inr n \<Longrightarrow> isInstruction t"
  by (auto simp: make_instruction_def isInstruction_def split: option.splits)

lemma instruction_iff:
  "instruction s = Inr (n, s') \<longleftrightarrow> (\<exists>ts. reads s ts s' \<and> g_instruction ts n \<and> isNewline (peek s'))"
proof
  assume "instruction s = Inr (n, s')"
  then obtain t s1 ns where t: "next_token s = Inr (t, s1)" and ops: "operands_loop [] s1 = Inr (ns, s')"
    and mk: "make_instruction t ns = Inr n"
    by (auto simp: instruction_def rbind_Inr_iff)
  from operands_loop_sound [OF ops make_instruction_length [OF mk]]
  obtain ts where "reads s1 ts s'" "g_operands ts ns" "isNewline (peek s')" by auto
  with t mk show "\<exists>ts. reads s ts s' \<and> g_instruction ts n \<and> isNewline (peek s')"
    by (intro exI [of _ "t # ts"]) (auto simp: reads_Cons intro: g_instr)
next
  assume "\<exists>ts. reads s ts s' \<and> g_instruction ts n \<and> isNewline (peek s')"
  then obtain t ts ns where r: "reads s (t # ts) s'" and mk: "make_instruction t ns = Inr n"
    and g: "g_operands ts ns" and nl: "isNewline (peek s')"
    by (auto elim: g_instruction.cases)
  from r obtain s1 where s1: "next_token s = Inr (t, s1)" "reads s1 ts s'" by (auto simp: reads_Cons)
  have "operands_loop [] s1 = Inr (ns, s')"
    using operands_loop_complete [OF g s1(2) nl, of "[]"] make_instruction_length [OF mk] by simp
  with s1 mk show "instruction s = Inr (n, s')" by (simp add: instruction_def)
qed

lemma findDirective_Inr: "findDirective t = Inr props \<longleftrightarrow>
    t = ''.section'' \<and> props = \<lparr>d_lexeme = ''.section'', d_type = DT_SECTION, d_args = 1\<rparr>"
  by (auto simp: findDirective_def directives_def)

lemma directive_iff:
  "directive s = Inr (n, s') \<longleftrightarrow>
   (\<exists>arg. reads s [''.section'', arg] s' \<and> arg \<noteq> ''EOL'' \<and> n = Directive DT_SECTION [arg])"
proof
  assume "directive s = Inr (n, s')"
  then obtain s1 arg where "next_token s = Inr (''.section'', s1)" "\<not> isNewline (peek s1)"
    "next_token s1 = Inr (arg, s')" "n = Directive DT_SECTION [arg]"
    by (auto simp: directive_def rbind_Inr_iff findDirective_Inr split: if_splits)
  then show "\<exists>arg. reads s [''.section'', arg] s' \<and> arg \<noteq> ''EOL'' \<and> n = Directive DT_SECTION [arg]"
    using next_token_peek by (force simp: reads_Cons isNewline_def)
next
  assume "\<exists>arg. reads s [''.section'', arg] s' \<and> arg \<noteq> ''EOL'' \<and> n = Directive DT_SECTION [arg]"
  then obtain s1 arg where "next_token s = Inr (''.section'', s1)" "next_token s1 = Inr (arg, s')"
    "arg \<noteq> ''EOL''" "n = Directive DT_SECTION [arg]"
    by (auto simp: reads_Cons)
  moreover from this have "\<not> isNewline (peek s1)"
    using next_token_peek by (force simp: isNewline_def)
  moreover have "findDirective ''.section'' = Inr \<lparr>d_lexeme = ''.section'', d_type = DT_SECTION, d_args = 1\<rparr>"
    by (simp add: findDirective_Inr)
  ultimately show "directive s = Inr (n, s')"
    by (simp add: directive_def)
qed

lemma isInstruction_iff: "isInstruction t \<longleftrightarrow> t \<in> set (map i_lexeme instructions)"
  by (auto simp: isInstruction_def findInstruction_def find_None_iff)

lemma instructions_lexemes:
  "list_all (\<lambda>p. \<not> isDirective (i_lexeme p) \<and> i_lexeme p \<noteq> ''EOF'' \<and> i_lexeme p \<noteq> ''EOL'' \<and>
     i_lexeme p \<noteq> '' '' \<and> i_lexeme p \<noteq> '':'') instructions"
  by code_simp

lemma isInstruction_facts:
  "isInstruction t \<Longrightarrow> \<not> isDirective t \<and> \<not> isEof t \<and> \<not> isNewline t \<and> t \<noteq> '' '' \<and> t \<noteq> '':''"
  using instructions_lexemes by (auto simp: isInstruction_iff list_all_iff isEof_def isNewline_def)

lemma isInstruction_not_label: "isInstruction t \<Longrightarrow> \<not> isLabel t"
  by (simp add: isLabel_def)

lemma section_isDirective [simp]: "isDirective ''.section''"
  by (simp add: isDirective_def char_class_defs)

lemma line_cases:
  assumes "line s = Inr (n, s')"
  obtains (dir) arg where "reads s [''.section'', arg] s'" "arg \<noteq> ''EOL''" "n = Directive DT_SECTION [arg]"
  | (lab) "label s = Inr (n, s')" "peek s' = '':''"
  | (ins) "instruction s = Inr (n, s')"
proof (cases "isDirective (peek s)")
  case True
  with assms have "directive s = Inr (n, s')" by (simp add: line_def)
  then show thesis using dir by (auto simp: directive_iff)
next
  case False
  with assms obtain is_label where
    test: "(if isLabel (peek s) then rbind (peekNext s) (\<lambda>t. Inr (t = '':'')) else Inr False) = Inr is_label"
    and body: "(if is_label then label s else if isInstruction (peek s) then instruction s
        else Inl (ParserException ''Invalid token in program'')) = Inr (n, s')"
    by (auto simp: line_def Let_def rbind_Inr_iff)
  show thesis
  proof (cases is_label)
    case True
    with test have "peekNext s = Inr '':''" by (auto simp: rbind_Inr_iff split: if_splits)
    moreover from True body have l: "label s = Inr (n, s')" by simp
    ultimately have "peek s' = '':''"
      by (auto simp: label_def rbind_Inr_iff result_iff peekNext_def token_at_def peek_def split: if_splits)
    with l show thesis by (rule lab)
  next
    case False
    with body show thesis using ins by (auto split: if_splits)
  qed
qed

lemma line_section:
  "reads s [''.section'', arg] s' \<Longrightarrow> arg \<noteq> ''EOL'' \<Longrightarrow> line s = Inr (Directive DT_SECTION [arg], s')"
  using reads_peek [of s "''.section''" "[arg]" s'] directive_iff [of s "Directive DT_SECTION [arg]" s']
  by (simp add: line_def)

lemma line_instruction:
  assumes "instruction s = Inr (n, s')"
  shows "line s = Inr (n, s')"
proof -
  from assms obtain t ts where "reads s (t # ts) s'" "isInstruction t"
    by (auto simp: instruction_iff elim!: g_instruction.cases dest: make_instruction_known)
  then have "isInstruction (peek s)" by (auto dest: reads_peek)
  with assms show ?thesis
    by (simp add: line_def isInstruction_facts isInstruction_not_label)
qed

section \<open>Programs\<close>

text \<open>
  \<open>program -> line* EOF\<close>. A line is an instruction, ended by a newline, or a directive
  with its operand; blank lines are skipped, and what follows the first EOF is not read.
  The alternative \<open>label -> LABEL ":"\<close> of the comment has no rule here: the code never
  reads the colon, and so accepts no program with a label.
\<close>

inductive g_program :: "TokenList \<Rightarrow> BaseNode list \<Rightarrow> bool" where
  g_eof: "g_program (''EOF'' # ts) []"
| g_newline: "g_program ts ns \<Longrightarrow> g_program (''EOL'' # ts) ns"
| g_instruction_line: "g_instruction us n \<Longrightarrow> g_program (''EOL'' # ts) ns \<Longrightarrow>
     g_program (us @ ''EOL'' # ts) (n # ns)"
| g_directive_line: "arg \<noteq> ''EOL'' \<Longrightarrow> g_program ts ns \<Longrightarrow>
     g_program (''.section'' # arg # ts) (Directive DT_SECTION [arg] # ns)"

lemma program_loop_cases:
  assumes run: "program_loop ls s = Inr (res, s')"
  obtains (eof) "isEof (peek s)" "res = ls" "s' = s"
  | (nl) t s1 where "next_token s = Inr (t, s1)" "isNewline (peek s)" "program_loop ls s1 = Inr (res, s')"
  | (line) n s1 where "\<not> isEof (peek s)" "\<not> isNewline (peek s)" "line s = Inr (n, s1)"
      "program_loop (ls @ [n]) s1 = Inr (res, s')"
proof (cases "isEof (peek s)")
  case True
  with run have "res = ls" "s' = s" unfolding program_loop.simps [of ls s] by auto
  with True show thesis by (rule eof)
next
  case e: False
  show thesis
  proof (cases "isNewline (peek s)")
    case True
    with run e have "rbind (next_token s) (\<lambda>(_, s1). program_loop ls s1) = Inr (res, s')"
      unfolding program_loop.simps [of ls s] by simp
    then obtain t s1 where "next_token s = Inr (t, s1)" "program_loop ls s1 = Inr (res, s')"
      unfolding rbind_Inr_iff by auto
    with True show thesis using nl by blast
  next
    case False
    with run e have "rbind (line s) (\<lambda>(n, s1). program_loop (ls @ [n]) s1) = Inr (res, s')"
      unfolding program_loop.simps [of ls s] by simp
    then obtain n s1 where "line s = Inr (n, s1)" "program_loop (ls @ [n]) s1 = Inr (res, s')"
      unfolding rbind_Inr_iff by auto
    with e False show thesis using line by blast
  qed
qed

text \<open>A colon is no line, so parsing stops after a label.\<close>

lemma line_colon: "peek s = '':'' \<Longrightarrow> line s \<noteq> Inr (n, s')"
proof -
  assume c: "peek s = '':''"
  have "\<not> isDirective '':''" "\<not> isLabel '':''" "\<not> isInstruction '':''" by code_simp+
  with c show ?thesis by (simp add: line_def)
qed

lemma program_loop_colon: "peek s = '':'' \<Longrightarrow> program_loop ls s \<noteq> Inr (res, s')"
proof
  assume c: "peek s = '':''" and "program_loop ls s = Inr (res, s')"
  from this(2) show False
    by (cases rule: program_loop_cases) (use c line_colon in \<open>auto simp: isEof_def isNewline_def\<close>)
qed

lemma program_loop_sound:
  "program_loop ls s = Inr (res, s') \<Longrightarrow> \<exists>ns. res = ls @ ns \<and> g_program (rest s) ns"
proof (induction "remaining s" arbitrary: ls s rule: less_induct)
  case less
  from less.prems show ?case
  proof (cases rule: program_loop_cases)
    case eof
    then show ?thesis
      by (auto simp: isEof_def peek_rest split: list.splits intro: g_eof)
  next
    case (nl t s1)
    then have "\<exists>ns. res = ls @ ns \<and> g_program (rest s1) ns"
      using less.hyps nxt.consumes_less by blast
    with nl show ?thesis
      by (auto simp: isNewline_def next_token_at_peek dest!: reads_rest intro: g_newline)
  next
    case (line n s1)
    then obtain ns where ns: "res = (ls @ [n]) @ ns" "g_program (rest s1) ns"
      using less.hyps lin.consumes_less by blast
    from line(3) show ?thesis
    proof (cases rule: line_cases)
      case (dir arg)
      with ns show ?thesis by (auto dest!: reads_rest intro: g_directive_line)
    next
      case lab
      with line(4) program_loop_colon show ?thesis by blast
    next
      case ins
      then obtain ts where ts: "reads s ts s1" "g_instruction ts n" "isNewline (peek s1)"
        by (auto simp: instruction_iff)
      then obtain us where us: "rest s1 = ''EOL'' # us"
        by (auto simp: isNewline_def peek_rest split: list.splits)
      from g_instruction_line [OF ts(2) ns(2) [unfolded us]] ns(1) reads_rest [OF ts(1)] us
      show ?thesis by auto
    qed
  qed
qed

lemma rest_next_token: "rest s = t # ts \<Longrightarrow> \<exists>s1. next_token s = Inr (t, s1) \<and> rest s1 = ts"
proof -
  assume r: "rest s = t # ts"
  then have "reads s [t] (s\<lparr>mPos := mPos s + length [t]\<rparr>)" by (intro reads_intro) simp
  with r show ?thesis
    using reads_rest [of s "[t]"] by (auto simp: next_token_reads)
qed

lemma program_loop_complete:
  assumes "g_program ts ns" and "rest s = ts"
  shows "\<exists>s'. program_loop ls s = Inr (ls @ ns, s')"
  using assms
proof (induction arbitrary: s ls rule: g_program.induct)
  case (g_eof ts)
  then have "isEof (peek s)" by (simp add: peek_rest isEof_def)
  then show ?case unfolding program_loop.simps [of ls s] by simp
next
  case (g_newline ts ns)
  then have "peek s = ''EOL''" by (simp add: peek_rest)
  with g_newline show ?case
    unfolding program_loop.simps [of ls s]
    by (auto simp: isEof_def isNewline_def dest!: rest_next_token)
next
  case (g_instruction_line us n ts ns)
  then obtain s1 where r: "reads s us s1" "rest s1 = ''EOL'' # ts"
    using reads_intro [of s us "''EOL'' # ts"] reads_rest by fastforce
  then have "isNewline (peek s1)" by (simp add: peek_rest isNewline_def)
  with r g_instruction_line.hyps(1) have i: "instruction s = Inr (n, s1)" by (auto simp: instruction_iff)
  obtain t vs where "us = t # vs" "isInstruction t"
    using g_instruction_line.hyps(1) by (auto elim!: g_instruction.cases dest: make_instruction_known)
  with r have "isInstruction (peek s)" by (auto dest: reads_peek)
  with line_instruction [OF i] g_instruction_line.IH [OF r(2), of "ls @ [n]"] show ?case
    unfolding program_loop.simps [of ls s] by (simp add: isInstruction_facts)
next
  case (g_directive_line arg ts ns)
  then obtain s1 where r: "reads s [''.section'', arg] s1" "rest s1 = ts"
    using reads_intro [of s "[''.section'', arg]" ts] reads_rest by fastforce
  moreover have "peek s = ''.section''" using r(1) by (rule reads_peek)
  ultimately show ?case
    using line_section [OF r(1) g_directive_line.hyps(1)] g_directive_line.IH [OF r(2), of "ls @ [Directive DT_SECTION [arg]]"]
    unfolding program_loop.simps [of ls s] by (simp add: isEof_def isNewline_def)
qed

lemma parse_iff_grammar: "parse ts = Inr root \<longleftrightarrow> (\<exists>ns. root = Root ns \<and> g_program ts ns)"
proof
  assume "parse ts = Inr root"
  then obtain ns s' where "program_loop [] (Parser ts) = Inr (ns, s')" "root = Root ns"
    by (auto simp: parse_def program_def rbind_Inr_iff)
  with program_loop_sound [of "[]" "Parser ts" ns s'] show "\<exists>ns. root = Root ns \<and> g_program ts ns"
    by (simp add: rest_def Parser_def)
next
  assume "\<exists>ns. root = Root ns \<and> g_program ts ns"
  then obtain ns where "root = Root ns" "g_program ts ns" by blast
  with program_loop_complete [of ts ns "Parser ts" "[]"] show "parse ts = Inr root"
    by (auto simp: parse_def program_def rest_def Parser_def)
qed

end
