(* ===== verification/Lexer_Spec.thy ===== *)
theory Lexer_Spec
  imports Tokenizer
begin

text \<open>
  What the tokenizer promises: a lexer on strings, defined by recursion on the input
  with maximal munch and without states, positions or buffers, and the lexemes it
  produces. The state machine of \<open>Tokenizer\<close> implements it (\<open>tok_line_lex\<close> for one
  line, \<open>tokenize_lex\<close> for a file), including the line and column it reports when
  it throws.
\<close>

section \<open>The lexer on strings\<close>

definition punct_char :: "char \<Rightarrow> bool" where
  "punct_char c \<longleftrightarrow> c = CHR ''('' \<or> c = CHR '')'' \<or> c = CHR '','' \<or> isNumericOp c"

definition ends_word :: "char \<Rightarrow> bool" where
  "ends_word c \<longleftrightarrow> c = CHR '' '' \<or> isNumericOp c \<or> c = CHR '','' \<or> c = CHR '')''"

text \<open>The error of \<open>lex\<close> is the input that is left where no lexeme can go on.\<close>

function lex :: "string \<Rightarrow> string + Token list" where
  "lex [] = Inr []"
| "lex (c # cs) =
     (if c = CHR '' '' then lex cs
      else if c = CHR '';'' then Inr []
      else if word_char c then
        (let r = dropWhile word_char cs in
         if r = [] \<or> ends_word (hd r)
         then rbind (lex r) (\<lambda>ts. Inr ((c # takeWhile word_char cs) # ts))
         else Inl r)
      else if c = dquote then
        (case dropWhile (\<lambda>d. d \<noteq> dquote) cs of
           [] \<Rightarrow> Inl []
         | q # r \<Rightarrow> rbind (lex r) (\<lambda>ts. Inr ((c # takeWhile (\<lambda>d. d \<noteq> dquote) cs @ [q]) # ts)))
      else if punct_char c then rbind (lex cs) (\<lambda>ts. Inr ([c] # ts))
      else Inl (c # cs))"
  by pat_completeness auto
termination
proof (relation "measure length", goal_cases)
  case (4 c cs q r)
  then have "length (q # r) \<le> length cs" by (metis length_dropWhile_le)
  then show ?case by simp
qed auto

declare lex.simps(2) [simp del]

lemma word_char_facts [simp]:
  "\<not> word_char CHR '' ''" "\<not> word_char CHR '';''" "\<not> word_char dquote" "\<not> word_char CHR '':''"
  "\<not> word_char CHR ''(''" "\<not> word_char CHR '')''" "\<not> word_char CHR '',''" "\<not> word_char nul"
  by (simp_all add: word_char_def)

lemma word_char_not_op: "word_char c \<Longrightarrow> \<not> isNumericOp c"
  by (auto simp: word_char_def isNumericOp_def)

lemma punct_char_facts [simp]:
  "\<not> punct_char CHR '' ''" "\<not> punct_char CHR '';''" "\<not> punct_char dquote" "\<not> punct_char CHR '':''"
  by (simp_all add: punct_char_def)

lemma word_char_not_punct: "word_char c \<Longrightarrow> \<not> punct_char c"
  by (auto simp: punct_char_def dest: word_char_not_op)

text \<open>The equations by the kind of the first character.\<close>

lemma lex_space [simp]: "lex (CHR '' '' # cs) = lex cs"
  by (simp add: lex.simps(2))

lemma lex_comment [simp]: "lex (CHR '';'' # cs) = Inr []"
  by (simp add: lex.simps(2))

lemma lex_word:
  "word_char c \<Longrightarrow> lex (c # cs) =
     (let r = dropWhile word_char cs in
      if r = [] \<or> ends_word (hd r)
      then rbind (lex r) (\<lambda>ts. Inr ((c # takeWhile word_char cs) # ts)) else Inl r)"
  by (auto simp: lex.simps(2) Let_def)

lemma lex_string:
  "lex (dquote # cs) =
     (case dropWhile (\<lambda>d. d \<noteq> dquote) cs of
        [] \<Rightarrow> Inl []
      | q # r \<Rightarrow> rbind (lex r) (\<lambda>ts. Inr ((dquote # takeWhile (\<lambda>d. d \<noteq> dquote) cs @ [q]) # ts)))"
  by (simp add: lex.simps(2))

lemma lex_punct: "punct_char c \<Longrightarrow> lex (c # cs) = rbind (lex cs) (\<lambda>ts. Inr ([c] # ts))"
  by (auto simp: lex.simps(2) dest: word_char_not_punct)

definition bad_start :: "char \<Rightarrow> bool" where
  "bad_start c \<longleftrightarrow> c \<noteq> CHR '' '' \<and> c \<noteq> CHR '';'' \<and> \<not> word_char c \<and> c \<noteq> dquote \<and> \<not> punct_char c"

lemma lex_bad: "bad_start c \<Longrightarrow> lex (c # cs) = Inl (c # cs)"
  by (simp add: lex.simps(2) bad_start_def)

lemma first_char_cases:
  obtains (space) "c = CHR '' ''" | (comment) "c = CHR '';''" | (word) "word_char c"
  | (quote) "c = dquote" | (punct) "punct_char c" | (bad) "bad_start c"
  unfolding bad_start_def by blast

text \<open>
  Induction over the runs of \<open>lex\<close>: the property is shown for an input from its truth for
  the rests that \<open>lex\<close> goes on with.
\<close>

lemma lex_induct [case_names Nil Cons]:
  assumes "P []"
    and "\<And>c cs. (\<And>r. length r \<le> length cs \<Longrightarrow> P r) \<Longrightarrow> P (c # cs)"
  shows "P s"
proof (induction s rule: length_induct)
  case (1 s)
  then show ?case
    by (cases s) (use assms in \<open>auto simp: less_Suc_eq_le\<close>)
qed

section \<open>Lexemes\<close>

text \<open>
  A lexeme is a word, a string with its two quotes, or one punctuation character.
\<close>

definition is_word :: "Token \<Rightarrow> bool" where
  "is_word t \<longleftrightarrow> t \<noteq> [] \<and> list_all word_char t"

definition is_string :: "Token \<Rightarrow> bool" where
  "is_string t \<longleftrightarrow> 2 \<le> length t \<and> hd t = dquote \<and> last t = dquote \<and>
     list_all (\<lambda>c. c \<noteq> dquote) (butlast (tl t))"

definition is_punct :: "Token \<Rightarrow> bool" where
  "is_punct t \<longleftrightarrow> length t = 1 \<and> punct_char (hd t)"

definition lexeme :: "Token \<Rightarrow> bool" where
  "lexeme t \<longleftrightarrow> is_word t \<or> is_string t \<or> is_punct t"

lemma is_string_quoted:
  "list_all (\<lambda>c. c \<noteq> dquote) b \<Longrightarrow> is_string (dquote # b @ [dquote])"
  by (simp add: is_string_def)

lemma is_stringE:
  assumes "is_string t"
  obtains b where "t = dquote # b @ [dquote]" and "list_all (\<lambda>c. c \<noteq> dquote) b"
proof -
  from assms obtain c u where t: "t = c # u"
    by (cases t) (auto simp: is_string_def)
  with assms have u: "u \<noteq> []"
    by (auto simp: is_string_def)
  from assms t u have "c = dquote" and "last u = dquote"
    by (auto simp: is_string_def)
  with t u have "t = dquote # butlast u @ [dquote]"
    by (metis append_butlast_last_id)
  moreover from assms t have "list_all (\<lambda>c. c \<noteq> dquote) (butlast u)"
    by (simp add: is_string_def)
  ultimately show ?thesis by (rule that)
qed

lemma lexeme_nonempty: "lexeme t \<Longrightarrow> t \<noteq> []"
  by (auto simp: lexeme_def is_word_def is_string_def is_punct_def)

text \<open>No lexeme is a colon: the tokenizer cannot hand one to the parser.\<close>

lemma colon_not_lexeme: "\<not> lexeme '':''"
  by (simp add: lexeme_def is_word_def is_string_def is_punct_def)

text \<open>A lexeme that starts with a minus sign is the minus sign.\<close>

lemma lexeme_minus: "lexeme t \<Longrightarrow> hd t = CHR ''-'' \<Longrightarrow> t = ''-''"
proof -
  assume l: "lexeme t" and h: "hd t = CHR ''-''"
  then have "is_punct t"
    by (cases t) (auto simp: lexeme_def is_word_def is_string_def word_char_def)
  with h show "t = ''-''" by (cases t) (auto simp: is_punct_def)
qed

lemma dropWhile_quote: "dropWhile (\<lambda>d. d \<noteq> dquote) cs = q # r \<Longrightarrow> q = dquote"
  using hd_dropWhile [of "\<lambda>d. d \<noteq> dquote" cs] by auto

lemma lex_lexemes: "lex s = Inr ts \<Longrightarrow> list_all lexeme ts"
proof (induction s arbitrary: ts rule: lex_induct)
  case Nil
  then show ?case by simp
next
  case (Cons c cs)
  show ?case
  proof (cases c rule: first_char_cases)
    case word
    then have "lexeme (c # takeWhile word_char cs)"
      by (simp add: lexeme_def is_word_def)
    with word Cons.prems Cons.IH [of "dropWhile word_char cs"] show ?thesis
      by (auto simp: lex_word Let_def result_iff length_dropWhile_le split: if_splits)
  next
    case quote
    with Cons.prems obtain q r us where d: "dropWhile (\<lambda>d. d \<noteq> dquote) cs = q # r"
      and us: "lex r = Inr us" and ts: "ts = (dquote # takeWhile (\<lambda>d. d \<noteq> dquote) cs @ [q]) # us"
      by (auto simp: lex_string result_iff split: list.splits)
    have "length (q # r) \<le> length cs" by (metis d length_dropWhile_le)
    with us Cons.IH [of r] have "list_all lexeme us" by simp
    moreover have "is_string (dquote # takeWhile (\<lambda>d. d \<noteq> dquote) cs @ [dquote])"
      by (rule is_string_quoted) simp
    ultimately show ?thesis
      unfolding ts dropWhile_quote [OF d] by (simp add: lexeme_def [of "_ # _"])
  next
    case punct
    then have "lexeme [c]" by (simp add: lexeme_def is_punct_def)
    with punct Cons.prems Cons.IH [of cs] show ?thesis
      by (auto simp: lex_punct result_iff)
  qed (use Cons in \<open>auto simp: lex_bad\<close>)
qed

section \<open>The state machine implements the lexer\<close>

abbreviation (input) tst :: "State \<Rightarrow> nat \<Rightarrow> string \<Rightarrow> TokenList \<Rightarrow> nat \<Rightarrow> tstate" where
  "tst st p b ts n \<equiv> \<lparr>t_state = st, t_pos = p, t_tokbuf = b, t_tokens = ts, t_lineno = n\<rparr>"

text \<open>The cursor: what is left of the line at position \<open>p\<close>.\<close>

lemma cursor_Cons:
  "drop p line = c # cs \<Longrightarrow> p < length line \<and> char_at line p = c \<and> drop (Suc p) line = cs"
  by (metis Cons_nth_drop_Suc char_at_def drop_all list.distinct(1) list.inject not_le)

lemma cursor_Nil: "drop p line = [] \<longleftrightarrow> length line \<le> p"
  by simp

lemma tok_line_END_LINE [simp]: "tok_line line (tst END_LINE p b ts n) = Inr (tst END_LINE p b ts n)"
  by (subst tok_line.simps) simp

text \<open>What is printed for an error at column \<open>p\<close> of line \<open>n\<close>: inside of the line it is a character
  that starts no token, at its end a string without its closing quote.\<close>

definition fault_report :: "string \<Rightarrow> nat \<Rightarrow> nat \<Rightarrow> string" where
  "fault_report line n p =
     logError (if p < length line then ''Invalid token'' else ''Unterminated string'') (c_str line) n p"

lemma tok_line_END_TOKEN:
  "tok_line line (tst END_TOKEN p b ts n) = tok_line line (tst START_TOKEN p [] (ts @ [b]) n)"
  by (subst tok_line.simps) (simp add: tok_step_def)

lemma tok_line_TOKEN_stop:
  "length line \<le> p \<Longrightarrow> tok_line line (tst TOKEN p b ts n) = tok_line line (tst START_TOKEN p [] (ts @ [b]) n)"
  "p < length line \<Longrightarrow> char_at line p = CHR '' '' \<Longrightarrow>
     tok_line line (tst TOKEN p b ts n) = tok_line line (tst START_TOKEN (p + 1) [] (ts @ [b]) n)"
  "p < length line \<Longrightarrow> isNumericOp (char_at line p) \<or> char_at line p = CHR '','' \<or> char_at line p = CHR '')'' \<Longrightarrow>
     tok_line line (tst TOKEN p b ts n) = tok_line line (tst START_TOKEN p [] (ts @ [b]) n)"
  by (subst tok_line.simps, auto simp: tok_step_def Let_def tok_line_END_TOKEN)+

lemma tok_line_TOKEN_word:
  "p < length line \<Longrightarrow> word_char (char_at line p) \<Longrightarrow>
     tok_line line (tst TOKEN p b ts n) = tok_line line (tst TOKEN (p + 1) (b @ [char_at line p]) ts n)"
  by (subst tok_line.simps)
    (auto simp: tok_step_def Let_def word_char_def isNumericOp_def split: if_splits)

lemma tok_line_TOKEN_bad:
  "p < length line \<Longrightarrow> \<not> word_char (char_at line p) \<Longrightarrow> \<not> ends_word (char_at line p) \<Longrightarrow>
     \<exists>what. tok_line line (tst TOKEN p b ts n) = Inl (TokenizerException what n p, fault_report line n p)"
  by (subst tok_line.simps)
    (auto simp: tok_step_def Let_def word_char_def ends_word_def tok_throw_def fault_report_def)

lemma tok_line_word_run:
  assumes "drop p line = r"
  shows "tok_line line (tst TOKEN p b ts n) =
    tok_line line (tst TOKEN (p + length (takeWhile word_char r)) (b @ takeWhile word_char r) ts n)"
  using assms
proof (induction r arbitrary: p b)
  case Nil
  then show ?case by simp
next
  case (Cons c cs)
  note cur = cursor_Cons [OF Cons.prems]
  with Cons.IH [of "Suc p" "b @ [c]"] show ?case
    by (auto simp: tok_line_TOKEN_word)
qed

lemma tok_line_STRING:
  "length line \<le> p \<Longrightarrow> \<exists>what. tok_line line (tst STRING_TOKEN p b ts n) = Inl (TokenizerException what n p, fault_report line n p)"
  "p < length line \<Longrightarrow> char_at line p = dquote \<Longrightarrow>
     tok_line line (tst STRING_TOKEN p b ts n) = tok_line line (tst START_TOKEN (p + 1) [] (ts @ [b @ [dquote]]) n)"
  "p < length line \<Longrightarrow> char_at line p \<noteq> dquote \<Longrightarrow>
     tok_line line (tst STRING_TOKEN p b ts n) = tok_line line (tst STRING_TOKEN (p + 1) (b @ [char_at line p]) ts n)"
  by (subst tok_line.simps, auto simp: tok_step_def Let_def tok_throw_def fault_report_def tok_line_END_TOKEN)+

lemma tok_line_string_run:
  assumes "drop p line = r"
  shows "tok_line line (tst STRING_TOKEN p b ts n) =
    tok_line line (tst STRING_TOKEN (p + length (takeWhile (\<lambda>c. c \<noteq> dquote) r))
      (b @ takeWhile (\<lambda>c. c \<noteq> dquote) r) ts n)"
  using assms
proof (induction r arbitrary: p b)
  case Nil
  then show ?case by simp
next
  case (Cons c cs)
  note cur = cursor_Cons [OF Cons.prems]
  with Cons.IH [of "Suc p" "b @ [c]"] show ?case
    by (auto simp: tok_line_STRING)
qed

lemma tok_line_START_TOKEN_step:
  "length line \<le> p \<Longrightarrow> tok_line line (tst START_TOKEN p b ts n) = Inr (tst END_LINE p [] ts (n + 1))"
  "p < length line \<Longrightarrow> char_at line p = CHR '';'' \<Longrightarrow>
     tok_line line (tst START_TOKEN p b ts n) = Inr (tst END_LINE p [] ts (n + 1))"
  "p < length line \<Longrightarrow> char_at line p = CHR '' '' \<Longrightarrow>
     tok_line line (tst START_TOKEN p b ts n) = tok_line line (tst START_TOKEN (p + 1) [] ts n)"
  "p < length line \<Longrightarrow> char_at line p = dquote \<Longrightarrow>
     tok_line line (tst START_TOKEN p b ts n) = tok_line line (tst STRING_TOKEN (p + 1) [dquote] ts n)"
  by (subst tok_line.simps, auto simp: tok_step_def Let_def)+

lemma tok_line_START_TOKEN_word:
  "p < length line \<Longrightarrow> word_char (char_at line p) \<Longrightarrow>
     tok_line line (tst START_TOKEN p b ts n) = tok_line line (tst TOKEN p [] ts n)"
  by (subst tok_line.simps) (auto simp: tok_step_def Let_def word_char_def)

lemma tok_line_START_TOKEN_punct:
  "p < length line \<Longrightarrow> punct_char (char_at line p) \<Longrightarrow>
     tok_line line (tst START_TOKEN p b ts n) =
     tok_line line (tst START_TOKEN (p + 1) [] (ts @ [[char_at line p]]) n)"
  by (subst tok_line.simps)
    (auto simp: tok_step_def Let_def punct_char_def isNumericOp_def tok_line_END_TOKEN)

lemma tok_line_START_TOKEN_bad:
  "p < length line \<Longrightarrow> bad_start (char_at line p) \<Longrightarrow>
     \<exists>what. tok_line line (tst START_TOKEN p b ts n) = Inl (TokenizerException what n p, fault_report line n p)"
  by (subst tok_line.simps)
    (auto simp: tok_step_def Let_def bad_start_def punct_char_def word_char_def tok_throw_def fault_report_def)

text \<open>The machine's result agrees with a result of \<open>lex\<close> on the rest of the line.\<close>

definition reports :: "string \<Rightarrow> nat \<Rightarrow> TokenList \<Rightarrow> string + Token list \<Rightarrow> tok_failure + tstate \<Rightarrow> bool" where
  "reports line n ts l m \<longleftrightarrow>
     (case l of
        Inl e \<Rightarrow>
          let p = length line - length e in \<exists>what. m = Inl (TokenizerException what n p, fault_report line n p)
      | Inr us \<Rightarrow> \<exists>p \<le> length line. m = Inr (tst END_LINE p [] (ts @ us) (n + 1)))"

lemma reports_token:
  "reports line n (ts @ [w]) l m \<Longrightarrow> reports line n ts (rbind l (\<lambda>us. Inr (w # us))) m"
  by (cases l) (auto simp: reports_def)

lemma reports_fail:
  assumes "\<exists>what. m = Inl (TokenizerException what n p, fault_report line n p)" and "p + length e = length line"
  shows "reports line n ts (Inl e) m"
proof -
  from assms(2) have "length line - length e = p" by linarith
  with assms(1) show ?thesis by (simp add: reports_def)
qed

lemma cursor_length: "drop p line = r \<Longrightarrow> p \<le> length line \<Longrightarrow> p + length r = length line"
  by auto

lemma cursor_advance:
  assumes "drop p line = u @ r" and "p \<le> length line"
  shows "drop (p + length u) line = r" and "p + length u \<le> length line"
proof -
  have "drop (length u) (drop p line) = r" using assms(1) by simp
  then show "drop (p + length u) line = r" by (simp add: add.commute)
  have "length line - p = length u + length r"
    using arg_cong [OF assms(1), of length] by simp
  with assms(2) show "p + length u \<le> length line" by simp
qed

lemma tok_line_START_TOKEN_lex:
  assumes "drop p line = r" and "p \<le> length line"
  shows "reports line n ts (lex r) (tok_line line (tst START_TOKEN p b ts n))"
  using assms
proof (induction r arbitrary: p b ts rule: lex_induct)
  case Nil
  then show ?case by (simp add: reports_def tok_line_START_TOKEN_step)
next
  case (Cons c cs)
  note cur = cursor_Cons [OF Cons.prems(1)]
  then have p: "p < length line" and c: "char_at line p = c" and d: "drop (Suc p) line = cs"
    by auto
  show ?case
  proof (cases c rule: first_char_cases)
    case space
    with c p d Cons.IH [of cs "Suc p"] show ?thesis
      by (simp add: tok_line_START_TOKEN_step)
  next
    case comment
    with c p show ?thesis by (auto simp: tok_line_START_TOKEN_step reports_def)
  next
    case punct
    with c p d Cons.IH [of cs "Suc p" "ts @ [[c]]"] show ?thesis
      by (auto simp: tok_line_START_TOKEN_punct lex_punct intro!: reports_token)
  next
    case bad
    with c p tok_line_START_TOKEN_bad [of p line b ts n] cursor_length [OF Cons.prems] show ?thesis
      by (auto simp: lex_bad intro!: reports_fail)
  next
    case word
    let ?w = "takeWhile word_char (c # cs)" and ?r = "dropWhile word_char cs"
    have split: "drop p line = ?w @ ?r" using Cons.prems(1) word by simp
    define p' where "p' = p + length ?w"
    have p': "drop p' line = ?r" "p' \<le> length line"
      using cursor_advance [OF split] p by (simp_all add: p'_def)
    have run: "tok_line line (tst START_TOKEN p b ts n) = tok_line line (tst TOKEN p' ?w ts n)"
      using word c p tok_line_word_run [OF Cons.prems(1), of "[]" ts n]
      by (simp add: tok_line_START_TOKEN_word p'_def)
    show ?thesis
    proof (cases "?r")
      case Nil
      have "lex (c # cs) = Inr [c # takeWhile word_char cs]"
        by (simp add: lex_word [OF word] Let_def Nil del: dropWhile_eq_Nil_conv)
      moreover have "p' = length line" using p' Nil by (simp only: cursor_Nil)
      ultimately show ?thesis
        using run word by (simp add: tok_line_TOKEN_stop tok_line_START_TOKEN_step reports_def)
    next
      case (Cons q rest)
      note cur' = cursor_Cons [OF p'(1) [unfolded Cons]]
      then have q: "char_at line p' = q" "p' < length line" by auto
      have nw: "\<not> word_char q" using Cons hd_dropWhile [of word_char cs] by auto
      have len: "length ?r \<le> length cs" by (rule length_dropWhile_le)
      show ?thesis
      proof (cases "ends_word q")
        case False
        with Cons nw q word run tok_line_TOKEN_bad [of p' line ?w ts n] cursor_length [OF p'] show ?thesis
          by (auto simp: lex_word intro!: reports_fail)
      next
        case True
        have "reports line n (ts @ [?w]) (lex ?r) (tok_line line (tst TOKEN p' ?w ts n))"
        proof (cases "q = CHR '' ''")
          case True
          have "reports line n (ts @ [?w]) (lex rest) (tok_line line (tst START_TOKEN (Suc p') [] (ts @ [?w]) n))"
            by (rule Cons.IH) (use cur' len Cons in auto)
          with True Cons q show ?thesis by (simp add: tok_line_TOKEN_stop)
        next
          case False
          have "reports line n (ts @ [?w]) (lex ?r) (tok_line line (tst START_TOKEN p' [] (ts @ [?w]) n))"
            by (rule Cons.IH) (use p' len in auto)
          with False \<open>ends_word q\<close> q show ?thesis
            by (auto simp: tok_line_TOKEN_stop ends_word_def)
        qed
        with True Cons word run show ?thesis
          by (auto simp: lex_word intro!: reports_token)
      qed
    qed
  next
    case quote
    let ?s = "takeWhile (\<lambda>d. d \<noteq> dquote) cs" and ?r = "dropWhile (\<lambda>d. d \<noteq> dquote) cs"
    have split: "drop (Suc p) line = ?s @ ?r" using d by simp
    define p' where "p' = Suc p + length ?s"
    have p': "drop p' line = ?r" "p' \<le> length line"
      using cursor_advance [OF split] p by (simp_all add: p'_def)
    have run: "tok_line line (tst START_TOKEN p b ts n) = tok_line line (tst STRING_TOKEN p' (dquote # ?s) ts n)"
      using quote c p tok_line_string_run [OF d, of "[dquote]" ts n]
      by (simp add: tok_line_START_TOKEN_step p'_def)
    show ?thesis
    proof (cases "?r")
      case Nil
      have "lex (c # cs) = Inl []"
        by (simp add: quote lex_string Nil del: dropWhile_eq_Nil_conv)
      moreover have end_of_line: "p' = length line"
        using p' by (simp add: Nil del: dropWhile_eq_Nil_conv)
      moreover have "reports line n ts (Inl []) (tok_line line (tst STRING_TOKEN p' (dquote # ?s) ts n))"
        by (rule reports_fail [OF tok_line_STRING(1)]) (simp_all add: end_of_line)
      ultimately show ?thesis by (simp only: run)
    next
      case (Cons q rest)
      note cur' = cursor_Cons [OF p'(1) [unfolded Cons]]
      have q: "q = dquote" by (rule dropWhile_quote [OF Cons])
      have "length ?r \<le> length cs" by (rule length_dropWhile_le)
      then have "reports line n (ts @ [dquote # ?s @ [dquote]]) (lex rest)
        (tok_line line (tst START_TOKEN (Suc p') [] (ts @ [dquote # ?s @ [dquote]]) n))"
        by (intro Cons.IH) (use cur' Cons in auto)
      with Cons q quote run cur' show ?thesis
        by (auto simp: lex_string tok_line_STRING intro!: reports_token)
    qed
  qed
qed

lemma tok_line_START_LINE:
  assumes "p \<le> length line"
  shows "tok_line line (tst START_LINE p [] ts n) = tok_line line (tst START_TOKEN p [] ts n)"
  using assms
proof (induction "length line - p" arbitrary: p)
  case 0
  then show ?case
    by (subst tok_line.simps) (simp add: tok_step_def Let_def tok_line_START_TOKEN_step)
next
  case (Suc k)
  then have p: "p < length line" by linarith
  show ?case
  proof (cases "char_at line p = CHR '' ''")
    case True
    with p have "tok_line line (tst START_LINE p [] ts n) = tok_line line (tst START_LINE (p + 1) [] ts n)"
      by (subst tok_line.simps) (simp add: tok_step_def Let_def)
    also have "\<dots> = tok_line line (tst START_TOKEN (p + 1) [] ts n)"
      using Suc p by simp
    also have "\<dots> = tok_line line (tst START_TOKEN p [] ts n)"
      using True p by (simp add: tok_line_START_TOKEN_step)
    finally show ?thesis .
  next
    case False
    with p show ?thesis
      by (subst tok_line.simps) (simp add: tok_step_def Let_def)
  qed
qed

lemma tok_line_lex:
  "reports line n ts (lex line) (tok_line line (tst START_LINE 0 [] ts n))"
  using tok_line_START_TOKEN_lex [of 0 line line n ts "[]"] by (simp add: tok_line_START_LINE)

section \<open>Whole files\<close>

function lines_of :: "string \<Rightarrow> string list" where
  "lines_of s = (case getline s of None \<Rightarrow> [] | Some (l, r) \<Rightarrow> l # lines_of r)"
  by pat_completeness auto
termination
  by (relation "measure length") (auto simp: getline_shorter)

declare lines_of.simps [simp del]

text \<open>The lexer on a list of lines, with the line and column of the first error.\<close>

fun lex_lines :: "nat \<Rightarrow> string list \<Rightarrow> (nat \<times> nat) + TokenList" where
  "lex_lines n [] = Inr []"
| "lex_lines n (l # ls) =
     (case lex l of
        Inl e \<Rightarrow> Inl (n, length l - length e)
      | Inr ts \<Rightarrow> rbind (lex_lines (n + 1) ls) (\<lambda>us. Inr (ts @ [''EOL''] @ us)))"

definition reports_lines ::
  "string list \<Rightarrow> nat \<Rightarrow> TokenList \<Rightarrow> (nat \<times> nat) + TokenList \<Rightarrow> tok_failure + tstate \<Rightarrow> bool" where
  "reports_lines ls k ts l m \<longleftrightarrow>
     (case l of
        Inl (n, col) \<Rightarrow> k \<le> n \<and> (\<exists>what. m = Inl (TokenizerException what n col, fault_report (ls ! (n - k)) n col))
      | Inr us \<Rightarrow> \<exists>s. m = Inr s \<and> t_tokens s = ts @ us)"

lemma reports_lines_more:
  "reports_lines ls (k + 1) (ts @ us) l m \<Longrightarrow> reports_lines (line # ls) k ts (rbind l (\<lambda>vs. Inr (us @ vs))) m"
  by (cases l) (auto simp: reports_lines_def nth_Cons' Suc_diff_le)

lemma tokenize_lines_lex:
  "reports_lines (lines_of input) n ts (lex_lines n (lines_of input)) (tokenize_lines input (tst st p [] ts n))"
proof (induction input arbitrary: st p ts n rule: lines_of.induct)
  case (1 input)
  show ?case
  proof (cases "getline input")
    case None
    then show ?thesis
      by (simp add: lines_of.simps [of input] tokenize_lines.simps [of input] reports_lines_def)
  next
    case (Some lr)
    obtain line rest where lr: "lr = (line, rest)" by (cases lr)
    have run: "reports line n ts (lex line) (tok_line line (tst START_LINE 0 [] ts n))"
      by (rule tok_line_lex)
    have eqs: "lines_of input = line # lines_of rest"
      "tokenize_lines input (tst st p [] ts n) =
         rbind (tok_line line (tst START_LINE 0 [] ts n))
           (\<lambda>s'. tokenize_lines rest (s'\<lparr>t_tokens := t_tokens s' @ [''EOL'']\<rparr>))"
      by (simp_all add: lines_of.simps [of input] tokenize_lines.simps [of input] Some lr)
    show ?thesis
    proof (cases "lex line")
      case (Inl e)
      with run show ?thesis by (auto simp: eqs reports_def reports_lines_def Let_def)
    next
      case (Inr us)
      with run obtain q where m: "tok_line line (tst START_LINE 0 [] ts n) = Inr (tst END_LINE q [] (ts @ us) (n + 1))"
        by (auto simp: reports_def)
      have "reports_lines (lines_of rest) (n + 1) (ts @ (us @ [''EOL''])) (lex_lines (n + 1) (lines_of rest))
              (tokenize_lines rest (tst END_LINE q [] (ts @ (us @ [''EOL''])) (n + 1)))"
        using "1.IH" [OF Some lr [symmetric]] by simp
      then have "reports_lines (line # lines_of rest) n ts (rbind (lex_lines (n + 1) (lines_of rest)) (\<lambda>vs. Inr ((us @ [''EOL'']) @ vs)))
              (tokenize_lines rest (tst END_LINE q [] (ts @ (us @ [''EOL''])) (n + 1)))"
        by (rule reports_lines_more)
      with Inr m show ?thesis by (simp add: eqs)
    qed
  qed
qed

lemma tokenize_lex:
  "case lex_lines 0 (lines_of input) of
     Inl (n, col) \<Rightarrow> \<exists>what. tokenize input =
       Inl (TokenizerException what n col, fault_report (lines_of input ! n) n col)
   | Inr ts \<Rightarrow> tokenize input = Inr (ts @ [''EOF''])"
  using tokenize_lines_lex [of input 0 "[]" START_LINE 0]
  by (auto simp: tokenize_def tok_init_def reports_lines_def split: sum.splits)

section \<open>What the token list looks like\<close>

lemma EOL_EOF_lexeme: "lexeme ''EOL''" "lexeme ''EOF''"
  by (simp_all add: lexeme_def is_word_def word_char_def char_class_defs)

lemma lex_lines_lexemes: "lex_lines n ls = Inr ts \<Longrightarrow> list_all lexeme ts"
  by (induction ls arbitrary: n ts)
    (auto simp: result_iff EOL_EOF_lexeme split: sum.splits dest!: lex_lexemes)

text \<open>The positions in an error report lie inside of the file.\<close>

lemma lex_error_suffix: "lex s = Inl e \<Longrightarrow> length e \<le> length s"
proof (induction s arbitrary: e rule: lex_induct)
  case Nil
  then show ?case by simp
next
  case (Cons c cs)
  show ?case
  proof (cases c rule: first_char_cases)
    case word
    with Cons.prems Cons.IH [of "dropWhile word_char cs"] show ?thesis
      by (force simp: lex_word Let_def result_iff length_dropWhile_le split: if_splits
          intro: le_SucI order_trans [OF _ length_dropWhile_le])
  next
    case quote
    with Cons.prems consider "e = []"
      | q r where "dropWhile (\<lambda>d. d \<noteq> dquote) cs = q # r" "lex r = Inl e"
      by (auto simp: lex_string result_iff split: list.splits)
    then show ?thesis
    proof cases
      case (2 q r)
      have "length (q # r) \<le> length cs" by (metis 2(1) length_dropWhile_le)
      with 2 Cons.IH [of r] show ?thesis by force
    qed simp
  next
    case punct
    with Cons.prems Cons.IH [of cs] show ?thesis
      by (force simp: lex_punct result_iff)
  qed (use Cons in \<open>force simp: lex_bad\<close>)+
qed

lemma lex_lines_error:
  "lex_lines n ls = Inl (m, col) \<Longrightarrow>
   \<exists>i e. m = n + i \<and> i < length ls \<and> list_all (\<lambda>l. is_value (lex l)) (take i ls) \<and>
     lex (ls ! i) = Inl e \<and> col = length (ls ! i) - length e"
proof (induction ls arbitrary: n)
  case Nil
  then show ?case by simp
next
  case (Cons l ls)
  show ?case
  proof (cases "lex l")
    case (Inl e)
    with Cons.prems show ?thesis by (intro exI [of _ 0]) auto
  next
    case (Inr ts)
    with Cons.prems have "lex_lines (n + 1) ls = Inl (m, col)"
      by (auto simp: result_iff)
    from Cons.IH [OF this] obtain i e where "m = n + 1 + i" "i < length ls"
      "list_all (\<lambda>l. is_value (lex l)) (take i ls)" "lex (ls ! i) = Inl e"
      "col = length (ls ! i) - length e" by blast
    with Inr show ?thesis by (intro exI [of _ "Suc i"]) auto
  qed
qed

section \<open>Printing tokens\<close>

text \<open>A line of source text for a list of tokens: each token, then a space.\<close>

fun spaced :: "Token list \<Rightarrow> string" where
  "spaced [] = []"
| "spaced (t # ts) = t @ '' '' @ spaced ts"

lemma lex_print_token:
  assumes "lexeme t"
  shows "lex (t @ '' '' @ s) = rbind (lex s) (\<lambda>ts. Inr (t # ts))"
proof -
  from assms consider "is_word t" | "is_string t" | "is_punct t" by (auto simp: lexeme_def)
  then show ?thesis
  proof cases
    case 1
    then obtain c u where t: "t = c # u" and c: "word_char c" and u: "list_all word_char u"
      by (cases t) (auto simp: is_word_def)
    have "dropWhile word_char (u @ '' '' @ s) = '' '' @ s"
      "takeWhile word_char (u @ '' '' @ s) = u"
      using u by (simp_all add: dropWhile_all takeWhile_all)
    with t c show ?thesis by (simp add: lex_word Let_def ends_word_def)
  next
    case 2
    then obtain b where t: "t = dquote # b @ [dquote]" and b: "list_all (\<lambda>c. c \<noteq> dquote) b"
      by (rule is_stringE)
    have "dropWhile (\<lambda>d. d \<noteq> dquote) (b @ dquote # CHR '' '' # s) = dquote # CHR '' '' # s"
      "takeWhile (\<lambda>d. d \<noteq> dquote) (b @ dquote # CHR '' '' # s) = b"
      using b by (simp_all add: dropWhile_all takeWhile_all)
    with t show ?thesis by (simp add: lex_string)
  next
    case 3
    then obtain c where "t = [c]" "punct_char c"
      by (cases t) (auto simp: is_punct_def)
    then show ?thesis by (simp add: lex_punct)
  qed
qed

lemma lex_spaced: "list_all lexeme ts \<Longrightarrow> lex (spaced ts) = Inr ts"
proof (induction ts)
  case Nil
  then show ?case by simp
next
  case (Cons t ts)
  then show ?case using lex_print_token [of t "spaced ts"] by simp
qed

lemma spaced_no_newline:
  "list_all (\<lambda>t. newline \<notin> set t) ts \<Longrightarrow> newline \<notin> set (spaced ts)"
  by (induction ts) auto

definition print_lines :: "Token list list \<Rightarrow> string" where
  "print_lines ls = concat (map (\<lambda>l. spaced l @ [newline]) ls)"

lemma lines_of_Cons:
  assumes "newline \<notin> set l"
  shows "lines_of (l @ newline # r) = l # lines_of r"
proof -
  have "list_all (\<lambda>c. c \<noteq> newline) l" using assms by (auto simp: list_all_iff)
  then have "getline (l @ newline # r) = Some (l, r)"
    by (simp add: getline_def takeWhile_all dropWhile_all)
  then show ?thesis by (simp add: lines_of.simps [of "l @ newline # r"])
qed

lemma lines_of_print_lines:
  "list_all (list_all (\<lambda>t. newline \<notin> set t)) ls \<Longrightarrow> lines_of (print_lines ls) = map spaced ls"
proof (induction ls)
  case Nil
  then show ?case by (simp add: print_lines_def lines_of.simps [of "[]"] getline_def)
next
  case (Cons l ls)
  then have "lines_of (spaced l @ newline # print_lines ls) = spaced l # lines_of (print_lines ls)"
    by (intro lines_of_Cons spaced_no_newline) simp
  with Cons show ?case by (simp add: print_lines_def)
qed

lemma lex_lines_spaced:
  "list_all (list_all lexeme) ls \<Longrightarrow>
   lex_lines n (map spaced ls) = Inr (concat (map (\<lambda>l. l @ [''EOL'']) ls))"
  by (induction ls arbitrary: n) (auto simp: lex_spaced)

section \<open>Properties\<close>

text \<open>C10: The state machine of \<open>Tokenizer::tokenize\<close> computes the reference lexer. On every
  input, \<open>tokenize\<close> returns the tokens of the reference lexer, line by line with an \<open>EOL\<close>
  after each line and a final \<open>EOF\<close>; where the lexer finds no lexeme, it throws a
  \<open>TokenizerException\<close> with the number of that line and the column at which the lexer stopped,
  after it reported the error under that line.\<close>

theorem tokenizer_implements_lexer:
  "case lex_lines 0 (lines_of input) of
     Inl (n, col) \<Rightarrow> \<exists>what. tokenize input =
       Inl (TokenizerException what n col, fault_report (lines_of input ! n) n col)
   | Inr ts \<Rightarrow> tokenize input = Inr (ts @ [''EOF''])"
  by (rule tokenize_lex)

text \<open>The position in a \<open>TokenizerException\<close> is right. The line number (from 0) is that of
  a line of the file, all lines before it tokenize, that line does not, and the column lies
  inside of it or at its end.\<close>

lemma tokenizer_error_position:
  assumes "tokenize input = Inl (TokenizerException what n col, log)"
  shows "n < length (lines_of input) \<and> list_all (\<lambda>l. is_value (lex l)) (take n (lines_of input)) \<and>
    \<not> is_value (lex (lines_of input ! n)) \<and> col \<le> length (lines_of input ! n)"
proof -
  from assms tokenize_lex [of input] have "lex_lines 0 (lines_of input) = Inl (n, col)"
    by (auto split: sum.splits prod.splits)
  from lex_lines_error [OF this] show ?thesis by auto
qed


text \<open>C25: What \<open>tokenize\<close> returns: lexemes (words, quoted strings, single punctuation
  characters) followed by \<open>EOF\<close>. In particular no token is a colon, and one that starts with
  a minus sign is the minus sign.\<close>

theorem tokenizer_tokens:
  assumes "tokenize input = Inr ts"
  shows "\<exists>us. ts = us @ [''EOF''] \<and> list_all lexeme us \<and> '':'' \<notin> set ts \<and>
    (\<forall>t \<in> set ts. hd t = CHR ''-'' \<longrightarrow> t = ''-'')"
proof -
  from assms tokenize_lex [of input] obtain us where us: "lex_lines 0 (lines_of input) = Inr us"
    and ts: "ts = us @ [''EOF'']"
    by (auto split: sum.splits prod.splits)
  from lex_lines_lexemes [OF us] EOL_EOF_lexeme(2) have "\<forall>t \<in> set ts. lexeme t"
    by (auto simp: ts list_all_iff)
  with ts show ?thesis
    using colon_not_lexeme lexeme_minus by (auto simp: list_all_iff)
qed

theorem tokenizer_tokens_witness:
  "\<exists>us. [''sub'', ''5'', ''-'', ''1'', ''EOL'', ''EOF''] = us @ [''EOF''] \<and> list_all lexeme us \<and>
    '':'' \<notin> set [''sub'', ''5'', ''-'', ''1'', ''EOL'', ''EOF''] \<and>
    (\<forall>t \<in> set [''sub'', ''5'', ''-'', ''1'', ''EOL'', ''EOF'']. hd t = CHR ''-'' \<longrightarrow> t = ''-'')"
proof -
  have "tokenize ''sub 5-1'' = Inr [''sub'', ''5'', ''-'', ''1'', ''EOL'', ''EOF'']" by code_simp
  then show ?thesis by (rule tokenizer_tokens)
qed

text \<open>C20: Printing tokens and tokenizing the text again gives the tokens back: each line's
  tokens, \<open>EOL\<close> after each line, and the final \<open>EOF\<close>.\<close>

theorem tokenize_print:
  assumes "list_all (list_all (\<lambda>t. lexeme t \<and> newline \<notin> set t)) ls"
  shows "tokenize (print_lines ls) = Inr (concat (map (\<lambda>l. l @ [''EOL'']) ls) @ [''EOF''])"
proof -
  from assms have lx: "list_all (list_all lexeme) ls" and nl: "list_all (list_all (\<lambda>t. newline \<notin> set t)) ls"
    by (auto simp: list_all_iff)
  show ?thesis
    using tokenize_lex [of "print_lines ls"] lex_lines_spaced [OF lx, of 0]
    by (simp add: lines_of_print_lines [OF nl])
qed

theorem tokenize_print_witness:
  "tokenize (print_lines [[''.section'', ''text''], [''inc'', ''b'']]) =
   Inr (concat (map (\<lambda>l. l @ [''EOL'']) [[''.section'', ''text''], [''inc'', ''b'']]) @ [''EOF''])"
  by (rule tokenize_print)
    (simp add: lexeme_def is_word_def word_char_def char_class_defs)

text \<open>C26: Every line is tokenized in finitely many steps: each step of the state machine that
  does not throw decreases a measure that is at most five times the length of the line plus four.\<close>

theorem tokenizer_terminates:
  assumes "t_state s \<noteq> END_LINE" and "tok_step line s = Inr s'"
  shows "tok_measure line s' < tok_measure line s \<and> tok_measure line s \<le> 5 * length line + 4"
  using tok_step_decreases [OF assms] tok_rank_le [of line s] by (simp add: tok_measure_def)

theorem tokenizer_terminates_witness:
  "tok_measure ''nop'' (tok_init\<lparr>t_state := START_TOKEN\<rparr>) < tok_measure ''nop'' tok_init \<and>
   tok_measure ''nop'' tok_init \<le> 5 * length ''nop'' + 4"
  by (rule tokenizer_terminates) (simp_all add: tok_init_def tok_step_def char_at_def)

end
