(* ===== verification/Elf_Writer.thy ===== *)
theory Elf_Writer
  imports Elf_Objects
begin

text \<open>
  Serialisation, \<open>class ELFWriter\<close> of \<open>include/elf_writer.hpp\<close> and \<open>src/elf_writer.cpp\<close>.
  The writer fills out headers in the object it writes and leaves them there, in the byte
  order of the file: \<open>write\<close> is an operation on the object that returns the bytes sent to
  the stream. \<open>off_t\<close> is a 64-bit integer. What follows the definitions is the layout of
  the file: where each header and each section is, and what a reader of the big-endian
  file finds in them.
\<close>

definition null_Shdr :: Elf32_Shdr where
  "null_Shdr = \<lparr>sh_name = 0, sh_type = 0, sh_flags = 0, sh_addr = 0, sh_offset = 0, sh_size = 0,
     sh_link = 0, sh_info = 0, sh_addralign = 0, sh_entsize = 0\<rparr>"

definition fill_elf_header :: "ISection list \<Rightarrow> Elf32_Ehdr \<Rightarrow> Elf32_Ehdr" where
  "fill_elf_header sections hdr =
     hdr\<lparr>e_shoff := of_nat sizeof_Ehdr,
         e_shnum := of_nat (length sections),
         e_shstrndx := of_nat (find_if (\<lambda>s. sh_type (s_header s) = SHT_STRTAB) sections + 1)\<rparr>"

definition fill_section_header :: "u32 \<Rightarrow> u64 \<Rightarrow> ISection \<Rightarrow> Elf32_Shdr" where
  "fill_section_header nm offs s =
     (s_header s)\<lparr>sh_name := nm, sh_size := ucast (section_size s), sh_offset := ucast offs\<rparr>"

fun write_section_headers :: "u32 \<Rightarrow> u64 \<Rightarrow> ISection list \<Rightarrow> ISection list \<times> u8 list" where
  "write_section_headers nm offs [] = ([], [])"
| "write_section_headers nm offs (s # ss) =
     (let hdr = swap_section_header (fill_section_header nm offs s);
          (ss', bytes) = write_section_headers (nm + of_nat (length (s_name s)) + 1) (offs + section_size s) ss
      in (s\<lparr>s_header := hdr\<rparr> # ss', Shdr_bytes hdr @ bytes))"

definition write_stream :: "u8 list elf_op" where
  "write_stream e =
     (let hdr = swap_elf_header (fill_elf_header (elf_sections e) (elf_header e));
          offs = of_nat sizeof_Ehdr + of_nat (length (elf_sections e)) * of_nat sizeof_Shdr + of_nat sizeof_Shdr;
          (ss, bytes) = write_section_headers 1 offs (elf_sections e)
      in (Inr (Ehdr_bytes hdr @ Shdr_bytes null_Shdr @ bytes @ concat (map section_write ss)),
          e\<lparr>elf_header := hdr, elf_sections := ss\<rparr>))"

text \<open>\<open>write(path)\<close>: whether the path can be opened for writing is the file system's part.\<close>

definition write_path :: "(string \<Rightarrow> bool) \<Rightarrow> string \<Rightarrow> u8 list elf_op" where
  "write_path opens path =
     (if \<not> opens path then sthrow (ELFException (''Failed to open '' @ path)) else write_stream)"

section \<open>The headers that are written\<close>

definition name_offset :: "ISection list \<Rightarrow> nat \<Rightarrow> nat" where
  "name_offset ss i = 1 + (\<Sum>s \<leftarrow> take i ss. length (s_name s) + 1)"

definition data_offset :: "ISection list \<Rightarrow> nat \<Rightarrow> nat" where
  "data_offset ss i = sizeof_Ehdr + sizeof_Shdr * (length ss + 1) + length (concat (map section_write (take i ss)))"

definition written_header :: "ISection list \<Rightarrow> nat \<Rightarrow> Elf32_Shdr" where
  "written_header ss i =
     (s_header (ss ! i))
       \<lparr>sh_name := of_nat (name_offset ss i),
        sh_size := of_nat (length (section_write (ss ! i))),
        sh_offset := of_nat (data_offset ss i)\<rparr>"

definition header_table :: "ISection list \<Rightarrow> Elf32_Shdr list" where
  "header_table ss = null_Shdr # map (written_header ss) [0 ..< length ss]"

lemma write_section_headers_run:
  "write_section_headers nm offs ss =
     (let h = (\<lambda>i. swap_section_header ((s_header (ss ! i))
            \<lparr>sh_name := nm + of_nat (\<Sum>s \<leftarrow> take i ss. length (s_name s) + 1),
             sh_size := of_nat (length (section_write (ss ! i))),
             sh_offset := ucast offs + of_nat (length (concat (map section_write (take i ss))))\<rparr>))
      in (map (\<lambda>i. (ss ! i)\<lparr>s_header := h i\<rparr>) [0 ..< length ss],
          concat (map (\<lambda>i. Shdr_bytes (h i)) [0 ..< length ss])))"
proof (induction ss arbitrary: nm offs)
  case Nil
  then show ?case by simp
next
  case (Cons s ss)
  show ?case
    unfolding length_Cons map_upt_Suc write_section_headers.simps Cons.IH
    by (simp add: Let_def fill_section_header_def section_size_low ucast_plus add.assoc add.left_commute)
qed

definition written_sections :: "ISection list \<Rightarrow> ISection list" where
  "written_sections ss =
     map (\<lambda>i. (ss ! i)\<lparr>s_header := swap_section_header (written_header ss i)\<rparr>) [0 ..< length ss]"

lemma write_headers_file:
  "write_section_headers 1
     (of_nat sizeof_Ehdr + of_nat (length ss) * of_nat sizeof_Shdr + of_nat sizeof_Shdr) ss =
   (written_sections ss,
    concat (map (\<lambda>i. Shdr_bytes (swap_section_header (written_header ss i))) [0 ..< length ss]))"
proof -
  have offs: "(of_nat sizeof_Ehdr + of_nat (length ss) * of_nat sizeof_Shdr + of_nat sizeof_Shdr :: u64) =
      of_nat (sizeof_Ehdr + sizeof_Shdr * (length ss + 1))"
    by simp
  show ?thesis
    unfolding write_section_headers_run offs ucast_of_nat
    by (simp add: Let_def written_header_def name_offset_def data_offset_def written_sections_def)
qed

lemma section_write_header [simp]: "section_write (s\<lparr>s_header := h\<rparr>) = section_write s"
  by (simp add: section_write_def)

lemma written_sections_write [simp]:
  "concat (map section_write (written_sections ss)) = concat (map section_write ss)"
proof -
  have "map section_write (written_sections ss) = map section_write (map (\<lambda>i. ss ! i) [0 ..< length ss])"
    by (simp add: written_sections_def)
  then show ?thesis by (simp only: map_nth)
qed

section \<open>The file\<close>

definition file_header :: "ELF \<Rightarrow> Elf32_Ehdr" where
  "file_header e = fill_elf_header (elf_sections e) (elf_header e)"

lemma null_Shdr_swap [simp]: "swap_section_header null_Shdr = null_Shdr"
  by (simp add: swap_section_header_def null_Shdr_def swap32_def u32_bytes_def)

lemma write_stream_file:
  "write_stream e =
     (Inr (Ehdr_bytes (swap_elf_header (file_header e)) @
        concat (map (\<lambda>h. Shdr_bytes (swap_section_header h)) (header_table (elf_sections e))) @
        concat (map section_write (elf_sections e))),
      e\<lparr>elf_header := swap_elf_header (file_header e), elf_sections := written_sections (elf_sections e)\<rparr>)"
  unfolding write_stream_def Let_def write_headers_file
  by (simp add: file_header_def header_table_def o_def)

section \<open>What a reader of the file finds\<close>

definition file_bytes :: "ELF \<Rightarrow> u8 list" where
  "file_bytes e = Ehdr_bytes (swap_elf_header (file_header e)) @
     concat (map (\<lambda>h. Shdr_bytes (swap_section_header h)) (header_table (elf_sections e))) @
     concat (map section_write (elf_sections e))"

lemma write_stream_bytes: "fst (write_stream e) = Inr (file_bytes e)"
  by (simp add: write_stream_file file_bytes_def)

definition ident_ok :: "ELF \<Rightarrow> bool" where
  "ident_ok e \<longleftrightarrow> valid_Ehdr (elf_header e)"

lemma file_header_valid: "ident_ok e \<Longrightarrow> valid_Ehdr (file_header e)"
  by (simp add: ident_ok_def valid_Ehdr_def file_header_def fill_elf_header_def)

lemma length_header_table [simp]: "length (header_table ss) = length ss + 1"
  by (simp add: header_table_def)

text \<open>The ELF header and the section headers, decoded as big-endian structures.\<close>

lemma file_elf_header:
  "ident_ok e \<Longrightarrow> swap_elf_header (bytes_Ehdr (file_bytes e)) = file_header e"
  unfolding file_bytes_def by (simp add: ehdr.swapped.dec_enc file_header_valid)

lemma drop_file_header:
  assumes "ident_ok e"
  shows "drop (sizeof_Ehdr + n) (file_bytes e) =
    drop n (concat (map (\<lambda>h. Shdr_bytes (swap_section_header h)) (header_table (elf_sections e))) @
      concat (map section_write (elf_sections e)))"
proof -
  have "length (Ehdr_bytes (swap_elf_header (file_header e))) = sizeof_Ehdr"
    by (rule ehdr.swapped.length_enc [OF file_header_valid [OF assms]])
  then show ?thesis unfolding file_bytes_def by simp
qed

lemma file_section_header:
  assumes "ident_ok e" and "i \<le> length (elf_sections e)"
  shows "swap_section_header (bytes_Shdr (drop (sizeof_Ehdr + sizeof_Shdr * i) (file_bytes e))) =
    header_table (elf_sections e) ! i"
  unfolding drop_file_header [OF assms(1)]
  by (rule shdr.swapped.table_entry) (use assms(2) in \<open>simp_all add: list_all_iff\<close>)

lemma length_headers:
  "length (concat (map (\<lambda>h. Shdr_bytes (swap_section_header h)) (header_table ss))) =
     sizeof_Shdr * (length ss + 1)"
  using shdr.swapped.length_table [of "header_table ss"] by (simp add: list_all_iff)

lemma file_section:
  assumes "ident_ok e" and "i < length (elf_sections e)"
  shows "take (length (section_write (elf_sections e ! i))) (drop (data_offset (elf_sections e) i) (file_bytes e)) =
    section_write (elf_sections e ! i)"
proof -
  let ?ss = "elf_sections e"
  have "drop (data_offset ?ss i) (file_bytes e) =
      drop (length (concat (map section_write (take i ?ss)))) (concat (map section_write ?ss))"
    unfolding data_offset_def add.assoc drop_file_header [OF assms(1)]
    using length_headers [of ?ss] by simp
  then show ?thesis using concat_part [OF assms(2), of section_write] by simp
qed

lemma length_file:
  "ident_ok e \<Longrightarrow> length (file_bytes e) =
     sizeof_Ehdr + sizeof_Shdr * (length (elf_sections e) + 1) + length (concat (map section_write (elf_sections e)))"
  unfolding file_bytes_def
  by (simp only: length_append length_headers ehdr.swapped.length_enc [OF file_header_valid] add.assoc)

lemma section_inside:
  assumes "ident_ok e" and "i < length (elf_sections e)"
  shows "data_offset (elf_sections e) i + length (section_write (elf_sections e ! i)) \<le> length (file_bytes e)"
proof -
  have "length (concat (map section_write (elf_sections e))) =
      length (concat (map section_write (take i (elf_sections e)))) +
      length (section_write (elf_sections e ! i)) +
      length (concat (map section_write (drop (Suc i) (elf_sections e))))"
    unfolding concat_split [OF assms(2), of section_write] by simp
  then show ?thesis
    by (simp add: length_file [OF assms(1)] data_offset_def)
qed

text \<open>The names: in a well-formed object the name table's bytes spell each name at its offset.\<close>

lemma name_offset_bytes:
  "name_offset ss i = length (concat (map c_bytes (take (Suc i) ([] # map s_name ss))))"
proof -
  have "length (concat (map c_bytes (map s_name xs))) = (\<Sum>s \<leftarrow> xs. length (s_name s) + 1)" for xs :: "ISection list"
    by (induction xs) simp_all
  from this [of "take i ss"] show ?thesis by (simp add: name_offset_def take_map)
qed

lemma section_name_bytes:
  assumes "elf_wf e" and "i < length (elf_sections e)"
  shows "take (length (s_name (elf_sections e ! i)) + 1)
      (drop (name_offset (elf_sections e) i) (section_write (elf_sections e ! shstrtab_idx e))) =
    c_bytes (s_name (elf_sections e ! i))"
proof -
  let ?strings = "[] # map s_name (elf_sections e)"
  have "section_write (elf_sections e ! shstrtab_idx e) = concat (map c_bytes ?strings)"
    using elf_wfD(7) [OF assms(1)] by (simp add: section_write_def)
  moreover have "?strings ! Suc i = s_name (elf_sections e ! i)" using assms(2) by simp
  ultimately show ?thesis
    using concat_part [of "Suc i" ?strings c_bytes] assms(2) by (simp only: name_offset_bytes length_c_bytes) simp
qed

section \<open>Files of the program's objects\<close>

lemma reachable_frame:
  assumes "reachable junk e"
  shows "elf_header e = ELF_initial_header junk" and "shstrtab_idx e = 0"
    and "map section_frame (elf_sections e) =
     [(''shstrtab'', ST_STRTAB, SHT_STRTAB), (''strtab'', ST_STRTAB, SHT_STRTAB),
      (''data'', ST_PROGBITS, SHT_PROGBITS), (''rodata'', ST_PROGBITS, SHT_PROGBITS),
      (''bss'', ST_PROGBITS, SHT_NOBITS), (''text'', ST_PROGBITS, SHT_PROGBITS),
      (''init'', ST_PROGBITS, SHT_PROGBITS), (''symtab'', ST_SYMTAB, SHT_SYMTAB)]"
  using reachable_keeps [OF assms] unfolding frame_new by (simp_all add: frame_def)

lemma reachable_sections:
  assumes "reachable junk e"
  shows "length (elf_sections e) = 8"
    and "find_if (\<lambda>s. sh_type (s_header s) = SHT_STRTAB) (elf_sections e) = 0"
    and "ident_ok e" and "elf_wf e"
proof -
  note fr = reachable_frame [OF assms]
  show "length (elf_sections e) = 8"
    using arg_cong [OF fr(3), of length] by simp
  obtain s ss where e: "elf_sections e = s # ss" and "section_frame s = (''shstrtab'', ST_STRTAB, SHT_STRTAB)"
    using fr(3) by (cases "elf_sections e") simp_all
  then show "find_if (\<lambda>s. sh_type (s_header s) = SHT_STRTAB) (elf_sections e) = 0"
    by (simp add: find_if_def section_frame_def)
  show "ident_ok e" by (simp add: ident_ok_def valid_Ehdr_def fr(1) ELF_initial_header_def ELF_IDENT_def)
  show "elf_wf e" using reachable_keeps [OF assms] by (simp add: object_inv_def)
qed

lemma unat_small: "n < 2 ^ 32 \<Longrightarrow> unat (of_nat n :: u32) = n"
  by (simp add: unat_of_nat take_bit_nat_eq_self)

lemma written_header_fields:
  assumes "ident_ok e" and "i < length (elf_sections e)" and "length (file_bytes e) < 2 ^ 32"
  shows "unat (sh_offset (written_header (elf_sections e) i)) = data_offset (elf_sections e) i"
    and "unat (sh_size (written_header (elf_sections e) i)) = length (section_write (elf_sections e ! i))"
  using section_inside [OF assms(1,2)] assms(3) by (simp_all add: written_header_def unat_small)

lemma name_offset_bound:
  assumes "elf_wf e" and "i < length (elf_sections e)"
  shows "name_offset (elf_sections e) i + (length (s_name (elf_sections e ! i)) + 1) \<le>
    length (section_write (elf_sections e ! shstrtab_idx e))"
  using arg_cong [OF section_name_bytes [OF assms], of length] by simp

text \<open>Each section name is in the name table, which is the first section, at the offset of its header.\<close>

lemma section_name_at:
  assumes "reachable junk e" and "i < length (elf_sections e)" and "length (file_bytes e) < 2 ^ 32"
  shows "unat (sh_name (written_header (elf_sections e) i)) = name_offset (elf_sections e) i"
    and "take (length (s_name (elf_sections e ! i)) + 1)
      (drop (data_offset (elf_sections e) 0 + name_offset (elf_sections e) i) (file_bytes e)) =
    c_bytes (s_name (elf_sections e ! i))"
proof -
  let ?ss = "elf_sections e" and ?nm = "s_name (elf_sections e ! i)"
  note ok = reachable_sections(3) [OF assms(1)] and wf = reachable_sections(4) [OF assms(1)]
  have zero: "0 < length ?ss" "shstrtab_idx e = 0"
    using reachable_sections(1) [OF assms(1)] reachable_frame(2) [OF assms(1)] by simp_all
  note bound = name_offset_bound [OF wf assms(2), unfolded zero(2)]
  have "length (section_write (?ss ! 0)) < 2 ^ 32"
    using section_inside [OF ok zero(1)] assms(3) by simp
  then show "unat (sh_name (written_header ?ss i)) = name_offset ?ss i"
    using bound by (simp add: written_header_def unat_small)
  have "take (length ?nm + 1) (drop (name_offset ?ss i) (drop (data_offset ?ss 0) (file_bytes e))) =
      take (length ?nm + 1) (drop (name_offset ?ss i) (take (length (section_write (?ss ! 0))) (drop (data_offset ?ss 0) (file_bytes e))))"
    using bound by (simp add: drop_take min_def)
  also have "\<dots> = c_bytes ?nm"
    using section_name_bytes [OF wf assms(2), unfolded zero(2)] by (simp add: file_section [OF ok zero(1)])
  finally show "take (length ?nm + 1) (drop (data_offset ?ss 0 + name_offset ?ss i) (file_bytes e)) = c_bytes ?nm"
    by (simp add: add.commute)
qed

lemma new_file_small: "length (file_bytes (new_object 0)) < 2 ^ 32"
proof -
  have "ident_ok (new_object 0)" by (rule reachable_sections(3) [OF reachable_new])
  then show ?thesis
    by (simp add: length_file) (simp add: new_object_def initial_sections_def make_section_defs
        section_write_def Sym_bytes_def)
qed

section \<open>Properties\<close>

text \<open>C38: Writing is not repeatable: \<open>write\<close> leaves the byte-swapped headers in the object, so
  that a second \<open>write\<close> of the same object produces a different file.\<close>

theorem second_write_differs:
  assumes "reachable junk e"
  shows "fst (write_stream (snd (write_stream e))) \<noteq> fst (write_stream e)"
proof
  let ?e' = "snd (write_stream e)"
  assume eq: "fst (write_stream ?e') = fst (write_stream e)"
  note ok = reachable_sections [OF assms]
  have hdr: "elf_header ?e' = swap_elf_header (file_header e)" by (simp add: write_stream_file)
  have ok': "ident_ok ?e'"
    using ehdr.valid_swap [OF file_header_valid [OF ok(3)]] by (simp add: ident_ok_def hdr)
  from eq have "file_bytes ?e' = file_bytes e" by (simp add: write_stream_bytes)
  then have "file_header ?e' = file_header e"
    using file_elf_header [OF ok'] file_elf_header [OF ok(3)] by simp
  then have "e_type (file_header ?e') = e_type (file_header e)" by simp
  then have "swap16 ET_REL = (ET_REL :: u16)"
    using reachable_frame(1) [OF assms]
    by (simp add: file_header_def fill_elf_header_def hdr swap_elf_header_def ELF_initial_header_def)
  then show False by (simp add: swap16_def u16_bytes_def)
qed

theorem second_write_differs_witness:
  "fst (write_stream (snd (write_stream (new_object 0)))) \<noteq> fst (write_stream (new_object 0))"
  by (rule second_write_differs [OF reachable_new])

end
