(* ===== verification/Driver.thy ===== *)
theory Driver
  imports Assembler_Spec Grammar Lexer_Spec Elf_Writer
begin

text \<open>
  The program, \<open>src/main.cpp\<close>: options, and the pipeline from a source file to \<open>a.out\<close>.
  What lies outside is a parameter: \<open>getopt\<close> is the run of \<open>getopt_long\<close> on the
  arguments, the codes that it returns before \<open>-1\<close> (a long option is code 0 with its index),
  the arguments as it leaves them (it moves the others behind the options) and the final
  \<open>optind\<close>; \<open>files\<close> are the readable files with their contents; \<open>opens\<close>
  tells which paths can be opened for writing. An exception is caught nowhere and ends the
  program; \<open>Null_argument\<close> is the use of a null pointer as a string. A result has the two
  streams as the program leaves them, without what \<open>getopt_long\<close> and the termination by an
  exception write on their own.
\<close>

datatype getopt_code = Long_option nat | Short_option char

datatype outcome =
    Returned int
  | Tokenizer_failed TokenizerException
  | Parser_failed parser_error
  | Assembler_failed asm_error
  | Writer_failed elf_error
  | Null_argument

record main_result =
  m_outcome :: outcome
  m_stdout :: string
  m_stderr :: string
  m_file :: "u8 list option"

text \<open>\<open>class InputFile\<close>. Nothing can be read from a stream that is not open.\<close>

record InputFile =
  filename :: string
  f_stream :: "string option"

definition make_InputFile :: "(string \<rightharpoonup> string) \<Rightarrow> string \<Rightarrow> InputFile" where
  "make_InputFile files name = \<lparr>filename = name, f_stream = files name\<rparr>"

definition InputFile_exists :: "InputFile \<Rightarrow> bool" where
  "InputFile_exists infile \<longleftrightarrow> f_stream infile \<noteq> None"

definition InputFile_stream :: "InputFile \<Rightarrow> string" where
  "InputFile_stream infile = (case f_stream infile of None \<Rightarrow> [] | Some text \<Rightarrow> text)"

definition USAGE :: string where
  "USAGE = '' <input file>''"

definition long_options :: "string list" where
  "long_options = [''tokenize'', ''parse'']"

definition selects :: "string \<Rightarrow> char \<Rightarrow> getopt_code \<Rightarrow> bool" where
  "selects long short code =
     (case code of
        Long_option i \<Rightarrow> i < length long_options \<and> long_options ! i = long
      | Short_option c \<Rightarrow> c = short)"

text \<open>The loop over the options: the two flags, or \<open>None\<close> as soon as both are set.\<close>

fun option_loop :: "getopt_code list \<Rightarrow> bool \<Rightarrow> bool \<Rightarrow> (bool \<times> bool) option" where
  "option_loop [] tokenize_only parse_only = Some (tokenize_only, parse_only)"
| "option_loop (c # cs) tokenize_only parse_only =
     (let tokenize_only = (tokenize_only \<or> selects ''tokenize'' CHR ''t'' c);
          parse_only = (parse_only \<or> selects ''parse'' CHR ''p'' c)
      in if tokenize_only \<and> parse_only then None else option_loop cs tokenize_only parse_only)"

definition exit_with :: "outcome \<Rightarrow> string \<Rightarrow> main_result" where
  "exit_with r err = \<lparr>m_outcome = r, m_stdout = [], m_stderr = err, m_file = None\<rparr>"

definition print_tokens :: "TokenList \<Rightarrow> string" where
  "print_tokens ts = concat (map (\<lambda>t. t @ [newline]) ts)"

text \<open>What the macro \<open>ELF_EXCEPTION\<close> of \<open>src/elf.cpp\<close> writes before it throws. The other exceptions
  of an object are those of the library.\<close>

definition elf_report :: "elf_error \<Rightarrow> string" where
  "elf_report x = (case x of ELFException msg \<Rightarrow> msg @ [newline] | _ \<Rightarrow> [])"

definition asm_report :: "asm_error \<Rightarrow> string" where
  "asm_report x = (case x of elf_failure y \<Rightarrow> elf_report y | _ \<Rightarrow> [])"

definition assemble_and_write :: "u16 \<Rightarrow> (string \<Rightarrow> bool) \<Rightarrow> BaseNode \<Rightarrow> main_result" where
  "assemble_and_write junk opens root =
     (case ELF_new junk of
        Inl x \<Rightarrow> exit_with (Writer_failed x) (elf_report x)
      | Inr elf \<Rightarrow>
          (case assemble root elf of
             (Inl x, _) \<Rightarrow> exit_with (Assembler_failed x) (asm_report x)
           | (Inr _, elf) \<Rightarrow>
               (case write_path opens ''a.out'' elf of
                  (Inl x, _) \<Rightarrow> exit_with (Writer_failed x) []
                | (Inr bytes, _) \<Rightarrow> (exit_with (Returned 0) [])\<lparr>m_file := Some bytes\<rparr>)))"

definition run_file :: "u16 \<Rightarrow> (string \<Rightarrow> bool) \<Rightarrow> bool \<Rightarrow> bool \<Rightarrow> string \<Rightarrow> main_result" where
  "run_file junk opens tokenize_only parse_only source =
     (case tokenize source of
        Inl (x, report) \<Rightarrow> exit_with (Tokenizer_failed x) report
      | Inr token_list \<Rightarrow>
          if tokenize_only then (exit_with (Returned 0) [])\<lparr>m_stdout := print_tokens token_list\<rparr>
          else
            (case parse token_list of
               Inl x \<Rightarrow> exit_with (Parser_failed x) []
             | Inr root_node \<Rightarrow>
                 if parse_only then exit_with (Returned 0) []
                 else assemble_and_write junk opens root_node))"

definition main ::
  "(string list \<Rightarrow> getopt_code list \<times> string list \<times> nat) \<Rightarrow> (string \<rightharpoonup> string) \<Rightarrow> (string \<Rightarrow> bool) \<Rightarrow> u16 \<Rightarrow>
   string list \<Rightarrow> main_result" where
  "main getopt files opens junk argv =
     (if length argv < 2 then
        (case argv of
           [] \<Rightarrow> exit_with Null_argument []
         | name # _ \<Rightarrow> exit_with (Returned (- 1)) (name @ USAGE @ [newline]))
      else
        let (codes, argv, optind) = getopt argv in
        case option_loop codes False False of
          None \<Rightarrow> exit_with (Returned 1) (''Only one of --tokenize and --parse may be specified'' @ [newline])
        | Some (tokenize_only, parse_only) \<Rightarrow>
            if length argv \<le> optind then exit_with Null_argument []
            else
              let infile = make_InputFile files (argv ! optind) in
              if \<not> InputFile_exists infile then exit_with (Returned (- 1)) (''Input file does not exist'' @ [newline])
              else run_file junk opens tokenize_only parse_only (InputFile_stream infile))"

section \<open>The options\<close>

lemma option_loop_Some:
  "option_loop cs t p = Some (t', p') \<Longrightarrow>
     t' = (t \<or> list_ex (selects ''tokenize'' CHR ''t'') cs) \<and> p' = (p \<or> list_ex (selects ''parse'' CHR ''p'') cs)"
  by (induction cs t p rule: option_loop.induct) (auto simp: Let_def split: if_splits)

lemma option_loop_None:
  "\<not> (t \<and> p) \<Longrightarrow> option_loop cs t p = None \<longleftrightarrow>
     (t \<or> list_ex (selects ''tokenize'' CHR ''t'') cs) \<and> (p \<or> list_ex (selects ''parse'' CHR ''p'') cs)"
proof (induction cs t p rule: option_loop.induct)
  case (1 t p)
  then show ?case by simp
next
  case (2 c cs t p)
  let ?t = "t \<or> selects ''tokenize'' CHR ''t'' c" and ?p = "p \<or> selects ''parse'' CHR ''p'' c"
  show ?case
  proof (cases "?t \<and> ?p")
    case True
    then show ?thesis by auto
  next
    case False
    from "2.IH" [OF refl refl False False] False show ?thesis by (simp add: Let_def) auto
  qed
qed

section \<open>Runs of the program\<close>

lemma selected_options:
  "option_loop cs False False =
     (let t = list_ex (selects ''tokenize'' CHR ''t'') cs; p = list_ex (selects ''parse'' CHR ''p'') cs
      in if t \<and> p then None else Some (t, p))"
  using option_loop_None [of False False cs] option_loop_Some [of cs False False]
  by (cases "option_loop cs False False") (auto simp: Let_def)

text \<open>\<open>main\<close> without the loop and the file object.\<close>

lemma main_cases:
  "main getopt files opens junk argv =
     (if length argv < 2
      then (if argv = [] then exit_with Null_argument [] else exit_with (Returned (- 1)) (hd argv @ USAGE @ [newline]))
      else
        let (codes, args, i) = getopt argv;
            t = list_ex (selects ''tokenize'' CHR ''t'') codes; p = list_ex (selects ''parse'' CHR ''p'') codes
        in if t \<and> p then exit_with (Returned 1) (''Only one of --tokenize and --parse may be specified'' @ [newline])
           else if length args \<le> i then exit_with Null_argument []
           else
             (case files (args ! i) of
                None \<Rightarrow> exit_with (Returned (- 1)) (''Input file does not exist'' @ [newline])
              | Some source \<Rightarrow> run_file junk opens t p source))"
  by (auto simp: main_def selected_options make_InputFile_def InputFile_exists_def InputFile_stream_def Let_def
      split: list.split prod.split option.split)

text \<open>Which option codes select a mode.\<close>

lemma option_codes:
  "list_ex (selects ''tokenize'' CHR ''t'') codes \<longleftrightarrow> Long_option 0 \<in> set codes \<or> Short_option CHR ''t'' \<in> set codes"
  "list_ex (selects ''parse'' CHR ''p'') codes \<longleftrightarrow> Long_option 1 \<in> set codes \<or> Short_option CHR ''p'' \<in> set codes"
proof -
  have "selects ''tokenize'' CHR ''t'' c \<longleftrightarrow> c \<in> {Long_option 0, Short_option CHR ''t''}"
    "selects ''parse'' CHR ''p'' c \<longleftrightarrow> c \<in> {Long_option 1, Short_option CHR ''p''}" for c
    by (auto simp: selects_def long_options_def less_Suc_eq split: getopt_code.split)
  then show "list_ex (selects ''tokenize'' CHR ''t'') codes \<longleftrightarrow> Long_option 0 \<in> set codes \<or> Short_option CHR ''t'' \<in> set codes"
    "list_ex (selects ''parse'' CHR ''p'') codes \<longleftrightarrow> Long_option 1 \<in> set codes \<or> Short_option CHR ''p'' \<in> set codes"
    by (auto simp: list_ex_iff)
qed

text \<open>The runs that end after a stage.\<close>

lemma run_file_tokens:
  "case lex_lines 0 (lines_of source) of
     Inl (n, col) \<Rightarrow> (\<exists>x. run_file junk opens True p source = exit_with (Tokenizer_failed x) (fault_report (lines_of source ! n) n col))
   | Inr ts \<Rightarrow> run_file junk opens True p source =
       (exit_with (Returned 0) [])\<lparr>m_stdout := concat (map (\<lambda>t. t @ [newline]) (ts @ [''EOF'']))\<rparr>"
  using tokenize_lex [of source] by (auto simp: run_file_def print_tokens_def split: sum.splits prod.splits)

lemma run_file_parses:
  "m_stdout (run_file junk opens False True source) = [] \<and> m_file (run_file junk opens False True source) = None \<and>
   (m_outcome (run_file junk opens False True source) = Returned 0 \<longleftrightarrow>
      (\<exists>ts ns. lex_lines 0 (lines_of source) = Inr ts \<and> g_program (ts @ [''EOF'']) ns))"
proof (cases "lex_lines 0 (lines_of source)")
  case (Inl q)
  with tokenize_lex [of source] show ?thesis by (cases q) (auto simp: run_file_def exit_with_def)
next
  case (Inr ts)
  with tokenize_lex [of source] have tok: "tokenize source = Inr (ts @ [''EOF''])" by simp
  show ?thesis
    using Inr parse_iff_grammar [of "ts @ [''EOF'']"]
    by (cases "parse (ts @ [''EOF''])") (auto simp: run_file_def exit_with_def tok)
qed

section \<open>Properties\<close>

text \<open>C8: What the command line leads to. Without an argument the program prints its usage. Otherwise a mode is selected if
  its option occurs anywhere among the options, as the long option of this index or as the short
  one, in any order and number. Both modes together are refused, before the file is looked at; without a file name the null pointer at
  the end of the arguments is taken for one; a file that cannot be opened is refused. \<open>--tokenize\<close> prints the tokens of
  the reference lexer, one in a line, up to \<open>EOF\<close>, or the report of the lexical error; \<open>--parse\<close> prints nothing and returns 0
  exactly for the texts of the grammar; neither writes a file. Without an option the file is compiled.\<close>

theorem main_options:
  assumes "getopt argv = (codes, args, i)"
  shows "let t = (Long_option 0 \<in> set codes \<or> Short_option CHR ''t'' \<in> set codes);
      p = (Long_option 1 \<in> set codes \<or> Short_option CHR ''p'' \<in> set codes);
      r = main getopt files opens junk argv;
      ends = (\<lambda>code err. \<lparr>m_outcome = Returned code, m_stdout = [], m_stderr = err @ [newline], m_file = None\<rparr>)
    in (\<forall>name. argv = [name] \<longrightarrow> r = ends (- 1) (name @ '' <input file>'')) \<and>
      (2 \<le> length argv \<longrightarrow>
        (t \<and> p \<longrightarrow> r = ends 1 ''Only one of --tokenize and --parse may be specified'') \<and>
        (\<not> (t \<and> p) \<and> length args \<le> i \<longrightarrow> m_outcome r = Null_argument \<and> m_file r = None) \<and>
        (\<not> (t \<and> p) \<and> i < length args \<and> files (args ! i) = None \<longrightarrow> r = ends (- 1) ''Input file does not exist'') \<and>
        (\<forall>source. i < length args \<and> files (args ! i) = Some source \<longrightarrow>
          (t \<and> \<not> p \<longrightarrow>
            (case lex_lines 0 (lines_of source) of
               Inr ts \<Rightarrow> r = \<lparr>m_outcome = Returned 0, m_stdout = concat (map (\<lambda>t. t @ [newline]) (ts @ [''EOF''])),
                 m_stderr = [], m_file = None\<rparr>
             | Inl (n, col) \<Rightarrow> m_outcome r \<noteq> Returned 0 \<and> m_stdout r = [] \<and>
                 m_stderr r = fault_report (lines_of source ! n) n col \<and> m_file r = None)) \<and>
          (\<not> t \<and> p \<longrightarrow> m_stdout r = [] \<and> m_file r = None \<and>
            (m_outcome r = Returned 0 \<longleftrightarrow>
               (\<exists>ts ns. lex_lines 0 (lines_of source) = Inr ts \<and> g_program (ts @ [''EOF'']) ns))) \<and>
          (\<not> t \<and> \<not> p \<longrightarrow> r = run_file junk opens False False source)))"
proof -
  let ?t = "list_ex (selects ''tokenize'' CHR ''t'') codes" and ?p = "list_ex (selects ''parse'' CHR ''p'') codes"
  let ?r = "main getopt files opens junk argv"
  have late: "?r = (if ?t \<and> ?p
       then exit_with (Returned 1) (''Only one of --tokenize and --parse may be specified'' @ [newline])
       else if length args \<le> i then exit_with Null_argument []
       else (case files (args ! i) of
           None \<Rightarrow> exit_with (Returned (- 1)) (''Input file does not exist'' @ [newline])
         | Some source \<Rightarrow> run_file junk opens ?t ?p source))" if "2 \<le> length argv"
    using that by (simp only: main_cases assms Let_def prod.case) simp
  have usage: "?r = exit_with (Returned (- 1)) (name @ '' <input file>'' @ [newline])" if "argv = [name]" for name
    using that by (simp add: main_cases USAGE_def)
  show ?thesis
    unfolding Let_def option_codes [symmetric]
  proof (intro conjI impI allI, goal_cases)
    case (6 source)
    with late run_file_tokens [where source = source and junk = junk and opens = opens and p = False] show ?case
      by (cases "lex_lines 0 (lines_of source)") (auto simp: exit_with_def)
  qed (use late usage run_file_parses [where junk = junk and opens = opens] in \<open>simp_all add: exit_with_def\<close>)
qed

theorem main_options_witness:
  "main (\<lambda>argv. ([Long_option 0], argv, 2)) [''a.s'' \<mapsto> ''nop''] (\<lambda>_. True) 0 [''gbas'', ''--tokenize'', ''a.s''] =
     \<lparr>m_outcome = Returned 0, m_stdout = ''nop'' @ [newline] @ ''EOL'' @ [newline] @ ''EOF'' @ [newline],
      m_stderr = [], m_file = None\<rparr> \<and>
   m_stderr (main (\<lambda>argv. ([Short_option CHR ''p'', Long_option 0], argv, 3)) Map.empty (\<lambda>_. True) 0
     [''gbas'', ''-p'', ''--tokenize'', ''a.s'']) = ''Only one of --tokenize and --parse may be specified'' @ [newline]"
proof -
  have "lex_lines 0 (lines_of ''nop'') = Inr [''nop'', ''EOL'']" by code_simp
  then show ?thesis
    using main_options [of "\<lambda>argv. ([Long_option 0], argv, 2)" "[''gbas'', ''--tokenize'', ''a.s'']"
        "[Long_option 0]" _ 2 "[''a.s'' \<mapsto> ''nop'']" "\<lambda>_. True" 0]
      main_options [of "\<lambda>argv. ([Short_option CHR ''p'', Long_option 0], argv, 3)" "[''gbas'', ''-p'', ''--tokenize'', ''a.s'']"
        "[Short_option CHR ''p'', Long_option 0]" _ 3 Map.empty "\<lambda>_. True" 0]
    by (simp add: Let_def)
qed

end
