(* ===== verification/Parser_Properties.thy ===== *)
theory Parser_Properties
  imports Grammar Evaluator
begin

text \<open>
  Properties of the parser: it accepts exactly the programs of the grammar, the trees it
  builds have the shape that the instruction table allows, and \<open>std::out_of_range\<close> never
  leaves it when the tokens end with \<open>EOF\<close>, as those of the tokenizer do.
\<close>

section \<open>No access beyond the tokens\<close>

lemma next_token_safe: "peek s \<noteq> '' '' \<Longrightarrow> next_token s \<noteq> Inl x"
  using peek_next_token [of s] by fastforce

lemma parseNumber_safe: "parseNumber t \<noteq> Inl out_of_range"
  by (simp add: parseNumber_def split: option.split)

lemma primary_safe: "primary s \<noteq> Inl out_of_range"
proof -
  consider "isLabel (peek s)" | "isNumber (peek s)" "\<not> isLabel (peek s)"
    | "\<not> isLabel (peek s)" "\<not> isNumber (peek s)" by blast
  then show ?thesis
  proof cases
    case 1
    then have "peek s \<noteq> '' ''" by auto
    with 1 next_token_safe [of s] show ?thesis by (auto simp: primary_def label_def rbind_Inl_iff)
  next
    case 2
    then have "peek s \<noteq> '' ''" by auto
    with 2 next_token_safe [of s] show ?thesis
      by (auto simp: primary_def number_def rbind_Inl_iff parseNumber_safe)
  qed (simp add: primary_def)
qed

lemma unary_safe: "unary s \<noteq> Inl out_of_range"
proof (induction s rule: unary.induct)
  case (1 s)
  show ?case
  proof (cases "peek s \<noteq> [] \<and> peek s ! 0 = CHR ''-''")
    case True
    then have "peek s \<noteq> '' ''" by auto
    then obtain t s1 where "next_token s = Inr (t, s1)" using peek_next_token by blast
    with True "1.IH" show ?thesis unfolding unary.simps [of s] by (auto simp: rbind_Inl_iff)
  next
    case False
    then show ?thesis unfolding unary.simps [of s] using primary_safe by (auto simp: Suc_le_eq)
  qed
qed

context left_assoc
begin

lemma loop_safe:
  assumes "\<And>s. sub s \<noteq> Inl out_of_range" and "\<not> isop '' ''"
  shows "loop left s \<noteq> Inl out_of_range"
proof (induction "remaining s" arbitrary: left s rule: less_induct)
  case less
  show ?case
  proof (cases "isop (peek s)")
    case True
    with assms(2) have "peek s \<noteq> '' ''" by metis
    then obtain t s1 where t: "next_token s = Inr (t, s1)" using peek_next_token by blast
    show ?thesis
    proof (cases "sub s1")
      case (Inl x)
      with t True assms(1) [of s1] show ?thesis by (simp add: loop_step)
    next
      case (Inr r)
      then obtain right s2 where r: "sub s1 = Inr (right, s2)" by (cases r) auto
      then have "remaining s2 < remaining s"
        using nxt.consumes_less [OF t] consumes_less [OF r] by simp
      with less [of s2 "BinaryOp (mk t) left right"] t r True show ?thesis by (simp add: loop_step)
    qed
  qed (simp add: loop_stop)
qed

lemma chain_safe:
  assumes "\<And>s. sub s \<noteq> Inl out_of_range" and "\<not> isop '' ''"
  shows "rbind (sub s) (\<lambda>(left, s1). loop left s1) \<noteq> Inl out_of_range"
  using assms loop_safe [OF assms] by (auto simp: rbind_Inl_iff)

end

lemma multiplication_safe: "multiplication s \<noteq> Inl out_of_range"
  unfolding multiplication_def by (rule mul.chain_safe) (simp_all add: unary_safe)

lemma addition_safe: "addition s \<noteq> Inl out_of_range"
  unfolding addition_def by (rule addl.chain_safe) (simp_all add: multiplication_safe)

lemma operand_safe: "operand s \<noteq> Inl out_of_range"
proof -
  consider (r) "isRegister (peek s)" | (d) "isDRegister (peek s)" "\<not> isRegister (peek s)"
    | (e) "\<not> isRegister (peek s)" "\<not> isDRegister (peek s)" by blast
  then show ?thesis
  proof cases
    case r
    then have "peek s \<noteq> '' ''" by (auto dest: isRegister_not_special)
    with r next_token_safe [of s] show ?thesis
      by (auto simp: operand_def parse_register_def rbind_Inl_iff split: if_splits)
  next
    case d
    then have "peek s \<noteq> '' ''" by (auto dest: isRegister_not_special)
    with d next_token_safe [of s] show ?thesis
      by (auto simp: operand_def dregister_def rbind_Inl_iff split: if_splits)
  next
    case e
    then show ?thesis by (simp add: operand_def addition_safe)
  qed
qed

lemma operands_loop_safe: "operands_loop ops s \<noteq> Inl out_of_range"
proof (induction ops s rule: operands_loop.induct)
  case (1 ops s)
  have "isComma (peek s) \<Longrightarrow> next_token s \<noteq> Inl out_of_range"
    using next_token_safe [of s] by (auto simp: isComma_def)
  with "1.IH" operand_safe [of s] show ?case
    unfolding operands_loop.simps [of ops s] by (auto simp: rbind_Inl_iff)
qed

lemma make_instruction_safe: "make_instruction t ns \<noteq> Inl out_of_range"
  by (simp add: make_instruction_def split: option.split list.split)

lemma instruction_safe: "isInstruction (peek s) \<Longrightarrow> instruction s \<noteq> Inl out_of_range"
  using next_token_safe [of s] isInstruction_facts [of "peek s"]
  by (auto simp: instruction_def rbind_Inl_iff operands_loop_safe make_instruction_safe)

lemma directive_safe:
  assumes "mPos s + 1 < length (mTokens s)"
  shows "directive s \<noteq> Inl out_of_range"
proof -
  let ?t = "mTokens s ! mPos s" and ?s1 = "s\<lparr>mPos := mPos s + 1\<rparr>"
  have "next_token s = Inr (?t, ?s1)" using assms by (simp add: next_token_Inr_iff)
  moreover have "next_token ?s1 \<noteq> Inl out_of_range" using assms by (simp add: next_token_def token_at_def)
  ultimately show ?thesis
    by (auto simp: directive_def findDirective_def directives_def rbind_Inl_iff split: if_splits)
qed

lemma line_safe:
  assumes "mPos s + 1 < length (mTokens s)"
  shows "line s \<noteq> Inl out_of_range"
proof -
  have "peekNext s \<noteq> Inl out_of_range" using assms by (simp add: peekNext_def token_at_def)
  moreover have "label s \<noteq> Inl out_of_range"
    using assms by (simp add: label_def next_token_def token_at_def)
  ultimately show ?thesis
    using directive_safe [OF assms] instruction_safe [of s]
    by (auto simp: line_def Let_def rbind_Inl_iff split: if_splits)
qed

lemma line_at_end: "length (mTokens s) \<le> mPos s \<Longrightarrow> line s = Inl (ParserException ''Invalid token in program'')"
  by (simp add: line_def peek_def isDirective_def isInstruction_def findInstruction_def instructions_def
      iprops_def)

lemma program_loop_safe:
  assumes "mTokens s \<noteq> []" and "last (mTokens s) = ''EOF''"
  shows "program_loop ls s \<noteq> Inl out_of_range"
  using assms
proof (induction "remaining s" arbitrary: ls s rule: less_induct)
  case less
  show ?case
  proof (cases "isEof (peek s)")
    case False
    show ?thesis
    proof (cases "mPos s < length (mTokens s)")
      case True
      then have peek: "peek s = mTokens s ! mPos s" by (simp add: peek_def)
      have "mPos s \<noteq> length (mTokens s) - 1"
        using False less.prems peek by (auto simp: isEof_def last_conv_nth)
      with True have more: "mPos s + 1 < length (mTokens s)" by linarith
      have IH: "program_loop ls' s' \<noteq> Inl out_of_range" if "advances s s'" for ls' s'
        using that less.hyps [OF advances_remaining [OF that]] less.prems by (simp add: advances_def)
      have "next_token s \<noteq> Inl out_of_range" using True by (simp add: next_token_def token_at_def)
      with line_safe [OF more] IH nxt.consumes [of s] lin.consumes [of s] show ?thesis
        unfolding program_loop.simps [of ls s] by (auto simp: rbind_Inl_iff)
    next
      case False
      then have "\<not> isNewline (peek s)" "\<not> isEof (peek s)" by (simp_all add: peek_def isNewline_def isEof_def)
      with line_at_end [of s] False show ?thesis unfolding program_loop.simps [of ls s] by simp
    qed
  qed (simp add: program_loop.simps [of ls s])
qed

lemma parse_in_bounds:
  assumes "ts \<noteq> []" and "last ts = ''EOF''"
  shows "parse ts \<noteq> Inl out_of_range"
  using program_loop_safe [of "Parser ts" "[]"] assms
  by (auto simp: parse_def program_def rbind_Inl_iff Parser_def)

section \<open>The shape of the trees\<close>

definition operand_shape :: "BaseNode \<Rightarrow> bool" where
  "operand_shape n =
     (case n of
        Register r \<Rightarrow> [r] \<in> set registers
      | DRegister r1 r2 \<Rightarrow> [r1, r2] \<in> set doubleRegisters
      | _ \<Rightarrow> is_expr n)"

text \<open>The table allows an instruction of a type with a number of operands.\<close>

definition table_arity :: "InstructionType \<Rightarrow> nat \<Rightarrow> bool" where
  "table_arity t k \<longleftrightarrow> list_ex (\<lambda>p. i_type p = t \<and> (i_args1 p = k \<or> i_args2 p = k)) instructions"

definition line_shape :: "BaseNode \<Rightarrow> bool" where
  "line_shape n =
     (case n of
        Directive t args \<Rightarrow> t = DT_SECTION \<and> length args = 1
      | Instruction0 t \<Rightarrow> table_arity t 0
      | Instruction1 t a \<Rightarrow> table_arity t 1 \<and> operand_shape a
      | Instruction2 t a b \<Rightarrow> table_arity t 2 \<and> operand_shape a \<and> operand_shape b
      | _ \<Rightarrow> False)"

lemma parseNumber_Inr: "parseNumber t = Inr n \<Longrightarrow> \<exists>v. n = Number v"
  by (auto simp: parseNumber_def make_Number_def split: option.splits)

lemma g_primary_expr: "g_primary ts n \<Longrightarrow> is_expr n"
  by (auto elim!: g_primary.cases dest!: parseNumber_Inr)

lemma g_unary_expr: "g_unary ts n \<Longrightarrow> is_expr n"
  by (induction rule: g_unary.induct) (auto dest: g_primary_expr)

lemma g_chain_expr:
  assumes "g_chain isop mk G ts n" and "\<And>us m. G us m \<Longrightarrow> is_expr m" and "\<And>t. mk t \<noteq> BO_INVALID"
  shows "is_expr n"
  using assms by (induction rule: g_chain.induct) auto

lemma g_multiplication_expr: "g_multiplication ts n \<Longrightarrow> is_expr n"
  by (erule g_chain_expr) (simp_all add: mul_op_def g_unary_expr)

lemma g_addition_expr: "g_addition ts n \<Longrightarrow> is_expr n"
  by (erule g_chain_expr) (simp_all add: add_op_def g_multiplication_expr)

lemma is_expr_shape: "is_expr n \<Longrightarrow> operand_shape n"
  by (cases n) (simp_all add: operand_shape_def)

lemma g_operand_shape: "g_operand ts n \<Longrightarrow> operand_shape n"
proof (induction rule: g_operand.induct)
  case (g_register t)
  then show ?case unfolding isRegister_iff operand_shape_def by (auto simp: registers_def)
next
  case (g_dregister t)
  then show ?case unfolding isDRegister_iff operand_shape_def by (auto simp: doubleRegisters_def)
next
  case (g_expr t ts n)
  then show ?case by (intro is_expr_shape g_addition_expr)
qed

lemma g_operands_shape: "g_operands ts ns \<Longrightarrow> list_all operand_shape ns"
  by (induction rule: g_operands.induct) (auto dest: g_operand_shape)

lemma make_instruction_cases:
  assumes "make_instruction t ns = Inr n"
  obtains (none) ty where "ns = []" "n = Instruction0 ty" "table_arity ty 0"
  | (one) ty a where "ns = [a]" "n = Instruction1 ty a" "table_arity ty 1"
  | (two) ty a b where "ns = [a, b]" "n = Instruction2 ty a b" "table_arity ty 2"
proof -
  from assms obtain p where p: "List.find (\<lambda>p. i_lexeme p = t) instructions = Some p"
    and len: "length ns = i_args1 p \<or> length ns = i_args2 p"
    and n: "(case ns of [] \<Rightarrow> Inr (Instruction0 (i_type p)) | [a] \<Rightarrow> Inr (Instruction1 (i_type p) a)
      | [a, b] \<Rightarrow> Inr (Instruction2 (i_type p) a b)
      | _ \<Rightarrow> Inl (ParserException ''Invalid number of args for instruction'')) = Inr n"
    by (auto simp: make_instruction_def findInstruction_def split: option.splits if_splits)
  from p have "p \<in> set instructions" by (auto simp: find_Some_iff)
  with len have "table_arity (i_type p) (length ns)"
    by (auto simp: table_arity_def list_ex_iff)
  with n none one two show ?thesis by (auto simp: numeral_2_eq_2 split: list.splits)
qed

lemma make_instruction_shape:
  assumes "make_instruction t ns = Inr n" and "list_all operand_shape ns"
  shows "line_shape n \<and> node_id n = NT_INSTRUCTION"
  using assms(1) by (cases rule: make_instruction_cases) (use assms(2) in \<open>simp_all add: line_shape_def\<close>)

lemma g_instruction_shape: "g_instruction ts n \<Longrightarrow> line_shape n \<and> node_id n = NT_INSTRUCTION"
  by (auto elim!: g_instruction.cases dest: make_instruction_shape g_operands_shape)

lemma g_program_shape: "g_program ts ns \<Longrightarrow> list_all line_shape ns"
  by (induction rule: g_program.induct) (auto dest: g_instruction_shape simp: line_shape_def)

section \<open>Properties\<close>

text \<open>C9: The parser accepts the language of the grammar and builds its tree: \<open>parse\<close>
  returns a node exactly for the token lists that derive as a program (blank lines,
  instruction lines with operands between optional commas and \<open>.section\<close> directives, up to an
  \<open>EOF\<close>), and that node is the root over the lines' nodes. Operators group to the left, and
  multiplication binds before addition.\<close>

theorem parser_implements_grammar:
  "parse ts = Inr root \<longleftrightarrow> (\<exists>ns. root = Root ns \<and> g_program ts ns)"
  by (rule parse_iff_grammar)

text \<open>An operand parser call succeeds exactly on a register, a double register or an
  expression of the grammar that ends where no operator follows, and it consumes exactly the
  tokens of that operand.\<close>

lemma operand_implements_grammar:
  "operand s = Inr (n, s') \<longleftrightarrow> (\<exists>ts. reads s ts s' \<and> g_operand ts n \<and> operand_ends ts (peek s'))"
  by (rule operand_iff)

text \<open>C23: \<open>std::out_of_range\<close> does not leave the parser when the tokens end with \<open>EOF\<close>: a
  program that is cut off anywhere is reported with a \<open>ParserException\<close>.\<close>

theorem parser_in_bounds:
  assumes "ts \<noteq> []" and "last ts = ''EOF''"
  shows "parse ts \<noteq> Inl out_of_range"
  by (rule parse_in_bounds [OF assms])

theorem parser_in_bounds_witness: "parse [''inc'', ''-'', ''EOF''] \<noteq> Inl out_of_range"
  by (rule parser_in_bounds) simp_all

text \<open>C24: The trees of the parser: a root whose lines are \<open>.section\<close> directives with one
  argument, and instructions with a number of operands that the instruction table lists for
  their type, each operand a register, a double register or an expression over numbers and
  labels. No line is a label.\<close>

theorem parser_tree_shape:
  assumes "parse ts = Inr root"
  shows "\<exists>ns. root = Root ns \<and> list_all line_shape ns"
  using assms g_program_shape by (auto simp: parse_iff_grammar)

theorem parser_tree_shape_witness:
  "\<exists>ns. Root [Directive DT_SECTION [''text''], Instruction1 IT_SUB (BinaryOp BO_ADD (Number 5) (Label ''x''))]
     = Root ns \<and> list_all line_shape ns"
proof -
  have "parse [''.section'', ''text'', ''EOL'', ''sub'', ''5'', ''+'', ''x'', ''EOL'', ''EOF''] =
      Inr (Root [Directive DT_SECTION [''text''], Instruction1 IT_SUB (BinaryOp BO_ADD (Number 5) (Label ''x''))])"
    by code_simp
  then show ?thesis by (rule parser_tree_shape)
qed

text \<open>Every parser call that returns has moved the cursor forward, inside of an unchanged
  token list. This is why the loops over lines, operands and operators end.\<close>

lemma parser_advances:
  assumes "line s = Inr (n, s')"
  shows "mTokens s' = mTokens s \<and> mPos s < mPos s' \<and> mPos s' \<le> length (mTokens s)"
  using lin.consumes [OF assms] by (simp add: advances_def)


end
