(* ===== verification/Printer.thy ===== *)
theory Printer
  imports Parser_Properties Lexer_Spec
begin

text \<open>
  The way back from a tree to source text. \<open>print_line\<close> gives the tokens of a line in a
  canonical form: numbers in decimal, one comma between two operands, no redundant minus
  signs or blank lines. \<open>line_ok\<close> says which lines can be written down; it is exact, in that
  every tree that comes out of the tokenizer and the parser satisfies it. So parsing inverts
  printing, and printing a parsed program gives a source text with the same tree.
\<close>

section \<open>Decimal numbers\<close>

lemma isDigit_digit_char: "d < 10 \<Longrightarrow> isDigit (digit_char d)"
  by (simp add: isDigit_def digit_char_def less_eq_char_def of_char_of)

lemma digit_value: "d < 10 \<Longrightarrow> int (of_char (digit_char d)) - 48 = int d"
  by (simp add: digit_char_def of_char_of)

lemma show_nat_digits: "list_all isDigit (show_nat n)"
proof (induction n rule: show_nat.induct)
  case (1 n)
  then show ?case by (subst show_nat.simps) (simp add: isDigit_digit_char)
qed

lemma digits_value_snoc: "digits_value (ds @ [c]) = 10 * digits_value ds + (int (of_char c) - 48)"
  by (simp add: digits_value_def)

lemma digits_value_show_nat: "digits_value (show_nat n) = int n"
proof (induction n rule: show_nat.induct)
  case (1 n)
  show ?case
  proof (cases "n < 10")
    case True
    then show ?thesis
      using digit_value [OF True] by (subst show_nat.simps) (simp add: digits_value_def)
  next
    case False
    have "digits_value (show_nat n) = 10 * int (n div 10) + int (n mod 10)"
      using False 1 [OF False] digit_value [of "n mod 10"]
      by (subst show_nat.simps) (simp add: digits_value_snoc)
    also have "\<dots> = int (10 * (n div 10) + n mod 10)" by (simp only: of_nat_add of_nat_mult of_nat_numeral)
    also have "\<dots> = int n" by simp
    finally show ?thesis .
  qed
qed

lemma digit_not_space: "isDigit c \<Longrightarrow> \<not> isspace c \<and> c \<noteq> nul"
  by (auto simp: isDigit_def isspace_def less_eq_char_def)

lemma show_nat_head: "isDigit (hd (show_nat n))"
  using show_nat_digits [of n] show_nat_nonempty [of n] by (cases "show_nat n") simp_all

lemma atoi_show_nat:
  assumes "n < 2 ^ 31"
  shows "atoi (show_nat n) = Some (int n)"
proof -
  obtain c cs where s: "show_nat n = c # cs" using show_nat_nonempty [of n] by (cases "show_nat n") auto
  have c: "isDigit c" and all: "list_all isDigit (c # cs)" using show_nat_digits [of n] s by simp_all
  have "takeWhile isDigit (c # cs) = c # cs" using all by (simp only: takeWhile_eq_all_conv list_all_iff)
  moreover have "c \<noteq> CHR ''-''" "c \<noteq> CHR ''+''" using c by auto
  moreover have "\<not> isspace c" using digit_not_space [OF c] by simp
  ultimately show ?thesis
    using assms digits_value_show_nat [of n] by (simp add: atoi_def s Let_def)
qed

lemma c_str_digits: "list_all isDigit s \<Longrightarrow> c_str s = s"
  by (auto simp: c_str_def takeWhile_eq_all_conv list_all_iff dest: digit_not_space)

lemma isNumber_show_nat: "isNumber (show_nat n)"
  by (simp add: isNumber_def show_nat_digits)

lemma parseNumber_show_nat: "parseNumber (show_nat (unat (v :: u8))) = Inr (Number v)"
proof -
  have "unat v < 2 ^ LENGTH(8)" by (rule unsigned_less)
  then have "unat v < 2 ^ 31" by simp
  from atoi_show_nat [OF this] show ?thesis
    by (simp add: parseNumber_def c_str_digits [OF show_nat_digits] make_Number_def)
qed

section \<open>Expressions\<close>

definition binop_token :: "BinaryOpType \<Rightarrow> Token" where
  "binop_token op =
     (case op of BO_ADD \<Rightarrow> ''+'' | BO_SUB \<Rightarrow> ''-'' | BO_MULT \<Rightarrow> ''*'' | BO_DIV \<Rightarrow> ''/'' | BO_INVALID \<Rightarrow> [])"

fun print_expr :: "BaseNode \<Rightarrow> TokenList" where
  "print_expr (Number v) = [show_nat (unat v)]"
| "print_expr (Label l) = [l]"
| "print_expr (UnaryOp _ a) = ''-'' # print_expr a"
| "print_expr (BinaryOp op l r) = print_expr l @ binop_token op # print_expr r"
| "print_expr _ = []"

text \<open>
  Without parentheses, an expression can be written down if no operator has an operand that
  binds weaker: level 0 are unary expressions, level 1 products, level 2 sums.
\<close>

fun printable :: "nat \<Rightarrow> BaseNode \<Rightarrow> bool" where
  "printable k (Number v) = True"
| "printable k (Label l) = isLabel l"
| "printable k (UnaryOp op a) = (op = UO_NEG \<and> printable 0 a)"
| "printable k (BinaryOp op l r) =
     (if op \<in> {BO_MULT, BO_DIV} then 1 \<le> k \<and> printable 1 l \<and> printable 0 r
      else op \<in> {BO_ADD, BO_SUB} \<and> 2 \<le> k \<and> printable 2 l \<and> printable 1 r)"
| "printable k _ = False"

lemma printable_mono: "printable k n \<Longrightarrow> k \<le> m \<Longrightarrow> printable m n"
  by (induction k n rule: printable.induct) auto

lemma g_chain_single: "G ts n \<Longrightarrow> g_chain isop mk G ts n"
  by (rule g_chain.g_one)

lemma printable_derives:
  "printable 0 n \<Longrightarrow> g_unary (print_expr n) n"
  "printable 1 n \<Longrightarrow> g_multiplication (print_expr n) n"
  "printable 2 n \<Longrightarrow> g_addition (print_expr n) n"
proof (induction n)
  case (Number v)
  have "g_unary [show_nat (unat v)] (Number v)"
    by (rule g_prim [OF g_number [OF isNumber_show_nat parseNumber_show_nat]])
  then show "g_unary (print_expr (Number v)) (Number v)"
    "g_multiplication (print_expr (Number v)) (Number v)" "g_addition (print_expr (Number v)) (Number v)"
    by (simp_all add: g_chain_single)
next
  case (Label l)
  {
    assume "isLabel l"
    then have "g_unary [l] (Label l)" by (rule g_prim [OF g_label])
  }
  then show "printable 0 (Label l) \<Longrightarrow> g_unary (print_expr (Label l)) (Label l)"
    "printable 1 (Label l) \<Longrightarrow> g_multiplication (print_expr (Label l)) (Label l)"
    "printable 2 (Label l) \<Longrightarrow> g_addition (print_expr (Label l)) (Label l)"
    by (simp_all add: g_chain_single)
next
  case (UnaryOp op a)
  {
    assume "op = UO_NEG" "printable 0 a"
    with UnaryOp.IH(1) have "g_unary (''-'' # print_expr a) (UnaryOp op a)" by (simp add: g_neg)
  }
  then show "printable 0 (UnaryOp op a) \<Longrightarrow> g_unary (print_expr (UnaryOp op a)) (UnaryOp op a)"
    "printable 1 (UnaryOp op a) \<Longrightarrow> g_multiplication (print_expr (UnaryOp op a)) (UnaryOp op a)"
    "printable 2 (UnaryOp op a) \<Longrightarrow> g_addition (print_expr (UnaryOp op a)) (UnaryOp op a)"
    by (simp_all add: g_chain_single)
next
  case (BinaryOp op l r)
  {
    assume op: "op \<in> {BO_MULT, BO_DIV}" and "printable 1 l" "printable 0 r"
    then have "g_multiplication (print_expr l) l" "g_unary (print_expr r) r"
      using BinaryOp.IH by simp_all
    moreover have "isMultiplication (binop_token op)"
      using op by (auto simp: binop_token_def isMultiplication_def)
    ultimately have
      "g_multiplication (print_expr l @ binop_token op # print_expr r) (BinaryOp (mul_op (binop_token op)) l r)"
      by (metis g_more)
    then have "g_multiplication (print_expr (BinaryOp op l r)) (BinaryOp op l r)"
      using op by (auto simp: mul_op_def binop_token_def)
  }
  note mul = this
  {
    assume op: "op \<in> {BO_ADD, BO_SUB}" and "printable 2 l" "printable 1 r"
    then have "g_addition (print_expr l) l" "g_multiplication (print_expr r) r"
      using BinaryOp.IH by simp_all
    moreover have "isAddition (binop_token op)"
      using op by (auto simp: binop_token_def isAddition_def)
    ultimately have
      "g_addition (print_expr l @ binop_token op # print_expr r) (BinaryOp (add_op (binop_token op)) l r)"
      by (metis g_more)
    then have "g_addition (print_expr (BinaryOp op l r)) (BinaryOp op l r)"
      using op by (auto simp: add_op_def binop_token_def)
  }
  note add = this
  show "printable 0 (BinaryOp op l r) \<Longrightarrow> g_unary (print_expr (BinaryOp op l r)) (BinaryOp op l r)"
    by (simp split: if_splits)
  show "printable 1 (BinaryOp op l r) \<Longrightarrow> g_multiplication (print_expr (BinaryOp op l r)) (BinaryOp op l r)"
    using mul by (simp split: if_splits)
  show "printable 2 (BinaryOp op l r) \<Longrightarrow> g_addition (print_expr (BinaryOp op l r)) (BinaryOp op l r)"
    using mul add by (auto simp: g_chain_single split: if_splits)
qed simp_all

text \<open>Conversely the trees of derivations can be written down.\<close>

lemma g_primary_printable: "g_primary ts n \<Longrightarrow> printable k n"
  by (auto elim!: g_primary.cases dest!: parseNumber_Inr)

lemma g_unary_printable: "g_unary ts n \<Longrightarrow> printable k n"
  by (induction arbitrary: k rule: g_unary.induct) (simp_all add: g_primary_printable)

lemma g_multiplication_printable: "g_multiplication ts n \<Longrightarrow> printable 1 n"
  by (induction rule: g_chain.induct) (auto simp: g_unary_printable mul_op_def)

lemma g_addition_printable: "g_addition ts n \<Longrightarrow> printable 2 n"
proof (induction rule: g_chain.induct)
  case (g_one ts n)
  then show ?case by (blast intro: printable_mono g_multiplication_printable one_le_numeral)
next
  case (g_more ts l t us r)
  then show ?case by (auto simp: add_op_def g_multiplication_printable [simplified])
qed

section \<open>The first token of an expression\<close>

text \<open>
  A printed expression starts as the derived one did, or with a digit or a minus sign.
  What must not start an operand (a register, the end of the line) is a label.
\<close>

definition starts_alike :: "TokenList \<Rightarrow> TokenList \<Rightarrow> bool" where
  "starts_alike ts us \<longleftrightarrow> us \<noteq> [] \<and> (hd us = hd ts \<or> \<not> isLabel (hd us))"

lemma starts_alike_append: "starts_alike ts us \<Longrightarrow> ts \<noteq> [] \<Longrightarrow> starts_alike (ts @ ts') (us @ us')"
  by (auto simp: starts_alike_def)

lemma show_nat_not_label: "\<not> isLabel (show_nat n)"
  using isNumber_not_label [OF isNumber_show_nat] .

lemma g_unary_starts: "g_unary ts n \<Longrightarrow> starts_alike ts (print_expr n)"
proof (induction rule: g_unary.induct)
  case (g_prim ts n)
  then show ?case
    by (auto elim!: g_primary.cases dest!: parseNumber_Inr simp: starts_alike_def show_nat_not_label)
next
  case (g_neg t ts n)
  then show ?case by (simp add: starts_alike_def isLabel_def)
qed

lemma g_chain_starts:
  assumes "g_chain isop mk G ts n" and "\<And>us m. G us m \<Longrightarrow> us \<noteq> [] \<and> starts_alike us (print_expr m)"
  shows "ts \<noteq> [] \<and> starts_alike ts (print_expr n)"
  using assms by (induction rule: g_chain.induct) (simp_all add: starts_alike_append)

lemma g_addition_starts: "g_addition ts n \<Longrightarrow> starts_alike ts (print_expr n)"
proof -
  have "us \<noteq> [] \<and> starts_alike us (print_expr m)" if "g_multiplication us m" for us m
    using that by (rule g_chain_starts) (simp add: g_unary_nonempty g_unary_starts)
  then show "g_addition ts n \<Longrightarrow> starts_alike ts (print_expr n)" using g_chain_starts by blast
qed

lemma register_is_label: "isRegister t \<Longrightarrow> isLabel t" "isDRegister t \<Longrightarrow> isLabel t" "isLabel ''EOL''"
proof -
  have "list_all isLabel (registers @ doubleRegisters @ [''EOL''])" by code_simp
  then show "isRegister t \<Longrightarrow> isLabel t" "isDRegister t \<Longrightarrow> isLabel t" "isLabel ''EOL''"
    by (auto simp: list_all_iff isRegister_iff isDRegister_iff)
qed

section \<open>Operands and lines\<close>

definition starts_operand :: "Token \<Rightarrow> bool" where
  "starts_operand t \<longleftrightarrow> \<not> isRegister t \<and> \<not> isDRegister t \<and> t \<noteq> ''EOL''"

definition operand_ok :: "BaseNode \<Rightarrow> bool" where
  "operand_ok n =
     (case n of
        Register r \<Rightarrow> [r] \<in> set registers
      | DRegister r1 r2 \<Rightarrow> [r1, r2] \<in> set doubleRegisters
      | _ \<Rightarrow> printable 2 n \<and> starts_operand (hd (print_expr n)))"

definition print_operand :: "BaseNode \<Rightarrow> TokenList" where
  "print_operand n =
     (case n of
        Register r \<Rightarrow> [[r]]
      | DRegister r1 r2 \<Rightarrow> [[r1, r2]]
      | _ \<Rightarrow> print_expr n)"

fun print_operands :: "BaseNode list \<Rightarrow> TokenList" where
  "print_operands [] = []"
| "print_operands [a] = print_operand a"
| "print_operands (a # as) = print_operand a @ '','' # print_operands as"

definition mnemonic :: "InstructionType \<Rightarrow> Token" where
  "mnemonic t = (case List.find (\<lambda>p. i_type p = t) instructions of None \<Rightarrow> [] | Some p \<Rightarrow> i_lexeme p)"

fun line_operands :: "BaseNode \<Rightarrow> (InstructionType \<times> BaseNode list) option" where
  "line_operands (Instruction0 t) = Some (t, [])"
| "line_operands (Instruction1 t a) = Some (t, [a])"
| "line_operands (Instruction2 t a b) = Some (t, [a, b])"
| "line_operands _ = None"

definition line_ok :: "BaseNode \<Rightarrow> bool" where
  "line_ok n =
     (case line_operands n of
        Some (t, ns) \<Rightarrow> table_arity t (length ns) \<and> list_all operand_ok ns
      | None \<Rightarrow> (case n of
           Directive DT_SECTION [name] \<Rightarrow> lexeme name \<and> newline \<notin> set name \<and> name \<noteq> ''EOL''
         | _ \<Rightarrow> False))"

definition print_line :: "BaseNode \<Rightarrow> TokenList" where
  "print_line n =
     (case line_operands n of
        Some (t, ns) \<Rightarrow> mnemonic t # print_operands ns
      | None \<Rightarrow> (case n of Directive _ names \<Rightarrow> ''.section'' # names | _ \<Rightarrow> []))"

definition print_source :: "BaseNode list \<Rightarrow> string" where
  "print_source ns = print_lines (map print_line ns)"

definition print_tokens_of :: "BaseNode list \<Rightarrow> TokenList" where
  "print_tokens_of ns = concat (map (\<lambda>n. print_line n @ [''EOL'']) ns) @ [''EOF'']"

section \<open>Parsing what was printed\<close>

lemma operand_expr_starts: "g_addition ts n \<Longrightarrow> starts_operand (hd ts) \<Longrightarrow> starts_operand (hd (print_expr n))"
  using g_addition_starts [of ts n] register_is_label(1,2) [of "hd (print_expr n)"] register_is_label(3)
  by (auto simp: starts_operand_def starts_alike_def)

lemma g_operand_ok: "g_operand ts n \<Longrightarrow> hd ts \<noteq> ''EOL'' \<Longrightarrow> operand_ok n"
proof (induction rule: g_operand.induct)
  case (g_register t)
  then show ?case using g_operand_shape [OF g_operand.g_register] by (simp add: operand_ok_def operand_shape_def)
next
  case (g_dregister t)
  then show ?case using g_operand_shape [OF g_operand.g_dregister] by (simp add: operand_ok_def operand_shape_def)
next
  case (g_expr t ts n)
  then have "printable 2 n \<and> starts_operand (hd (print_expr n))"
    using operand_expr_starts [of "t # ts" n] by (simp add: g_addition_printable) (simp add: starts_operand_def)
  then show ?case by (cases n) (simp_all add: operand_ok_def del: printable.simps(4) print_expr.simps(4))
qed

lemma g_operands_ok: "g_operands ts ns \<Longrightarrow> list_all operand_ok ns"
  by (induction rule: g_operands.induct) (auto dest: g_operand_ok)

lemma print_operand_derives:
  assumes "operand_ok n"
  shows "g_operand (print_operand n) n \<and> hd (print_operand n) \<noteq> ''EOL''"
proof -
  have expr: "g_operand (print_expr n) n \<and> hd (print_expr n) \<noteq> ''EOL''"
    if ok: "printable 2 n" "starts_operand (hd (print_expr n))" for n
  proof -
    have g: "g_addition (print_expr n) n" using printable_derives(3) [OF ok(1)] .
    obtain t ts where "print_expr n = t # ts"
      using g_addition_starts [OF g] by (cases "print_expr n") (auto simp: starts_alike_def)
    with g ok(2) show ?thesis by (simp add: starts_operand_def g_expr)
  qed
  have reg: "g_operand [[r]] (Register r)" if "[r] \<in> set registers" for r
    using g_register [of "[r]"] that by (simp add: isRegister_iff)
  have dreg: "g_operand [[r1, r2]] (DRegister r1 r2)" if "[r1, r2] \<in> set doubleRegisters" for r1 r2
    using g_dregister [of "[r1, r2]"] that by (simp add: isDRegister_iff)
  show ?thesis
    using assms reg dreg expr [of n]
    by (cases n) (simp_all add: operand_ok_def print_operand_def del: printable.simps(4) print_expr.simps(4))
qed

lemma operand_ends_comma: "operand_ends us '',''" "operand_ends us ''EOL''"
  by (simp_all add: operand_ends_def ends_expr_def isAddition_def isMultiplication_def)

lemma print_operands_derive: "list_all operand_ok ns \<Longrightarrow> g_operands (print_operands ns) ns"
proof (induction ns rule: print_operands.induct)
  case 1
  show ?case by (simp add: g_no_operand)
next
  case (2 a)
  then show ?case
    using g_operands.g_operand [of "print_operand a" a "[]" "[]"] print_operand_derives [of a]
    by (simp add: operand_ends_comma g_no_operand)
next
  case (3 a b as)
  then have "g_operands ('','' # print_operands (b # as)) (b # as)" by (simp add: g_comma)
  with 3 show ?case
    using g_operands.g_operand [of "print_operand a" a "'','' # print_operands (b # as)" "b # as"]
      print_operand_derives [of a] by (simp add: operand_ends_comma)
qed

lemma table_mnemonics:
  "p \<in> set instructions \<Longrightarrow> findInstruction (mnemonic (i_type p)) = Some p \<and> is_word (i_lexeme p)"
proof -
  have "list_all (\<lambda>p. findInstruction (mnemonic (i_type p)) = Some p \<and> is_word (i_lexeme p)) instructions"
    by code_simp
  then show "p \<in> set instructions \<Longrightarrow> findInstruction (mnemonic (i_type p)) = Some p \<and> is_word (i_lexeme p)"
    by (simp add: list_all_iff)
qed

lemma mnemonic_found:
  assumes "table_arity t k"
  obtains p where "findInstruction (mnemonic t) = Some p" "i_type p = t" "i_args1 p = k \<or> i_args2 p = k"
    "is_word (mnemonic t)"
proof -
  from assms obtain p where p: "p \<in> set instructions" "i_type p = t" "i_args1 p = k \<or> i_args2 p = k"
    by (auto simp: table_arity_def list_ex_iff)
  from table_mnemonics [OF p(1)] have found: "findInstruction (mnemonic t) = Some p" by (simp add: p(2))
  then have "i_lexeme p = mnemonic t" by (auto simp: findInstruction_def find_Some_iff)
  with table_mnemonics [OF p(1)] have "is_word (mnemonic t)" by simp
  with found p(2,3) show ?thesis by (rule that)
qed

lemma make_instruction_mnemonic:
  assumes "line_operands n = Some (t, ns)" and "table_arity t (length ns)"
  shows "make_instruction (mnemonic t) ns = Inr n"
proof -
  obtain p where "findInstruction (mnemonic t) = Some p" "i_type p = t"
    "i_args1 p = length ns \<or> i_args2 p = length ns"
    using mnemonic_found [OF assms(2)] by blast
  with assms(1) show ?thesis by (cases n) (auto simp: make_instruction_def)
qed

lemma print_instruction_derives:
  assumes "line_ok n" and "line_operands n = Some (t, ns)"
  shows "g_instruction (print_line n) n"
proof -
  from assms have ok: "table_arity t (length ns)" "list_all operand_ok ns" by (simp_all add: line_ok_def)
  have "g_instruction (mnemonic t # print_operands ns) n"
    by (rule g_instr [OF make_instruction_mnemonic [OF assms(2) ok(1)] print_operands_derive [OF ok(2)]])
  with assms(2) show ?thesis by (simp add: print_line_def)
qed

lemma line_ok_cases:
  assumes "line_ok n"
  obtains (instruction) t ns where "line_operands n = Some (t, ns)"
  | (directive) name where "n = Directive DT_SECTION [name]" "print_line n = [''.section'', name]"
      "lexeme name" "newline \<notin> set name" "name \<noteq> ''EOL''"
proof (cases "line_operands n")
  case None
  with assms obtain name where "n = Directive DT_SECTION [name]"
    "lexeme name" "newline \<notin> set name" "name \<noteq> ''EOL''"
    by (auto simp: line_ok_def split: BaseNode.splits DirectiveType.splits list.splits)
  then show ?thesis using directive by (simp add: print_line_def)
next
  case (Some a)
  then show ?thesis using instruction by (cases a) simp
qed

lemma print_program_derives: "list_all line_ok ns \<Longrightarrow> g_program (print_tokens_of ns) ns"
proof (induction ns)
  case Nil
  show ?case by (simp add: print_tokens_of_def g_eof)
next
  case (Cons n ns)
  then have rest: "g_program (''EOL'' # print_tokens_of ns) ns" and ok: "line_ok n" by (simp_all add: g_newline)
  have split: "print_tokens_of (n # ns) = print_line n @ ''EOL'' # print_tokens_of ns"
    by (simp add: print_tokens_of_def)
  from ok show ?case
  proof (cases rule: line_ok_cases)
    case (instruction t ms)
    show ?thesis unfolding split by (rule g_instruction_line [OF print_instruction_derives [OF ok instruction] rest])
  next
    case (directive name)
    with rest show ?thesis unfolding split by (simp add: g_directive_line)
  qed
qed

section \<open>Tokenizing what was printed\<close>

definition plain :: "Token \<Rightarrow> bool" where
  "plain t \<longleftrightarrow> lexeme t \<and> newline \<notin> set t"

lemma newline_not_word: "\<not> word_char newline"
  by code_simp

lemma word_plain: "is_word t \<Longrightarrow> plain t"
  using newline_not_word by (auto simp: plain_def lexeme_def is_word_def list_all_iff)

lemma label_plain:
  assumes "isLabel l"
  shows "plain l"
proof -
  from assms have "l \<noteq> []" and ex: "\<not> list_ex (\<lambda>c. \<not> isAlphaNumeric c \<and> c \<noteq> CHR ''_'') l"
    unfolding isLabel_def by (simp_all split: if_splits)
  moreover have "word_char c" if "c \<in> set l" for c
    using ex that by (auto simp: list_ex_iff word_char_def)
  ultimately show ?thesis by (intro word_plain) (simp add: is_word_def list_all_iff)
qed

lemma number_plain: "plain (show_nat n)"
proof (rule word_plain)
  show "is_word (show_nat n)"
    using show_nat_digits [of n] by (simp add: is_word_def list_all_iff word_char_def digit_alnum)
qed

lemma punct_plain: "plain ''-''" "plain '',''" "op \<noteq> BO_INVALID \<Longrightarrow> plain (binop_token op)" "plain ''.section''"
proof -
  have all: "list_all plain [''+'', ''-'', ''*'', ''/'', '','', ''.section'']" by code_simp
  then show "plain ''-''" "plain '',''" "plain ''.section''" by simp_all
  show "op \<noteq> BO_INVALID \<Longrightarrow> plain (binop_token op)"
    using all by (cases op) (simp_all add: binop_token_def)
qed

lemma print_expr_plain: "printable k n \<Longrightarrow> list_all plain (print_expr n)"
proof (induction k n rule: printable.induct)
  case (4 k op l r)
  then show ?case by (cases op) (auto simp: punct_plain)
qed (simp_all add: number_plain label_plain punct_plain)

lemma print_operand_plain:
  assumes "operand_ok n"
  shows "list_all plain (print_operand n)"
proof -
  have "plain t" if "t \<in> set registers \<or> t \<in> set doubleRegisters" for t
    using that register_is_label(1,2) [of t] label_plain by (auto simp: isRegister_iff isDRegister_iff)
  then show ?thesis
    using assms print_expr_plain [of 2 n]
    by (cases n) (simp_all add: operand_ok_def print_operand_def del: printable.simps(4) print_expr.simps(4))
qed

lemma print_operands_plain: "list_all operand_ok ns \<Longrightarrow> list_all plain (print_operands ns)"
  by (induction ns rule: print_operands.induct) (simp_all add: print_operand_plain punct_plain)

lemma print_line_plain:
  assumes "line_ok n"
  shows "list_all plain (print_line n)"
  using assms
proof (cases rule: line_ok_cases)
  case (instruction t ns)
  with assms have ok: "table_arity t (length ns)" "list_all operand_ok ns" by (simp_all add: line_ok_def)
  from mnemonic_found [OF ok(1)] have "plain (mnemonic t)" by (blast intro: word_plain)
  with instruction ok(2) show ?thesis by (simp add: print_line_def print_operands_plain)
next
  case (directive name)
  then show ?thesis by (simp add: punct_plain) (simp add: plain_def)
qed

lemma print_source_lex:
  assumes "list_all line_ok ns"
  shows "lex_lines 0 (lines_of (print_source ns)) = Inr (concat (map (\<lambda>n. print_line n @ [''EOL'']) ns))"
proof -
  from assms print_line_plain have "list_all (list_all plain) (map print_line ns)"
    by (auto simp: list_all_iff)
  then have lx: "list_all (list_all lexeme) (map print_line ns)"
    and nl: "list_all (list_all (\<lambda>t. newline \<notin> set t)) (map print_line ns)"
    by (auto simp: list_all_iff plain_def)
  show ?thesis
    using lex_lines_spaced [OF lx, of 0] by (simp add: print_source_def lines_of_print_lines [OF nl] comp_def)
qed

section \<open>Every tree of a source can be printed\<close>

lemma lex_chars: "lex s = Inr ts \<Longrightarrow> t \<in> set ts \<Longrightarrow> set t \<subseteq> set s"
proof (induction s arbitrary: ts rule: lex_induct)
  case Nil
  then show ?case by simp
next
  case (Cons c cs)
  have part: "set us \<subseteq> insert c (set cs)" if "set us \<subseteq> set (dropWhile P cs)" for us P
    using that set_dropWhileD by fastforce
  show ?case
  proof (cases c rule: first_char_cases)
    case word
    with Cons.prems obtain us where us: "lex (dropWhile word_char cs) = Inr us"
      and t: "t = c # takeWhile word_char cs \<or> t \<in> set us"
      by (auto simp: lex_word Let_def rbind_Inr_iff split: if_splits)
    from t show ?thesis
    proof
      assume "t \<in> set us"
      with Cons.IH [OF _ us] part show ?thesis by (simp add: length_dropWhile_le)
    qed (auto dest: set_takeWhileD)
  next
    case quote
    with Cons.prems obtain q r us where d: "dropWhile (\<lambda>d. d \<noteq> dquote) cs = q # r" and us: "lex r = Inr us"
      and t: "t = dquote # takeWhile (\<lambda>d. d \<noteq> dquote) cs @ [q] \<or> t \<in> set us"
      by (auto simp: lex_string rbind_Inr_iff split: list.splits)
    have "length (q # r) \<le> length cs" by (metis d length_dropWhile_le)
    then have short: "length r \<le> length cs" by simp
    have sub: "set (q # r) \<subseteq> set cs" using set_dropWhileD by (fastforce simp flip: d)
    from t show ?thesis
    proof
      assume "t \<in> set us"
      with Cons.IH [OF short us] sub show ?thesis by auto
    next
      assume "t = dquote # takeWhile (\<lambda>d. d \<noteq> dquote) cs @ [q]"
      with quote sub show ?thesis by (auto dest: set_takeWhileD)
    qed
  next
    case punct
    with Cons.prems obtain us where us: "lex cs = Inr us" and t: "t = [c] \<or> t \<in> set us"
      by (auto simp: lex_punct rbind_Inr_iff)
    from t Cons.IH [OF _ us] show ?thesis by auto
  next
    case space
    with Cons.prems Cons.IH [of cs ts] show ?thesis by auto
  qed (use Cons.prems in \<open>auto simp: lex_bad\<close>)
qed

lemma lines_of_no_newline: "l \<in> set (lines_of s) \<Longrightarrow> newline \<notin> set l"
proof (induction s rule: lines_of.induct)
  case (1 s)
  show ?case
  proof (cases "getline s")
    case None
    with "1.prems" show ?thesis by (simp add: lines_of.simps [of s])
  next
    case (Some lr)
    obtain l' r where lr: "lr = (l', r)" by (cases lr)
    with Some have "newline \<notin> set l'" by (auto simp: getline_def dest: set_takeWhileD split: if_splits)
    with "1.prems" "1.IH" [OF Some] Some lr show ?thesis by (auto simp: lines_of.simps [of s])
  qed
qed

lemma lex_lines_plain:
  "lex_lines n ls = Inr ts \<Longrightarrow> \<forall>l \<in> set ls. newline \<notin> set l \<Longrightarrow> list_all plain ts"
proof (induction ls arbitrary: n ts)
  case (Cons l ls)
  then obtain us vs where us: "lex l = Inr us" and vs: "lex_lines (n + 1) ls = Inr vs"
    and ts: "ts = us @ [''EOL''] @ vs"
    by (auto simp: rbind_Inr_iff split: sum.splits)
  have "list_all plain us"
    using lex_lexemes [OF us] lex_chars [OF us] Cons.prems(2) by (auto simp: list_all_iff plain_def)
  moreover have "plain ''EOL''" using label_plain register_is_label(3) by blast
  moreover have "list_all plain vs" using Cons.IH [OF vs] Cons.prems(2) by simp
  ultimately show ?case by (simp add: ts)
qed simp

lemma tokenize_plain:
  assumes "tokenize input = Inr ts"
  shows "list_all plain ts"
proof -
  from assms tokenize_lex [of input] obtain us where us: "lex_lines 0 (lines_of input) = Inr us"
    and ts: "ts = us @ [''EOF'']"
    by (auto split: sum.splits prod.splits)
  have "plain ''EOF''" by code_simp
  with lex_lines_plain [OF us] lines_of_no_newline show ?thesis by (auto simp: ts)
qed

lemma make_instruction_ok:
  assumes "make_instruction t ns = Inr n" and "list_all operand_ok ns"
  shows "line_ok n"
  using assms(1) by (cases rule: make_instruction_cases)
    (use assms(2) in \<open>simp_all add: line_ok_def numeral_2_eq_2\<close>)

lemma g_program_ok: "g_program ts ns \<Longrightarrow> list_all plain ts \<Longrightarrow> list_all line_ok ns"
proof (induction rule: g_program.induct)
  case (g_instruction_line us n ts ns)
  then show ?case by (auto elim!: g_instruction.cases dest: make_instruction_ok g_operands_ok)
next
  case (g_directive_line arg ts ns)
  then show ?case by (simp add: line_ok_def plain_def)
qed simp_all

section \<open>Properties\<close>

lemma print_parse:
  assumes "list_all line_ok ns"
  shows "tokenize (print_source ns) = Inr (print_tokens_of ns) \<and> parse (print_tokens_of ns) = Inr (Root ns)"
  using tokenize_lex [of "print_source ns"] print_source_lex [OF assms] print_program_derives [OF assms]
  by (simp add: parse_iff_grammar print_tokens_of_def)

text \<open>C18: Parsing inverts printing: the source text that is printed for a list of lines that can be
  written down tokenizes, and its tokens parse to exactly these lines.\<close>

theorem source_roundtrip:
  assumes "list_all line_ok ns"
  shows "\<exists>ts. tokenize (print_source ns) = Inr ts \<and> parse ts = Inr (Root ns)"
  using print_parse [OF assms] by blast

theorem source_roundtrip_witness:
  "\<exists>ts. tokenize (print_source [Directive DT_SECTION [''text''],
       Instruction2 IT_LD (Register CHR ''b'') (BinaryOp BO_SUB (Number 200) (UnaryOp UO_NEG (Label ''x'')))]) = Inr ts \<and>
     parse ts = Inr (Root [Directive DT_SECTION [''text''],
       Instruction2 IT_LD (Register CHR ''b'') (BinaryOp BO_SUB (Number 200) (UnaryOp UO_NEG (Label ''x'')))])"
  by (rule source_roundtrip) code_simp

text \<open>C19: The trees of source files are exactly the lists of lines that can be written down
  (\<open>line_ok\<close>): so every source that parses has a canonical form with the same tree.\<close>

theorem source_trees:
  "(\<exists>input ts. tokenize input = Inr ts \<and> parse ts = Inr root) \<longleftrightarrow> (\<exists>ns. root = Root ns \<and> list_all line_ok ns)"
proof
  assume "\<exists>input ts. tokenize input = Inr ts \<and> parse ts = Inr root"
  then show "\<exists>ns. root = Root ns \<and> list_all line_ok ns"
    using g_program_ok tokenize_plain by (auto simp: parse_iff_grammar)
next
  assume "\<exists>ns. root = Root ns \<and> list_all line_ok ns"
  then show "\<exists>input ts. tokenize input = Inr ts \<and> parse ts = Inr root" using print_parse by blast
qed

end
