(* ===== verification/Elf_Reader.thy ===== *)
theory Elf_Reader
  imports Elf_Writer
begin

text \<open>
  \<open>ELFReader::read\<close> of \<open>include/elf_reader.hpp\<close> and \<open>src/elf_reader.cpp\<close>. The state of
  a run is the input stream, its contents and a position, and what was written to
  \<open>std::cout\<close>; \<open>seek_ok\<close> says which positions \<open>seekg\<close> accepts, which depends on the kind of
  stream. The result is the unexpected value, a message, or the object of the reader,
  together with the output. Where the code has undefined behaviour (the three reads beyond
  an array that it does not check, and the overflow of an \<open>int\<close> product) the outcome is
  \<open>Undefined\<close>. The junk parameter is the indeterminate member of a fresh \<open>ELF\<close>.
\<close>

datatype undefined_behaviour = Ident_not_terminated | Size_overflow | Header_table_overread | Bad_string_index

datatype read_error = Unexpected string | Undefined undefined_behaviour

record istream =
  i_data :: "u8 list"
  i_pos :: nat
  i_cout :: string

type_synonym 'a reader = "(read_error, istream, 'a) operation"

definition stream_read :: "string \<Rightarrow> nat \<Rightarrow> u8 list reader" where
  "stream_read msg n s =
     (if n = 0 \<or> i_pos s + n \<le> length (i_data s)
      then (Inr (take n (drop (i_pos s) (i_data s))), s\<lparr>i_pos := i_pos s + n\<rparr>)
      else (Inl (Unexpected msg), s))"

definition seekg :: "(nat \<Rightarrow> bool) \<Rightarrow> string \<Rightarrow> nat \<Rightarrow> unit reader" where
  "seekg seek_ok msg pos s =
     (if seek_ok pos then (Inr (), s\<lparr>i_pos := pos\<rparr>) else (Inl (Unexpected msg), s))"

text \<open>\<open>std::cout << text\<close>, and the lines of the debugging output.\<close>

definition cout :: "string \<Rightarrow> unit reader" where
  "cout text = smodify (\<lambda>s. s\<lparr>i_cout := i_cout s @ text\<rparr>)"

definition field_line :: "string \<Rightarrow> nat \<Rightarrow> string" where
  "field_line label n = label @ '': '' @ show_nat n @ [newline]"

definition Shdr_lines :: "Elf32_Shdr \<Rightarrow> string" where
  "Shdr_lines h =
     field_line ''name'' (unat (sh_name h)) @ field_line ''type'' (unat (sh_type h)) @
     field_line ''flags'' (unat (sh_flags h)) @ field_line ''addr'' (unat (sh_addr h)) @
     field_line ''offset'' (unat (sh_offset h)) @ field_line ''size'' (unat (sh_size h)) @
     field_line ''link'' (unat (sh_link h)) @ field_line ''info'' (unat (sh_info h)) @
     field_line ''addralign'' (unat (sh_addralign h)) @ field_line ''entsize'' (unat (sh_entsize h)) @ [newline]"

definition check_ident :: "u8 list \<Rightarrow> bool" where
  "check_ident ident \<longleftrightarrow> take 4 ident = [0x7f, 0x45, 0x4c, 0x46]"

definition byte_char :: "u8 \<Rightarrow> char" where
  "byte_char b = char_of (unat b)"

definition read_header :: "Elf32_Ehdr reader" where
  "read_header =
     sbind (stream_read ''Failed to read header from input stream'' sizeof_Ehdr) (\<lambda>buf.
       let header = bytes_Ehdr buf in
       if \<not> check_ident (e_ident header) then
         sthrow (if 0 \<in> set (e_ident header)
          then Unexpected (''Invalid file header: '' @
                 map byte_char (takeWhile (\<lambda>b. b \<noteq> 0) (e_ident header)))
          else Undefined Ident_not_terminated)
       else if e_ident header ! 4 \<noteq> ELFCLASS32 then sthrow (Unexpected ''Only 32-bit ELF is supported'')
       else sreturn header)"

text \<open>The loop that copies the section headers out of the buffer with a stride of their size.\<close>

fun copy_headers :: "nat \<Rightarrow> u8 list \<Rightarrow> read_error + Elf32_Shdr list" where
  "copy_headers 0 buf = Inr []"
| "copy_headers (Suc n) buf =
     (if length buf < sizeof_Shdr then Inl (Undefined Header_table_overread)
      else rbind (copy_headers n (drop sizeof_Shdr buf)) (\<lambda>shtab. Inr (bytes_Shdr buf # shtab)))"

definition read_section_table :: "(nat \<Rightarrow> bool) \<Rightarrow> Elf32_Ehdr \<Rightarrow> Elf32_Shdr list reader" where
  "read_section_table seek_ok header =
     sthen (cout (field_line ''shoff'' (unat (e_shoff header))))
    (sthen (seekg seek_ok ''Unable to seek to section header table'' (unat (e_shoff header)))
    (sthen (cout (field_line ''shentsize'' (unat (e_shentsize header))))
    (sthen (cout (field_line ''shnum'' (unat (e_shnum header))))
    (let shsize = unat (e_shentsize header) * unat (e_shnum header) in
     if 2 ^ 31 \<le> shsize then sthrow (Undefined Size_overflow)
     else
       sthen (cout (field_line ''section header table size'' shsize))
      (sbind (stream_read ''Unable to read section header table'' shsize) (\<lambda>buf.
         sread (\<lambda>_. copy_headers (unat (e_shnum header)) buf)))))))"

text \<open>The loop that reads the names; \<open>name\<close> is \<open>curr\<close>, the name that was begun.\<close>

primrec read_names :: "nat \<Rightarrow> string \<Rightarrow> string list reader" where
  "read_names 0 name = sreturn []"
| "read_names (Suc n) name =
     sbind (stream_read ''Failed to read char from section name string table'' 1) (\<lambda>buf.
       let c = byte_char (hd buf);
           name = name @ [c]
       in if c = nul
          then sthen (cout (name @ [newline])) (sbind (read_names n []) (\<lambda>names. sreturn (name # names)))
          else read_names n name)"

definition read_section_names :: "(nat \<Rightarrow> bool) \<Rightarrow> Elf32_Shdr list \<Rightarrow> nat \<Rightarrow> string list reader" where
  "read_section_names seek_ok shtab strndx =
     (if length shtab \<le> strndx then sthrow (Undefined Bad_string_index)
      else
        let strhdr = shtab ! strndx in
        sthen (seekg seek_ok ''Unable to seek to section name string table'' (unat (sh_offset strhdr)))
       (sbind (stream_read ''Invalid section name string table'' 1) (\<lambda>buf.
          if hd buf \<noteq> 0 then sthrow (Unexpected ''Invalid section name string table'')
          else read_names (unat (sh_size strhdr)) [])))"

text \<open>The names are collected and dropped; the reader keeps a new object with the header that was
  read. The constructor never throws (\<open>ELF_new_eq\<close>), so that its branch is not taken.\<close>

definition read_run :: "(nat \<Rightarrow> bool) \<Rightarrow> u16 \<Rightarrow> ELF reader" where
  "read_run seek_ok junk =
     (case ELF_new junk of
        Inl _ \<Rightarrow> sthrow (Unexpected [])
      | Inr pelf \<Rightarrow>
          sbind read_header (\<lambda>header.
          sbind (read_section_table seek_ok header) (\<lambda>shtab.
          sthen (sforeach (\<lambda>h. cout (Shdr_lines h)) shtab)
         (sbind (read_section_names seek_ok shtab (unat (e_shstrndx header))) (\<lambda>_.
            sreturn (pelf\<lparr>elf_header := header\<rparr>))))))"

definition read :: "(nat \<Rightarrow> bool) \<Rightarrow> u16 \<Rightarrow> u8 list \<Rightarrow> (read_error + ELF) \<times> string" where
  "read seek_ok junk data =
     (let (r, s) = read_run seek_ok junk \<lparr>i_data = data, i_pos = 0, i_cout = []\<rparr> in (r, i_cout s))"

section \<open>When a file is read\<close>

lemma stream_read_Inr [result_iff]:
  "stream_read msg n s = (Inr buf, t) \<longleftrightarrow>
     (n = 0 \<or> i_pos s + n \<le> length (i_data s)) \<and> buf = take n (drop (i_pos s) (i_data s)) \<and>
     t = s\<lparr>i_pos := i_pos s + n\<rparr>"
  by (auto simp: stream_read_def)

lemma stream_read_Inl [result_iff]:
  "stream_read msg n s = (Inl x, t) \<longleftrightarrow>
     \<not> (n = 0 \<or> i_pos s + n \<le> length (i_data s)) \<and> x = Unexpected msg \<and> t = s"
  by (auto simp: stream_read_def)

lemma seekg_Inr [result_iff]: "seekg seek_ok msg pos s = (Inr u, t) \<longleftrightarrow> seek_ok pos \<and> t = s\<lparr>i_pos := pos\<rparr>"
  by (auto simp: seekg_def)

lemma seekg_Inl [result_iff]:
  "seekg seek_ok msg pos s = (Inl x, t) \<longleftrightarrow> \<not> seek_ok pos \<and> x = Unexpected msg \<and> t = s"
  by (auto simp: seekg_def)

lemma cout_run [simp]: "cout text s = (Inr (), s\<lparr>i_cout := i_cout s @ text\<rparr>)"
  by (simp add: cout_def)

lemma cout_sthen [simp]: "sthen (cout text) m s = m (s\<lparr>i_cout := i_cout s @ text\<rparr>)"
  by (rule sthen_Inr) simp

lemma cout_foreach: "sforeach (\<lambda>x. cout (f x)) xs = cout (concat (map f xs))"
  by (induction xs) (simp_all add: fun_eq_iff)

lemma read_header_Inr [result_iff]:
  "read_header s = (Inr h, t) \<longleftrightarrow>
     i_pos s + sizeof_Ehdr \<le> length (i_data s) \<and>
     h = bytes_Ehdr (take sizeof_Ehdr (drop (i_pos s) (i_data s))) \<and> t = s\<lparr>i_pos := i_pos s + sizeof_Ehdr\<rparr> \<and>
     check_ident (e_ident h) \<and> e_ident h ! 4 = ELFCLASS32"
  by (auto simp: read_header_def result_iff Let_def split: if_splits)

lemma copy_headers_Inr [result_iff]:
  "copy_headers n buf = Inr tab \<longleftrightarrow>
     sizeof_Shdr * n \<le> length buf \<and> tab = map (\<lambda>i. bytes_Shdr (drop (sizeof_Shdr * i) buf)) [0 ..< n]"
proof (induction n arbitrary: buf tab)
  case 0
  then show ?case by auto
next
  case (Suc n)
  have "copy_headers (Suc n) buf = Inr tab \<longleftrightarrow>
      sizeof_Shdr \<le> length buf \<and> (\<exists>tab'. copy_headers n (drop sizeof_Shdr buf) = Inr tab' \<and> tab = bytes_Shdr buf # tab')"
    by (auto simp: result_iff)
  also have "\<dots> \<longleftrightarrow> sizeof_Shdr * Suc n \<le> length buf \<and>
      tab = map (\<lambda>i. bytes_Shdr (drop (sizeof_Shdr * i) buf)) [0 ..< Suc n]"
    unfolding Suc.IH map_upt_Suc by (auto simp: add.commute)
  finally show ?case .
qed

text \<open>The names that the loop reads: the zero-terminated strings of the bytes, with their zero,
  the first of them after what was read before.\<close>

fun terminated :: "string \<Rightarrow> u8 list \<Rightarrow> string list" where
  "terminated name [] = []"
| "terminated name (b # bs) =
     (if b = 0 then (name @ [nul]) # terminated [] bs else terminated (name @ [byte_char b]) bs)"

lemma of_char_byte_char [simp]: "of_char (byte_char b) = unat b"
  using unsigned_less [of b, where 'a = nat] by (simp add: byte_char_def)

lemma byte_char_nul [simp]: "byte_char b = nul \<longleftrightarrow> b = 0"
proof -
  have "byte_char b = nul \<longleftrightarrow> (of_char (byte_char b) :: nat) = of_char nul"
    by (simp only: of_char_eq_iff)
  also have "\<dots> \<longleftrightarrow> b = 0" by (simp add: unat_eq_0)
  finally show ?thesis .
qed

lemma byte_char_0 [simp]: "byte_char 0 = nul"
  by simp

lemma read_names_Inr [result_iff]:
  "read_names n name s = (Inr names, t) \<longleftrightarrow>
     (n = 0 \<or> i_pos s + n \<le> length (i_data s)) \<and>
     names = terminated name (take n (drop (i_pos s) (i_data s))) \<and>
     t = s\<lparr>i_pos := i_pos s + n, i_cout := i_cout s @ concat (map (\<lambda>nm. nm @ [newline]) names)\<rparr>"
proof (induction n arbitrary: name s names)
  case 0
  then show ?case by auto
next
  case (Suc n)
  show ?case
  proof (cases "i_pos s + 1 \<le> length (i_data s)")
    case False
    then show ?thesis by (auto simp: result_iff)
  next
    case True
    then obtain b bs where d: "drop (i_pos s) (i_data s) = b # bs"
      by (cases "drop (i_pos s) (i_data s)") auto
    then have bs: "drop (Suc (i_pos s)) (i_data s) = bs" by (metis drop_Suc list.sel(3) tl_drop)
    from d True have r: "stream_read msg 1 s = (Inr [b], s\<lparr>i_pos := i_pos s + 1\<rparr>)" for msg
      by (simp add: stream_read_def)
    show ?thesis
      using True by (auto simp: r Suc.IH result_iff d bs Let_def)
  qed
qed

lemma read_section_table_Inr [result_iff]:
  "read_section_table seek_ok h s = (Inr tab, t) \<longleftrightarrow>
     (let off = unat (e_shoff h); n = unat (e_shnum h); shsize = unat (e_shentsize h) * n;
          buf = take shsize (drop off (i_data s))
      in seek_ok off \<and> shsize < 2 ^ 31 \<and> (shsize = 0 \<or> off + shsize \<le> length (i_data s)) \<and>
         sizeof_Shdr * n \<le> length buf \<and> tab = map (\<lambda>i. bytes_Shdr (drop (sizeof_Shdr * i) buf)) [0 ..< n] \<and>
         t = s\<lparr>i_pos := off + shsize, i_cout := i_cout s @ field_line ''shoff'' off @
           field_line ''shentsize'' (unat (e_shentsize h)) @ field_line ''shnum'' n @
           field_line ''section header table size'' shsize\<rparr>)"
  unfolding read_section_table_def by (auto simp: result_iff Let_def not_le split: prod.splits)

lemma read_section_names_Inr [result_iff]:
  "read_section_names seek_ok tab idx s = (Inr names, t) \<longleftrightarrow>
     idx < length tab \<and>
     (let off = unat (sh_offset (tab ! idx)); n = unat (sh_size (tab ! idx))
      in seek_ok off \<and> off + 1 + n \<le> length (i_data s) \<and> i_data s ! off = 0 \<and>
         names = terminated [] (take n (drop (off + 1) (i_data s))) \<and>
         t = s\<lparr>i_pos := off + 1 + n, i_cout := i_cout s @ concat (map (\<lambda>nm. nm @ [newline]) names)\<rparr>)"
  unfolding read_section_names_def
  by (auto simp: Let_def result_iff hd_drop_conv_nth not_le)

text \<open>The conditions under which a file is accepted, and the object that comes back.\<close>

definition readable :: "(nat \<Rightarrow> bool) \<Rightarrow> u8 list \<Rightarrow> bool" where
  "readable seek_ok data \<longleftrightarrow>
     sizeof_Ehdr \<le> length data \<and>
     (let h = bytes_Ehdr (take sizeof_Ehdr data);
          off = unat (e_shoff h); n = unat (e_shnum h); shsize = unat (e_shentsize h) * n;
          table = take shsize (drop off data);
          str = bytes_Shdr (drop (sizeof_Shdr * unat (e_shstrndx h)) table);
          stroff = unat (sh_offset str)
      in check_ident (e_ident h) \<and> e_ident h ! 4 = ELFCLASS32 \<and>
         seek_ok off \<and> shsize < 2 ^ 31 \<and> off + shsize \<le> length data \<and> sizeof_Shdr * n \<le> shsize \<and>
         e_shstrndx h < e_shnum h \<and>
         seek_ok stroff \<and> stroff + 1 + unat (sh_size str) \<le> length data \<and> data ! stroff = 0)"

text \<open>What is printed for such a file: three fields of the file header, the size of the table, its
  entries, and the zero-terminated strings of the name table.\<close>

definition report :: "u8 list \<Rightarrow> string" where
  "report data =
     (let h = bytes_Ehdr (take sizeof_Ehdr data);
          off = unat (e_shoff h); n = unat (e_shnum h); shsize = unat (e_shentsize h) * n;
          tab = map (\<lambda>i. bytes_Shdr (drop (sizeof_Shdr * i) (take shsize (drop off data)))) [0 ..< n];
          str = tab ! unat (e_shstrndx h)
      in field_line ''shoff'' off @ field_line ''shentsize'' (unat (e_shentsize h)) @ field_line ''shnum'' n @
         field_line ''section header table size'' shsize @ concat (map Shdr_lines tab) @
         concat (map (\<lambda>nm. nm @ [newline])
           (terminated [] (take (unat (sh_size str)) (drop (unat (sh_offset str) + 1) data)))))"

lemma sread_iff [result_iff]:
  "sread f s = (Inr a, t) \<longleftrightarrow> f s = Inr a \<and> t = s"
  "sread f s = (Inl x, t) \<longleftrightarrow> f s = Inl x \<and> t = s"
  by auto

lemma read_stages:
  "read seek_ok junk data = (Inr r, out) \<longleftrightarrow>
     (\<exists>h t1 tab t2 names t3.
        read_header \<lparr>i_data = data, i_pos = 0, i_cout = []\<rparr> = (Inr h, t1) \<and>
        read_section_table seek_ok h t1 = (Inr tab, t2) \<and>
        read_section_names seek_ok tab (unat (e_shstrndx h))
          (t2\<lparr>i_cout := i_cout t2 @ concat (map Shdr_lines tab)\<rparr>) = (Inr names, t3) \<and>
        r = (new_object junk)\<lparr>elf_header := h\<rparr> \<and> out = i_cout t3)"
  by (auto simp: read_def read_run_def ELF_new_object sbind_Inr_iff sthen_Inr_iff cout_foreach split: prod.splits)

lemma read_iff:
  "read seek_ok junk data = (Inr r, out) \<longleftrightarrow>
     readable seek_ok data \<and> out = report data \<and>
     r = (new_object junk)\<lparr>elf_header := bytes_Ehdr (take sizeof_Ehdr data)\<rparr>"
proof -
  define h where "h = bytes_Ehdr (take sizeof_Ehdr data)"
  define off where "off = unat (e_shoff h)"
  define n where "n = unat (e_shnum h)"
  define shsize where "shsize = unat (e_shentsize h) * n"
  define table where "table = take shsize (drop off data)"
  define tab where "tab = map (\<lambda>i. bytes_Shdr (drop (sizeof_Shdr * i) table)) [0 ..< n]"
  define str where "str = tab ! unat (e_shstrndx h)"
  let ?r = "(new_object junk)\<lparr>elf_header := h\<rparr>"
  let ?names = "terminated [] (take (unat (sh_size str)) (drop (unat (sh_offset str) + 1) data))"
  let ?out = "field_line ''shoff'' off @ field_line ''shentsize'' (unat (e_shentsize h)) @ field_line ''shnum'' n @
         field_line ''section header table size'' shsize @ concat (map Shdr_lines tab) @
         concat (map (\<lambda>nm. nm @ [newline]) ?names)"
  let ?lines = "field_line ''shoff'' off @ field_line ''shentsize'' (unat (e_shentsize h)) @ field_line ''shnum'' n @
         field_line ''section header table size'' shsize"
  let ?s0 = "\<lparr>i_data = data, i_pos = 0, i_cout = []\<rparr>"
  let ?s1 = "\<lparr>i_data = data, i_pos = sizeof_Ehdr, i_cout = []\<rparr>"
  let ?s2 = "\<lparr>i_data = data, i_pos = off + shsize, i_cout = ?lines\<rparr>"
  let ?s3 = "\<lparr>i_data = data, i_pos = off + shsize, i_cout = ?lines @ concat (map Shdr_lines tab)\<rparr>"
  have hdr: "read_header ?s0 = (Inr h', t) \<longleftrightarrow> sizeof_Ehdr \<le> length data \<and> check_ident (e_ident h) \<and>
      e_ident h ! 4 = ELFCLASS32 \<and> h' = h \<and> t = ?s1" for h' t
    by (auto simp: read_header_Inr h_def)
  have table: "read_section_table seek_ok h ?s1 = (Inr tab', t) \<longleftrightarrow> seek_ok off \<and> shsize < 2 ^ 31 \<and>
      (shsize = 0 \<or> off + shsize \<le> length data) \<and> sizeof_Shdr * n \<le> length table \<and> tab' = tab \<and> t = ?s2" for tab' t
    by (auto simp: read_section_table_Inr Let_def off_def n_def shsize_def table_def tab_def)
  have names: "read_section_names seek_ok tab (unat (e_shstrndx h)) ?s3 = (Inr nms, t) \<longleftrightarrow>
      unat (e_shstrndx h) < n \<and> seek_ok (unat (sh_offset str)) \<and>
      unat (sh_offset str) + 1 + unat (sh_size str) \<le> length data \<and> data ! unat (sh_offset str) = 0 \<and>
      nms = ?names \<and> t = \<lparr>i_data = data, i_pos = unat (sh_offset str) + 1 + unat (sh_size str), i_cout = ?out\<rparr>" for nms t
    by (auto simp: read_section_names_Inr Let_def str_def [symmetric]) (simp_all add: tab_def)
  have "read seek_ok junk data = (Inr r, out) \<longleftrightarrow> sizeof_Ehdr \<le> length data \<and> check_ident (e_ident h) \<and> e_ident h ! 4 = ELFCLASS32 \<and>
      seek_ok off \<and> shsize < 2 ^ 31 \<and> (shsize = 0 \<or> off + shsize \<le> length data) \<and>
      sizeof_Shdr * n \<le> length table \<and> unat (e_shstrndx h) < n \<and>
      seek_ok (unat (sh_offset str)) \<and> unat (sh_offset str) + 1 + unat (sh_size str) \<le> length data \<and>
      data ! unat (sh_offset str) = 0 \<and> out = ?out \<and> r = ?r"
    unfolding read_stages using names by (auto simp: hdr table)
  also have "\<dots> \<longleftrightarrow> readable seek_ok data \<and> out = report data \<and> r = ?r"
  proof -
    have "report data = ?out"
      unfolding report_def Let_def str_def tab_def table_def shsize_def off_def n_def h_def by (rule refl)
    moreover have "str = bytes_Shdr (drop (sizeof_Shdr * unat (e_shstrndx h)) table)" if "unat (e_shstrndx h) < n"
      using that by (simp add: str_def tab_def)
    moreover have "length table = min shsize (length data - off)" by (simp add: table_def)
    moreover have "readable seek_ok data \<longleftrightarrow> sizeof_Ehdr \<le> length data \<and> check_ident (e_ident h) \<and> e_ident h ! 4 = ELFCLASS32 \<and>
        seek_ok off \<and> shsize < 2 ^ 31 \<and> off + shsize \<le> length data \<and> sizeof_Shdr * n \<le> shsize \<and> unat (e_shstrndx h) < n \<and>
        (let str = bytes_Shdr (drop (sizeof_Shdr * unat (e_shstrndx h)) table); stroff = unat (sh_offset str)
         in seek_ok stroff \<and> stroff + 1 + unat (sh_size str) \<le> length data \<and> data ! stroff = 0)"
      unfolding readable_def Let_def
      by (simp only: h_def off_def n_def shsize_def table_def word_less_nat_alt conj_assoc)
    ultimately show ?thesis by (auto simp: Let_def)
  qed
  finally show ?thesis unfolding h_def .
qed

text \<open>
  The file of the writer is big-endian, the reader takes it as little-endian: it looks for
  the section headers at the swapped offset.
\<close>

lemma file_header_read:
  "ident_ok e \<Longrightarrow> bytes_Ehdr (take sizeof_Ehdr (file_bytes e)) = swap_elf_header (file_header e)"
proof -
  assume e: "ident_ok e"
  have "length (Ehdr_bytes (swap_elf_header (file_header e))) = sizeof_Ehdr"
    by (rule ehdr.swapped.length_enc [OF file_header_valid [OF e]])
  then have "take sizeof_Ehdr (file_bytes e) = Ehdr_bytes (swap_elf_header (file_header e))"
    by (simp add: file_bytes_def)
  then show ?thesis
    using ehdr.dec_enc [of "swap_elf_header (file_header e)" "[]"] ehdr.valid_swap [OF file_header_valid [OF e]]
    by simp
qed

lemma swapped_offset: "unat (swap32 (of_nat sizeof_Ehdr)) = 0x34000000"
  by (simp add: swap32_def u32_bytes_def)

lemma writer_file_unreadable:
  assumes "ident_ok e" and "length (file_bytes e) < 0x34000000"
  shows "\<not> readable seek_ok (file_bytes e)"
proof
  assume "readable seek_ok (file_bytes e)"
  then have "unat (e_shoff (bytes_Ehdr (take sizeof_Ehdr (file_bytes e)))) \<le> length (file_bytes e)"
    by (simp add: readable_def Let_def)
  then show False
    using assms swapped_offset
    by (simp add: file_header_read swap_elf_header_def file_header_def fill_elf_header_def)
qed

section \<open>Properties\<close>

text \<open>C35: The reader returns exactly for the files that meet its conditions (the magic bytes,
  the 32-bit class, a section header table and a name table inside of the file, whose first byte
  is zero and which one more byte follows). What it returns is a fresh object of which only the
  file header is that of the file, since sections and names that were read are dropped; what it
  prints are the fields of the headers and the strings of the name table.\<close>

theorem reader_accepts_exactly:
  "read seek_ok junk data = (Inr r, out) \<longleftrightarrow>
     readable seek_ok data \<and> out = report data \<and>
     r = (new_object junk)\<lparr>elf_header := bytes_Ehdr (take sizeof_Ehdr data)\<rparr>"
  by (rule read_iff)

text \<open>C36: Where the reader is defined: no read beyond an array and no overflow happens if the
  identification holds a zero byte, the entries of the section header table are at least 40
  bytes long and the table smaller than 2 GiB, and the index of the name table is inside of it. None of these
  conditions is checked by the code.\<close>

theorem reader_defined:
  assumes "h = bytes_Ehdr (take sizeof_Ehdr data)" and "0 \<in> set (e_ident h)"
    and "sizeof_Shdr \<le> unat (e_shentsize h)" and "unat (e_shentsize h) * unat (e_shnum h) < 2 ^ 31"
    and "unat (e_shstrndx h) < unat (e_shnum h)"
  shows "fst (read seek_ok junk data) \<noteq> Inl (Undefined u)"
proof
  assume "fst (read seek_ok junk data) = Inl (Undefined u)"
  then consider (hdr) t where "read_header \<lparr>i_data = data, i_pos = 0, i_cout = []\<rparr> = (Inl (Undefined u), t)"
    | (tab) s t where "read_section_table seek_ok h s = (Inl (Undefined u), t)"
    | (names) s tab s' t t' where "read_section_table seek_ok h s = (Inr tab, s')"
        "read_section_names seek_ok tab (unat (e_shstrndx h)) t = (Inl (Undefined u), t')"
    using assms(1)
    by (auto simp: read_def read_run_def ELF_new_object read_header_Inr sbind_Inl_iff sthen_Inl_iff cout_foreach
        split: prod.splits)
  then show False
  proof cases
    case hdr
    with assms(1,2) show False
      by (auto simp: read_header_def result_iff Let_def split: if_splits)
  next
    case tab
    have copy: "copy_headers n buf \<noteq> Inl (Undefined u)" if "sizeof_Shdr * n \<le> length buf" for n buf
      using that by (induction n buf rule: copy_headers.induct) (auto simp: rbind_Inl_iff)
    let ?size = "unat (e_shentsize h) * unat (e_shnum h)"
    have "sizeof_Shdr * unat (e_shnum h) \<le> ?size" using assms(3) by simp
    moreover from this assms(5) have "?size \<noteq> 0" by linarith
    ultimately show False
      using tab assms(4) copy [of "unat (e_shnum h)"]
      by (auto simp: read_section_table_def sbind_Inl_iff sthen_Inl_iff sread_iff stream_read_Inl stream_read_Inr
          seekg_Inl Let_def split: if_splits)
  next
    case names
    have read: "read_names n nm s \<noteq> (Inl (Undefined u), t)" for n nm s t
      by (induction n arbitrary: nm s t) (auto simp: sbind_Inl_iff stream_read_Inl Let_def split: if_splits)
    from names(1) assms(5) have "unat (e_shstrndx h) < length tab"
      by (auto simp: read_section_table_Inr Let_def)
    with names(2) read show False
      by (auto simp: read_section_names_def sbind_Inl_iff sthen_Inl_iff stream_read_Inl seekg_Inl Let_def split: if_splits)
  qed
qed

text \<open>A little-endian file with one section header, that of its name table.\<close>

definition sample_file :: "u8 list" where
  "sample_file = Ehdr_bytes \<lparr>e_ident = [0x7f, 0x45, 0x4c, 0x46, 1, 1, 1, 0, 0, 0, 0, 0, 0, 0, 0, 0],
      e_type = 1, e_machine = 0, e_version = 1, e_entry = 0, e_phoff = 0, e_shoff = 52, e_flags = 0,
      e_ehsize = 52, e_phentsize = 32, e_phnum = 0, e_shentsize = 40, e_shnum = 1, e_shstrndx = 0\<rparr> @
    Shdr_bytes (null_Shdr\<lparr>sh_type := 3, sh_offset := 92, sh_size := 2\<rparr>) @ [0, 0x61, 0]"

lemma sample_file_header:
  "bytes_Ehdr (take sizeof_Ehdr sample_file) =
     \<lparr>e_ident = [0x7f, 0x45, 0x4c, 0x46, 1, 1, 1, 0, 0, 0, 0, 0, 0, 0, 0, 0],
      e_type = 1, e_machine = 0, e_version = 1, e_entry = 0, e_phoff = 0, e_shoff = 52, e_flags = 0,
      e_ehsize = 52, e_phentsize = 32, e_phnum = 0, e_shentsize = 40, e_shnum = 1, e_shstrndx = 0\<rparr>"
  by (simp add: sample_file_def Ehdr_bytes_def u16_bytes_def u32_bytes_def bytes_Ehdr_def)

theorem reader_defined_witness: "fst (read (\<lambda>_. True) 0 sample_file) \<noteq> Inl (Undefined Bad_string_index)"
  by (rule reader_defined [OF sample_file_header [symmetric]]) simp_all

text \<open>C37: The reader cannot read what the writer writes: the writer's file is big-endian, and the
  reader takes the swapped offset of the section header table. On the file of any object of the
  program of less than 832 MiB it fails with one of the two messages on this table, after it has printed
  the swapped fields.\<close>

theorem reader_rejects_writer:
  assumes "reachable junk e" and "fst (write_stream e) = Inr file" and "length file < 0x34000000"
  shows "read seek_ok junk' file =
    (if seek_ok 0x34000000
     then (Inl (Unexpected ''Unable to read section header table''),
       field_line ''shoff'' 0x34000000 @ field_line ''shentsize'' 10240 @ field_line ''shnum'' 2048 @
       field_line ''section header table size'' 20971520)
     else (Inl (Unexpected ''Unable to seek to section header table''), field_line ''shoff'' 0x34000000))"
proof -
  have out: "file = file_bytes e" using assms(2) by (simp add: write_stream_bytes)
  note ok = reachable_sections [OF assms(1)]
  let ?h = "swap_elf_header (file_header e)" and ?s = "\<lparr>i_data = file, i_pos = sizeof_Ehdr, i_cout = []\<rparr>"
  have len: "sizeof_Ehdr \<le> length file" by (simp add: out length_file [OF ok(3)])
  have h: "bytes_Ehdr (take sizeof_Ehdr file) = ?h" by (simp add: out file_header_read [OF ok(3)])
  have fields: "e_ident ?h = ELF_IDENT" "e_shoff ?h = swap32 (of_nat sizeof_Ehdr)"
      "e_shentsize ?h = swap16 40" "e_shnum ?h = swap16 8"
    using ok(1) reachable_frame(1) [OF assms(1)]
    by (simp_all add: swap_elf_header_def file_header_def fill_elf_header_def ELF_initial_header_def)
  have swaps: "unat (swap16 40) = 10240" "unat (swap16 8) = 2048"
    by (simp_all add: swap16_def u16_bytes_def)
  have hdr: "read_header \<lparr>i_data = file, i_pos = 0, i_cout = []\<rparr> = (Inr ?h, ?s)"
    using len by (simp add: read_header_Inr h fields check_ident_def ELF_IDENT_def)
  have "read_section_table seek_ok ?h ?s =
    (if seek_ok 0x34000000
     then (Inl (Unexpected ''Unable to read section header table''),
       \<lparr>i_data = file, i_pos = 0x34000000, i_cout = field_line ''shoff'' 0x34000000 @ field_line ''shentsize'' 10240 @
          field_line ''shnum'' 2048 @ field_line ''section header table size'' 20971520\<rparr>)
     else (Inl (Unexpected ''Unable to seek to section header table''),
       ?s\<lparr>i_cout := field_line ''shoff'' 0x34000000\<rparr>))"
    using assms(3) unfolding read_section_table_def fields swapped_offset swaps
    by (simp add: sthen_def sbind_def seekg_def stream_read_def)
  then show ?thesis
    by (simp add: read_def read_run_def ELF_new_object hdr)
qed

theorem reader_rejects_writer_witness:
  "read (\<lambda>_. False) 0 (file_bytes (new_object 0)) =
    (if False
     then (Inl (Unexpected ''Unable to read section header table''),
       field_line ''shoff'' 0x34000000 @ field_line ''shentsize'' 10240 @ field_line ''shnum'' 2048 @
       field_line ''section header table size'' 20971520)
     else (Inl (Unexpected ''Unable to seek to section header table''), field_line ''shoff'' 0x34000000))"
proof -
  have "ident_ok (new_object 0)" by (rule reachable_sections(3) [OF reachable_new])
  then have "length (file_bytes (new_object 0)) < 0x34000000"
    by (simp add: length_file) (simp add: new_object_def initial_sections_def make_section_defs
        section_write_def Sym_bytes_def)
  from reader_rejects_writer [OF reachable_new write_stream_bytes this, of "\<lambda>_. False" 0] show ?thesis .
qed

end
