(* ===== verification/Elf_Decoder.thy ===== *)
theory Elf_Decoder
  imports Elf_Writer
begin

text \<open>
  A reference decoder of 32-bit big-endian ELF files, written from the format (\<open>elf(5)\<close>) and
  not from the code: fields are numbers at fixed offsets, sections are found through
  \<open>e_shoff\<close>, \<open>e_shentsize\<close>, \<open>e_shnum\<close> and \<open>e_shstrndx\<close>, names are zero-terminated, and a section of
  type \<open>SHT_NOBITS\<close> has no bytes in the file. It shows what other tools find in a file
  of \<open>ELFWriter::write\<close>, and that the layouts and byte swaps of \<open>Elf_Format\<close> are those of the format.
\<close>

definition be :: "u8 list \<Rightarrow> nat" where
  "be bs = foldl (\<lambda>n b. 256 * n + unat b) 0 bs"

definition field_at :: "nat \<Rightarrow> nat \<Rightarrow> u8 list \<Rightarrow> nat" where
  "field_at k n bs = be (take n (drop k bs))"

text \<open>The same in the byte order of a little-endian host.\<close>

definition host_field_at :: "nat \<Rightarrow> nat \<Rightarrow> u8 list \<Rightarrow> nat" where
  "host_field_at k n bs = be (rev (take n (drop k bs)))"

record decoded =
  d_name :: "u8 list"
  d_type :: nat
  d_flags :: nat
  d_bytes :: "u8 list"

definition entry_at :: "u8 list \<Rightarrow> nat \<Rightarrow> u8 list" where
  "entry_at bytes i = drop (field_at 32 4 bytes + field_at 46 2 bytes * i) bytes"

definition decode_section :: "u8 list \<Rightarrow> nat \<Rightarrow> decoded" where
  "decode_section bytes i =
     (let h = entry_at bytes i;
          names = field_at 16 4 (entry_at bytes (field_at 50 2 bytes));
          len = field_at 20 4 h
      in \<lparr>d_name = takeWhile (\<lambda>b. b \<noteq> 0) (drop (names + field_at 0 4 h) bytes),
          d_type = field_at 4 4 h,
          d_flags = field_at 8 4 h,
          d_bytes = (if field_at 4 4 h = 8 then replicate len 0 else take len (drop (field_at 16 4 h) bytes))\<rparr>)"

text \<open>The sections of the table entries 1 to \<open>n - 1\<close>; entry 0 is reserved.\<close>

definition decode_table :: "nat \<Rightarrow> u8 list \<Rightarrow> decoded list" where
  "decode_table n bytes = map (decode_section bytes) [1 ..< n]"

definition decode_file :: "u8 list \<Rightarrow> decoded list" where
  "decode_file bytes = decode_table (field_at 48 2 bytes) bytes"

section \<open>Big-endian fields\<close>

lemma unat_low_byte:
  "unat (ucast (w :: 'a::len word) :: u8) = unat w mod 256"
  "unat (drop_bit k w) = unat w div 2 ^ k"
  by (simp add: unsigned_ucast_eq take_bit_eq_mod) (rule trans [OF unat_drop_bit_eq drop_bit_eq_div])

lemma be_u16: "be (rev (u16_bytes w)) = unat w"
proof -
  have "unat w < 65536" using unsigned_less [of w, where 'a = nat] by simp
  then show ?thesis
    by (simp add: be_def u16_bytes_def unat_low_byte)
qed
lemma be_u32: "be (rev (u32_bytes w)) = unat w"
proof -
  define n where "n = unat w"
  have "n < 4294967296" using unsigned_less [of w, where 'a = nat] by (simp add: n_def)
  then have "n div 16777216 mod 256 = n div 16777216" by simp
  moreover have "n div 16777216 = n div 256 div 256 div 256" "n div 65536 = n div 256 div 256"
    by (simp_all add: div_mult2_eq [symmetric])
  ultimately have "256 * (256 * (256 * (n div 16777216) + n div 65536 mod 256) + n div 256 mod 256) + n mod 256 = n"
    "n div 16777216 mod 256 = n div 16777216"
    by simp_all
  then show ?thesis
    by (simp add: be_def u32_bytes_def unat_low_byte n_def)
qed

lemma field_at_simps:
  "length a = k \<Longrightarrow> field_at (k + m) n (a @ bs) = field_at m n bs"
  "length a = n \<Longrightarrow> field_at 0 n (a @ bs) = be a"
  by (simp_all add: field_at_def)

text \<open>The fields of the two headers as \<open>elf(5)\<close> has them: offset and size.\<close>

definition Ehdr_layout :: "(nat \<times> nat) list" where
  "Ehdr_layout =
     [(16, 2), (18, 2), (20, 4), (24, 4), (28, 4), (32, 4), (36, 4), (40, 2), (42, 2), (44, 2), (46, 2), (48, 2), (50, 2)]"

definition Shdr_layout :: "(nat \<times> nat) list" where
  "Shdr_layout = [(0, 4), (4, 4), (8, 4), (12, 4), (16, 4), (20, 4), (24, 4), (28, 4), (32, 4), (36, 4)]"

definition fields :: "(nat \<times> nat) list \<Rightarrow> u8 list \<Rightarrow> nat list" where
  "fields layout bs = map (\<lambda>(k, n). field_at k n bs) layout"

lemma Shdr_layout_fields:
  "fields Shdr_layout (Shdr_bytes (swap_section_header h) @ bs) =
     map unat [sh_name h, sh_type h, sh_flags h, sh_addr h, sh_offset h, sh_size h, sh_link h, sh_info h,
       sh_addralign h, sh_entsize h]"
  by (simp add: fields_def Shdr_layout_def Shdr_bytes_def swap_section_header_def u32_bytes_swap field_at_def be_u32)

lemma Ehdr_layout_fields:
  assumes "valid_Ehdr h"
  shows "fields Ehdr_layout (Ehdr_bytes (swap_elf_header h) @ bs) =
    [unat (e_type h), unat (e_machine h), unat (e_version h), unat (e_entry h), unat (e_phoff h), unat (e_shoff h),
     unat (e_flags h), unat (e_ehsize h), unat (e_phentsize h), unat (e_phnum h), unat (e_shentsize h),
     unat (e_shnum h), unat (e_shstrndx h)]"
  using assms
  by (simp add: fields_def Ehdr_layout_def valid_Ehdr_def Ehdr_bytes_def swap_elf_header_def u16_bytes_swap
      u32_bytes_swap field_at_def be_u16 be_u32)

lemma Sym_host_fields:
  "host_field_at 0 4 (Sym_bytes y @ bs) = unat (st_name y)" "host_field_at 4 4 (Sym_bytes y @ bs) = unat (st_value y)"
  "host_field_at 8 4 (Sym_bytes y @ bs) = unat (st_size y)" "host_field_at 12 1 (Sym_bytes y @ bs) = unat (st_info y)"
  "host_field_at 13 1 (Sym_bytes y @ bs) = unat (st_other y)" "host_field_at 14 2 (Sym_bytes y @ bs) = unat (st_shndx y)"
  by (simp_all add: host_field_at_def Sym_bytes_def be_u16 be_u32) (simp_all add: be_def)

lemma Rel_host_fields:
  "host_field_at 0 4 (Rel_bytes r @ bs) = unat (r_offset r)" "host_field_at 4 4 (Rel_bytes r @ bs) = unat (r_info r)"
  by (simp_all add: host_field_at_def Rel_bytes_def be_u32)

lemma null_header_bytes: "Shdr_bytes null_Shdr = replicate 40 0"
  by code_simp

lemmas Shdr_fields = Shdr_layout_fields [unfolded fields_def Shdr_layout_def, simplified]
lemmas Ehdr_fields = Ehdr_layout_fields [unfolded fields_def Ehdr_layout_def, simplified]

section \<open>Decoding a written file\<close>

lemma file_fields:
  assumes "reachable junk e"
  shows "field_at 32 4 (file_bytes e) = sizeof_Ehdr" and "field_at 46 2 (file_bytes e) = sizeof_Shdr"
    and "field_at 48 2 (file_bytes e) = 8" and "field_at 50 2 (file_bytes e) = 1"
  using reachable_sections [OF assms] reachable_frame(1) [OF assms]
    Ehdr_fields [OF file_header_valid [OF reachable_sections(3) [OF assms]]]
  by (simp_all add: file_bytes_def) (simp_all add: file_header_def fill_elf_header_def ELF_initial_header_def)

lemma file_entry:
  assumes "reachable junk e" and "i < length (elf_sections e)"
  shows "\<exists>bs. entry_at (file_bytes e) (i + 1) =
    Shdr_bytes (swap_section_header (written_header (elf_sections e) i)) @ bs"
proof -
  have "\<exists>bs. drop (sizeof_Shdr * (i + 1)) (concat (map (\<lambda>h. Shdr_bytes (swap_section_header h)) (header_table (elf_sections e))) @
      concat (map section_write (elf_sections e))) =
    Shdr_bytes (swap_section_header (header_table (elf_sections e) ! (i + 1))) @ bs"
    by (rule shdr.swapped.drop_table) (use assms(2) in \<open>simp_all add: list_all_iff\<close>)
  then show ?thesis
    using assms(2) unfolding entry_at_def file_fields [OF assms(1)] drop_file_header [OF reachable_sections(3) [OF assms(1)]]
    by (simp add: header_table_def)
qed

definition section_view :: "ISection \<Rightarrow> decoded" where
  "section_view s =
     \<lparr>d_name = map char_byte (s_name s),
      d_type = unat (sh_type (s_header s)),
      d_flags = unat (sh_flags (s_header s)),
      d_bytes = (if sh_type (s_header s) = SHT_NOBITS then replicate (length (section_write s)) 0 else section_write s)\<rparr>"

lemma reachable_names:
  assumes "reachable junk e" and "s \<in> set (elf_sections e)"
  shows "0 \<notin> set (map char_byte (s_name s))"
proof -
  have "map s_name (elf_sections e) = map fst (map section_frame (elf_sections e))"
    by (simp add: section_frame_def)
  then have "s_name s \<in> {''shstrtab'', ''strtab'', ''data'', ''rodata'', ''bss'', ''text'', ''init'', ''symtab''}"
    using arg_cong [OF reachable_frame(3) [OF assms(1)], of "set \<circ> map fst"] assms(2)
    by (auto simp: section_frame_def)
  then show ?thesis by (auto simp: char_byte_def)
qed

lemma takeWhile_terminated:
  assumes "take (length ys + 1) xs = ys @ [0 :: u8]" and "0 \<notin> set ys"
  shows "takeWhile (\<lambda>b. b \<noteq> 0) xs = ys"
proof -
  have "xs = (ys @ [0]) @ drop (length ys + 1) xs"
    unfolding assms(1) [symmetric] by (rule append_take_drop_id [symmetric])
  moreover have "takeWhile (\<lambda>b. b \<noteq> 0) (ys @ 0 # zs) = ys" for zs
    using assms(2) by (induction ys) auto
  ultimately show ?thesis by (metis append.assoc append_Cons append_Nil)
qed

lemma decode_section_view:
  assumes "reachable junk e" and "i < length (elf_sections e)" and "length (file_bytes e) < 2 ^ 32"
  shows "decode_section (file_bytes e) (i + 1) = section_view (elf_sections e ! i)"
proof -
  let ?ss = "elf_sections e" and ?s = "elf_sections e ! i"
  note ok = reachable_sections(3) [OF assms(1)]
  from file_entry [OF assms(1,2)] obtain bs
    where h: "entry_at (file_bytes e) (i + 1) = Shdr_bytes (swap_section_header (written_header ?ss i)) @ bs" by blast
  have zero: "0 < length ?ss" using assms(2) by linarith
  from file_entry [OF assms(1) zero] obtain cs
    where n: "entry_at (file_bytes e) 1 = Shdr_bytes (swap_section_header (written_header ?ss 0)) @ cs" by auto
  have "takeWhile (\<lambda>b. b \<noteq> 0) (drop (data_offset ?ss 0 + name_offset ?ss i) (file_bytes e)) = map char_byte (s_name ?s)"
    by (rule takeWhile_terminated)
      (use section_name_at(2) [OF assms] reachable_names [OF assms(1)] assms(2) in \<open>simp_all add: c_bytes_def\<close>)
  moreover have "sh_type (written_header ?ss i) = sh_type (s_header ?s)" "sh_flags (written_header ?ss i) = sh_flags (s_header ?s)"
    by (simp_all add: written_header_def)
  moreover have "unat w = 8 \<longleftrightarrow> w = SHT_NOBITS" for w :: u32
    by (simp add: word_unat_eq_iff)
  ultimately show ?thesis
    using written_header_fields [OF ok assms(2,3)] written_header_fields(1) [OF ok zero assms(3)] section_name_at(1) [OF assms]
      file_section [OF ok assms(2)]
    by (simp add: decode_section_def file_fields [OF assms(1)] h [simplified] n [simplified] Shdr_fields section_view_def Let_def)
qed

lemma decode_written:
  assumes "reachable junk e" and "length (file_bytes e) < 2 ^ 32"
  shows "decode_table 9 (file_bytes e) = map section_view (elf_sections e)"
    and "decode_file (file_bytes e) = map section_view (butlast (elf_sections e))"
proof -
  have "decode_table (n + 1) (file_bytes e) = map section_view (take n (elf_sections e))" if "n \<le> 8" for n
  proof -
    have "map (decode_section (file_bytes e)) [1 ..< n + 1] = map (\<lambda>i. decode_section (file_bytes e) (i + 1)) [0 ..< n]"
      by (simp add: map_Suc_upt [symmetric] del: upt_Suc)
    also have "\<dots> = map section_view (take n (elf_sections e))"
      using that reachable_sections(1) [OF assms(1)] decode_section_view [OF assms(1) _ assms(2)]
      by (intro nth_equalityI) simp_all
    finally show ?thesis by (simp only: decode_table_def)
  qed
  from this [of 8] this [of 7]
  show "decode_table 9 (file_bytes e) = map section_view (elf_sections e)"
    and "decode_file (file_bytes e) = map section_view (butlast (elf_sections e))"
    using reachable_sections(1) [OF assms(1)]
    by (simp_all add: decode_file_def file_fields [OF assms(1)] butlast_conv_take)
qed

section \<open>The header of a written file\<close>

lemma header_of_file:
  assumes "reachable junk e"
  shows "take 16 (file_bytes e) = [0x7f, 0x45, 0x4c, 0x46, 1, 2, 1, 255, 0, 0, 0, 0, 0, 0, 0, 0]"
    and "fields Ehdr_layout (file_bytes e) = [1, 0, 1, 0, 0, 52, 0, 52, 32, 0, 40, 8, 1]"
    and "take 40 (drop 52 (file_bytes e)) = replicate 40 0"
    and "length (file_bytes e) = 52 + 40 * 9 + length (concat (map section_write (elf_sections e)))"
proof -
  note ok = reachable_sections [OF assms] and hdr = reachable_frame(1) [OF assms]
  have "take 16 (file_bytes e) = ELF_IDENT"
    using hdr by (simp add: file_bytes_def Ehdr_bytes_def swap_elf_header_def file_header_def fill_elf_header_def
        ELF_initial_header_def ELF_IDENT_def)
  then show "take 16 (file_bytes e) = [0x7f, 0x45, 0x4c, 0x46, 1, 2, 1, 255, 0, 0, 0, 0, 0, 0, 0, 0]"
    by (simp add: ELF_IDENT_def)
  show "fields Ehdr_layout (file_bytes e) = [1, 0, 1, 0, 0, 52, 0, 52, 32, 0, 40, 8, 1]"
    unfolding file_bytes_def Ehdr_layout_fields [OF file_header_valid [OF ok(3)]]
    using ok hdr by (simp add: file_header_def fill_elf_header_def ELF_initial_header_def)
  show "take 40 (drop 52 (file_bytes e)) = replicate 40 0"
    using drop_file_header [OF ok(3), of 0] by (simp add: header_table_def null_header_bytes)
  show "length (file_bytes e) = 52 + 40 * 9 + length (concat (map section_write (elf_sections e)))"
    using length_file [OF ok(3)] ok(1) by simp
qed

section \<open>Properties\<close>

text \<open>C34: The structures in the file, read as numbers at the offsets of \<open>elf(5)\<close>. A swapped file header and a
  swapped section header have 52 and 40 bytes, and each of their fields stands at its offset as a
  big-endian number, which is the byte order that the file declares. Symbols and relocations, with 16 and 8 bytes, are
  written unswapped: their fields are right only for a reader in the byte order of the host. The reader's copy of a
  header out of a buffer gives back the fields as they were written there.\<close>

theorem structure_layouts:
  assumes "valid_Ehdr e"
  shows "take 16 (Ehdr_bytes (swap_elf_header e)) = e_ident e \<and>
    fields [(16, 2), (18, 2), (20, 4), (24, 4), (28, 4), (32, 4), (36, 4), (40, 2), (42, 2), (44, 2), (46, 2), (48, 2), (50, 2)]
        (Ehdr_bytes (swap_elf_header e) @ bs) =
      [unat (e_type e), unat (e_machine e), unat (e_version e), unat (e_entry e), unat (e_phoff e), unat (e_shoff e),
       unat (e_flags e), unat (e_ehsize e), unat (e_phentsize e), unat (e_phnum e), unat (e_shentsize e),
       unat (e_shnum e), unat (e_shstrndx e)] \<and>
    fields [(0, 4), (4, 4), (8, 4), (12, 4), (16, 4), (20, 4), (24, 4), (28, 4), (32, 4), (36, 4)]
        (Shdr_bytes (swap_section_header h) @ bs) =
      map unat [sh_name h, sh_type h, sh_flags h, sh_addr h, sh_offset h, sh_size h, sh_link h, sh_info h,
        sh_addralign h, sh_entsize h] \<and>
    map (\<lambda>(k, n). host_field_at k n (Sym_bytes y @ bs)) [(0, 4), (4, 4), (8, 4), (12, 1), (13, 1), (14, 2)] =
      [unat (st_name y), unat (st_value y), unat (st_size y), unat (st_info y), unat (st_other y), unat (st_shndx y)] \<and>
    map (\<lambda>(k, n). host_field_at k n (Rel_bytes r @ bs)) [(0, 4), (4, 4)] = map unat [r_offset r, r_info r] \<and>
    length (Ehdr_bytes e) = 52 \<and> length (Shdr_bytes h) = 40 \<and> length (Sym_bytes y) = 16 \<and> length (Rel_bytes r) = 8 \<and>
    bytes_Ehdr (Ehdr_bytes e @ bs) = e \<and> bytes_Shdr (Shdr_bytes h @ bs) = h"
proof -
  have "take 16 (Ehdr_bytes (swap_elf_header e)) = e_ident e"
    using assms by (simp add: valid_Ehdr_def Ehdr_bytes_def swap_elf_header_def)
  then show ?thesis
    using Ehdr_layout_fields [OF assms, of bs] Shdr_layout_fields [of h bs] ehdr.dec_enc [OF assms, of bs]
      ehdr.length_enc [OF assms] shdr.dec_enc [of h bs]
    by (simp add: Ehdr_layout_def Shdr_layout_def Sym_host_fields [unfolded One_nat_def] Rel_host_fields shdr.length_enc sym.length_enc
        rel.length_enc del: bytes_u16.simps bytes_u32.simps)
qed

theorem structure_layouts_witness:
  "fields [(16, 2), (48, 2), (50, 2)] (Ehdr_bytes (swap_elf_header (ELF_initial_header 7)) @ [1]) = [1, 0, 7] \<and>
   fields [(16, 4)] (Shdr_bytes (swap_section_header (null_Shdr\<lparr>sh_offset := 412\<rparr>)) @ [1]) = [412] \<and>
   host_field_at 12 1 (Sym_bytes null_symbol @ [1]) = 0"
proof -
  have "valid_Ehdr (ELF_initial_header 7)" by (simp add: valid_Ehdr_def ELF_initial_header_def ELF_IDENT_def)
  from structure_layouts [OF this, of "[1]" "null_Shdr\<lparr>sh_offset := 412\<rparr>" null_symbol] show ?thesis
    by (simp add: fields_def ELF_initial_header_def null_symbol_def)
qed

text \<open>C22: The file header that other tools find in the file of an object: the identification of a big-endian
  32-bit ELF file for a stand-alone target; then, as big-endian numbers, a relocatable file for no machine, version 1,
  without entry point and program headers, the section header table at 52 with entries of 40 bytes, \<open>e_shnum\<close> 8 and the name
  table at index 1. The first entry of the table is zero, and the file ends with the data of the
  sections after nine entries, so that \<open>e_shnum\<close> is one too small.\<close>

theorem written_file_header:
  assumes "reachable junk e" and "fst (write_stream e) = Inr file"
  shows "take 16 file = [0x7f, 0x45, 0x4c, 0x46, 1, 2, 1, 255, 0, 0, 0, 0, 0, 0, 0, 0] \<and>
    fields [(16, 2), (18, 2), (20, 4), (24, 4), (28, 4), (32, 4), (36, 4), (40, 2), (42, 2), (44, 2), (46, 2), (48, 2), (50, 2)]
      file = [1, 0, 1, 0, 0, 52, 0, 52, 32, 0, 40, 8, 1] \<and>
    take 40 (drop 52 file) = replicate 40 0 \<and>
    length file = 52 + 40 * 9 + length (concat (map section_write (elf_sections e)))"
  using header_of_file [OF assms(1)] assms(2) by (simp add: write_stream_bytes Ehdr_layout_def)

theorem written_file_header_witness:
  "field_at 18 2 (file_bytes (new_object 0)) = 0 \<and> field_at 20 4 (file_bytes (new_object 0)) = 1 \<and>
   field_at 32 4 (file_bytes (new_object 0)) = 52 \<and> field_at 48 2 (file_bytes (new_object 0)) = 8 \<and>
   length (file_bytes (new_object 0)) = 412 + length (concat (map section_write (elf_sections (new_object 0))))"
  using written_file_header [OF reachable_new write_stream_bytes [of "new_object 0"]] by (simp add: fields_def)

text \<open>C21: The file of an object, read by a decoder that follows the ELF format: it says that it is a
  big-endian 32-bit file, and the nine entries of its section header table are the reserved one and
  the sections of the object, in their order, with their names, types, flags and bytes (an \<open>SHT_NOBITS\<close> section
  has none in the file for the decoder), if the file is shorter than 4 GiB, the limit of 32-bit ELF. Since \<open>e_shnum\<close> is eight, a tool that goes by it misses the last
  one, the symbol table.\<close>

theorem written_file_decodes:
  assumes "reachable junk e" and "fst (write_stream e) = Inr bytes" and "length bytes < 2 ^ 32"
  shows "take 6 bytes = [0x7f, 0x45, 0x4c, 0x46, ELFCLASS32, ELFDATA2MSB] \<and>
    decode_table 9 bytes = map section_view (elf_sections e) \<and>
    decode_file bytes = map section_view (butlast (elf_sections e))"
proof -
  have out: "bytes = file_bytes e" using assms(2) by (simp add: write_stream_bytes)
  have "take 6 (file_bytes e) = take 6 ELF_IDENT"
    using reachable_frame(1) [OF assms(1)]
    by (simp add: file_bytes_def Ehdr_bytes_def swap_elf_header_def file_header_def fill_elf_header_def
        ELF_initial_header_def ELF_IDENT_def)
  then show ?thesis
    using decode_written [OF assms(1)] assms(3) by (simp add: out ELF_IDENT_def)
qed

theorem written_file_decodes_witness:
  "take 6 (file_bytes (new_object 0)) = [0x7f, 0x45, 0x4c, 0x46, ELFCLASS32, ELFDATA2MSB] \<and>
    decode_table 9 (file_bytes (new_object 0)) = map section_view (elf_sections (new_object 0)) \<and>
    decode_file (file_bytes (new_object 0)) = map section_view (butlast (elf_sections (new_object 0)))"
  by (rule written_file_decodes [OF reachable_new write_stream_bytes new_file_small])

end
