(* ===== verification/Game_Boy.thy ===== *)
theory Game_Boy
  imports Assembler_Spec Parser_Properties
begin

text \<open>
  The machine code that the assembler should produce: the instruction set of the Game Boy's
  processor, as a decoder of operation codes that is written from the layout of the codes in
  groups of two, three and three bits, and not from the encoders. An instruction is decoded into
  the tree that the parser builds for it, with \<open>m\<close> for the memory cell at \<open>hl\<close> as in the code.
  The properties compare the encoders, and the code of whole programs, with this decoder.
\<close>

section \<open>The instruction set\<close>

text \<open>An operation code is a group \<open>x\<close> of two bits and two groups \<open>y\<close> and \<open>z\<close> of three bits.\<close>

definition op_x :: "u8 \<Rightarrow> nat" where "op_x b = unat b div 64"
definition op_y :: "u8 \<Rightarrow> nat" where "op_y b = unat b div 8 mod 8"
definition op_z :: "u8 \<Rightarrow> nat" where "op_z b = unat b mod 8"

lemmas op_groups = op_x_def op_y_def op_z_def

definition cpu_register :: "nat \<Rightarrow> BaseNode" where
  "cpu_register i = Register (''bcdehlma'' ! i)"

text \<open>The fourth double register is \<open>sp\<close>, for \<open>push\<close> and \<open>pop\<close> it is \<open>af\<close>.\<close>

definition cpu_pair :: "string \<Rightarrow> nat \<Rightarrow> BaseNode" where
  "cpu_pair fourth i = (let r = [''bc'', ''de'', ''hl'', fourth] ! i in DRegister (r ! 0) (r ! 1))"

text \<open>Additions and the subtraction with carry are written with the accumulator as an operand.\<close>

definition cpu_alu :: "nat \<Rightarrow> BaseNode \<Rightarrow> BaseNode" where
  "cpu_alu i a =
     (let t = [IT_ADD, IT_ADC, IT_SUB, IT_SBC, IT_AND, IT_XOR, IT_OR, IT_CP] ! i in
      if t \<in> {IT_ADD, IT_ADC, IT_SBC} then Instruction2 t (Register CHR ''a'') a else Instruction1 t a)"

text \<open>The instructions of one byte. \<open>None\<close> is a code that takes immediate operands, has a condition, or is not
  an instruction of one byte that the language has.\<close>

definition cpu_decode :: "u8 \<Rightarrow> BaseNode option" where
  "cpu_decode b =
     (let x = op_x b; y = op_y b; z = op_z b in
      if x = 0 then
        (if z = 0 \<and> y = 0 then Some (Instruction0 IT_NOP)
         else if z = 0 \<and> y = 2 then Some (Instruction0 IT_STOP)
         else if z = 3 then Some (Instruction1 (if even y then IT_INC else IT_DEC) (cpu_pair ''sp'' (y div 2)))
         else if z = 4 then Some (Instruction1 IT_INC (cpu_register y))
         else if z = 5 then Some (Instruction1 IT_DEC (cpu_register y))
         else if z = 7 then
           Some (Instruction0 ([IT_RLCA, IT_RRCA, IT_RLA, IT_RRA, IT_DAA, IT_CPL, IT_SCF, IT_CCF] ! y))
         else None)
      else if x = 1 then
        Some (if y = 6 \<and> z = 6 then Instruction0 IT_HALT
              else Instruction2 IT_LD (cpu_register y) (cpu_register z))
      else if x = 2 then Some (cpu_alu y (cpu_register z))
      else if z = 1 \<and> even y then Some (Instruction1 IT_POP (cpu_pair ''af'' (y div 2)))
      else if z = 5 \<and> even y then Some (Instruction1 IT_PUSH (cpu_pair ''af'' (y div 2)))
      else if z = 1 \<and> y = 1 then Some (Instruction0 IT_RET)
      else if z = 1 \<and> y = 3 then Some (Instruction0 IT_RETI)
      else if z = 1 \<and> y = 5 then Some (Instruction1 IT_JP (cpu_pair ''sp'' 2))
      else if z = 3 \<and> y = 6 then Some (Instruction0 IT_DI)
      else if z = 3 \<and> y = 7 then Some (Instruction0 IT_EI)
      else None)"

text \<open>The codes that are followed by an operand \<open>v\<close> of one byte or of two bytes.\<close>

definition cpu_decode8 :: "u8 \<Rightarrow> BaseNode \<Rightarrow> BaseNode option" where
  "cpu_decode8 b v =
     (if op_x b = 0 \<and> op_z b = 6 then Some (Instruction2 IT_LD (cpu_register (op_y b)) v)
      else if op_x b = 3 \<and> op_z b = 6 then Some (cpu_alu (op_y b) v)
      else if op_x b = 0 \<and> op_y b = 3 \<and> op_z b = 0 then Some (Instruction1 IT_JR v)
      else None)"

definition cpu_decode16 :: "u8 \<Rightarrow> BaseNode \<Rightarrow> BaseNode option" where
  "cpu_decode16 b v =
     (if op_x b = 0 \<and> op_z b = 1 \<and> even (op_y b) then Some (Instruction2 IT_LD (cpu_pair ''sp'' (op_y b div 2)) v)
      else if op_x b = 3 \<and> op_y b = 0 \<and> op_z b = 3 then Some (Instruction1 IT_JP v)
      else if op_x b = 3 \<and> op_y b = 1 \<and> op_z b = 5 then Some (Instruction1 IT_CALL v)
      else None)"

text \<open>The codes that depend on a condition: the instruction and the number of the condition
  (\<open>nz\<close>, \<open>z\<close>, \<open>nc\<close>, \<open>c\<close>).\<close>

definition cpu_condition :: "u8 \<Rightarrow> (InstructionType \<times> nat) option" where
  "cpu_condition b =
     (if op_x b = 0 \<and> op_z b = 0 \<and> 4 \<le> op_y b then Some (IT_JR, op_y b - 4)
      else if op_x b = 3 \<and> op_y b < 4 then map_option (\<lambda>t. (t, op_y b)) (map_of [(0, IT_RET), (2, IT_JP), (4, IT_CALL)] (op_z b))
      else None)"

lemmas cpu_simps = cpu_decode_def cpu_decode8_def cpu_decode16_def cpu_alu_def cpu_pair_def cpu_register_def
  op_groups Let_def

section \<open>The encoders against the instruction set\<close>

text \<open>The instructions to which the encoders give the code of another one: \<open>INC\<close> and \<open>DEC\<close> of a register
  other than \<open>b\<close>, and of the double register \<open>af\<close>, for which the processor has no such instruction.\<close>

definition miscoded :: "BaseNode \<Rightarrow> bool" where
  "miscoded n =
     (case n of
        Instruction1 t (Register r) \<Rightarrow> t \<in> {IT_INC, IT_DEC} \<and> r \<noteq> CHR ''b''
      | Instruction1 t (DRegister r1 r2) \<Rightarrow> t \<in> {IT_INC, IT_DEC} \<and> [r1, r2] = ''af''
      | _ \<Rightarrow> False)"

text \<open>The three groups are those the code is put together from.\<close>

lemma op_groups_of:
  assumes "x < 4" and "y < 8" and "z < 8"
  shows "op_x (of_nat (64 * x + 8 * y + z)) = x" "op_y (of_nat (64 * x + 8 * y + z)) = y"
    "op_z (of_nat (64 * x + 8 * y + z)) = z"
proof -
  have "64 * x + 8 * y + z < 256" using assms by linarith
  then have u: "unat (of_nat (64 * x + 8 * y + z) :: u8) = 64 * x + 8 * y + z"
    by (simp only: unat_of_nat take_bit_eq_mod) simp
  have "64 * x + 8 * y + z = z + 8 * (y + 8 * x)" by simp
  then have "(64 * x + 8 * y + z) mod 8 = z" "(64 * x + 8 * y + z) div 8 = y + 8 * x"
    using assms by (simp_all only: mod_mult_self2 div_mult_self2) auto
  moreover have "(64 * x + 8 * y + z) div 64 = (64 * x + 8 * y + z) div 8 div 8"
    by (simp add: div_mult2_eq [symmetric])
  ultimately show "op_x (of_nat (64 * x + 8 * y + z)) = x" "op_y (of_nat (64 * x + 8 * y + z)) = y"
      "op_z (of_nat (64 * x + 8 * y + z)) = z"
    using assms by (simp_all only: op_groups u) simp_all
qed

lemma cpu_register_index: "register_index r = Some i \<Longrightarrow> cpu_register i = Register r \<and> i < 8"
  by (auto simp: register_index_def cpu_register_def upt_8 split: if_splits)

lemma cpu_alu_index:
  "alu_index t = Some k \<Longrightarrow> k < 8 \<and> cpu_alu k a =
     (if t = IT_SBC then Instruction2 t (Register CHR ''a'') a else Instruction1 t a)"
  by (auto simp: alu_index_def cpu_alu_def split: if_splits)

lemma cpu_pair_index:
  "dregister_index r1 r2 = Some i \<Longrightarrow> i < 4 \<and> cpu_pair ''af'' i = DRegister r1 r2 \<and>
     (cpu_pair ''sp'' i = DRegister r1 r2 \<longleftrightarrow> [r1, r2] \<noteq> ''af'')"
  by (auto simp: dregister_index_def cpu_pair_def upt_8 split: if_splits)

lemma None_opcode: "InstructionNone_encode t = Inr b \<Longrightarrow> cpu_decode b = Some (Instruction0 t)"
  by (cases t) (auto simp: InstructionNone_encode_def cpu_simps)

lemma RA_opcode:
  assumes "InstructionRA_encode t r = Inr b"
  shows "cpu_decode b = Some (if t = IT_SBC then Instruction2 t (Register CHR ''a'') (Register r)
    else Instruction1 t (Register r))"
proof -
  from assms obtain k i where ki: "alu_index t = Some k" "register_index r = Some i"
    and b: "b = of_nat (64 * 2 + 8 * k + i)"
    by (auto simp: InstructionRA_code split: option.splits)
  note groups = op_groups_of [of 2 k i, folded b]
  show ?thesis
    using cpu_alu_index [OF ki(1), of "Register r"] cpu_register_index [OF ki(2)] groups
    by (simp add: cpu_decode_def)
qed

lemma low_opcodes:
  "cpu_decode 4 = Some (Instruction1 IT_INC (Register CHR ''b''))"
  "cpu_decode 5 = Some (Instruction1 IT_DEC (Register CHR ''b''))"
  "cpu_decode 6 = None" "cpu_decode 7 = Some (Instruction0 IT_RLCA)"
  by (simp_all add: cpu_simps)

lemma R_opcode:
  assumes "InstructionR_encode t r = Inr b"
  shows "cpu_decode b = Some (Instruction1 t (Register r)) \<longleftrightarrow> r = CHR ''b''"
proof -
  from assms obtain i where i: "register_index r = Some i" and t: "t \<in> {IT_INC, IT_DEC}"
    and b: "b = of_nat (if t = IT_INC then 4 + i mod 4 else 5 + 2 * (i div 2 mod 2))"
    by (auto simp: InstructionR_code split: option.splits if_splits)
  have "i = 0 \<longleftrightarrow> r = CHR ''b''"
    using i by (auto simp: register_index_def upt_8 split: if_splits)
  moreover have "b \<in> {4, 5, 6, 7} \<and> (i = 0 \<longrightarrow> b = (if t = IT_INC then 4 else 5))"
    using register_index_cases [OF i] t b by auto
  ultimately show ?thesis using t low_opcodes by auto
qed

lemma D_opcode:
  assumes "InstructionD_encode t r1 r2 = Inr b"
  shows "cpu_decode b = Some (Instruction1 t (DRegister r1 r2)) \<longleftrightarrow> \<not> miscoded (Instruction1 t (DRegister r1 r2))"
proof -
  from assms obtain base i where i: "dregister_index r1 r2 = Some i" and b: "b = of_nat (base + 16 * i)"
    and base: "(t, base) \<in> {(IT_INC, 0x03), (IT_DEC, 0x0b), (IT_POP, 0xc1), (IT_PUSH, 0xc5)}"
    by (auto simp: InstructionD_code split: option.splits if_splits)
  define x y z where "x = base div 64" and "y = base div 8 mod 8 + 2 * i" and "z = base mod 8"
  have xyz: "b = of_nat (64 * x + 8 * y + z)" "x < 4" "y < 8" "z < 8"
    using base cpu_pair_index [OF i] by (auto simp: b x_def y_def z_def)
  note groups = op_groups_of [OF xyz(2-4), folded xyz(1)]
  show ?thesis
    using base cpu_pair_index [OF i] by (auto simp: cpu_decode_def groups miscoded_def x_def y_def z_def)
qed

lemma code_opcode:
  assumes "code_of n = Inr (Some bytes)"
  shows "\<exists>b. bytes = [b] \<and> (cpu_decode b = Some n \<longleftrightarrow> \<not> miscoded n)"
proof -
  obtain b where b: "bytes = [b]" using code_of_one_byte [OF assms] by blast
  have one: "one_byte m = Inr (Some [b]) \<longleftrightarrow> m = Inr b" for m
    by (cases m) (auto simp: one_byte_def)
  have "cpu_decode b = Some n \<longleftrightarrow> \<not> miscoded n"
  proof (cases n)
    case (Instruction0 t)
    with assms b None_opcode [of t b] show ?thesis by (auto simp: code_of_def one miscoded_def split: if_splits)
  next
    case (Instruction1 t a)
    show ?thesis
    proof (cases a)
      case (Register r)
      with Instruction1 assms b show ?thesis
        by (auto simp: code_of_def one no_format_def R_opcode RA_opcode miscoded_def split: if_splits)
    next
      case (DRegister r1 r2)
      with Instruction1 assms b D_opcode [of t r1 r2 b] show ?thesis
        by (auto simp: code_of_def one no_format_def split: if_splits)
    qed (use Instruction1 assms in \<open>simp_all add: code_of_def no_format_def split: if_splits\<close>)
  qed (use assms in \<open>simp_all add: code_of_def\<close>)
  with b show ?thesis by blast
qed

lemma node_code_opcode:
  obtains "node_code n = []" | b where "node_code n = [b]" "cpu_decode b = Some n \<longleftrightarrow> \<not> miscoded n"
proof (cases "code_of n")
  case (Inr c)
  with that code_opcode [of n] show thesis by (cases c) (auto simp: node_code_def)
qed (use that in \<open>simp add: node_code_def\<close>)

section \<open>The code of a program\<close>

text \<open>The instructions that a program has for a section: the lines that follow a directive for it.\<close>

fun section_lines :: "string \<Rightarrow> BaseNode list \<Rightarrow> string \<Rightarrow> BaseNode list" where
  "section_lines cur [] s = []"
| "section_lines cur (n # ns) s =
     (case n of
        Directive _ (name # _) \<Rightarrow> section_lines name ns s
      | _ \<Rightarrow> (if s = cur then [n] else []) @ section_lines cur ns s)"

definition two_operands :: "BaseNode \<Rightarrow> bool" where
  "two_operands n \<longleftrightarrow> (case n of Instruction2 _ _ _ \<Rightarrow> True | _ \<Rightarrow> False)"

definition disassembles :: "u8 list \<Rightarrow> BaseNode list \<Rightarrow> bool" where
  "disassembles bytes ns \<longleftrightarrow> list_all2 (\<lambda>b n. cpu_decode b = Some n \<longleftrightarrow> \<not> miscoded n) bytes ns"

text \<open>Of the instructions that a program line can be and that the assembler accepts, exactly those with two operands
  have no code.\<close>

lemma table_no_operand:
  "table_arity t 0 \<Longrightarrow> is_value (code_of (Instruction0 t)) \<Longrightarrow> code_of (Instruction0 t) \<noteq> Inr None"
  by (cases t) (simp_all add: table_arity_def instructions_def iprops_def code_of_def has_format_def format_list_def
      InstructionNone_encode_def one_byte_def)

lemma one_operand_code: "code_of (Instruction1 t a) \<noteq> Inr None"
  by (cases a) (auto simp: code_of_def no_format_def one_byte_def rbind_Inr_iff)

lemma line_without_code:
  assumes "line_shape n" and "node_id n = NT_INSTRUCTION" and "is_value (code_of n)"
  shows "node_code n = [] \<longleftrightarrow> two_operands n"
proof (cases n)
  case (Instruction0 t)
  with assms table_no_operand [of t] code_of_one_byte [of n] show ?thesis
    by (auto simp: line_shape_def node_code_def two_operands_def split: sum.split option.split)
next
  case (Instruction1 t a)
  with assms one_operand_code [of t a] code_of_one_byte [of n] show ?thesis
    by (auto simp: node_code_def two_operands_def split: sum.split option.split)
qed (use assms in \<open>simp_all add: line_shape_def node_code_def two_operands_def code_of_def\<close>)

lemma emitted_disassembles:
  assumes "list_all line_shape ns" and "accepts known holds_code cur syms ns"
  shows "disassembles (emitted cur ns s) (filter (\<lambda>n. \<not> two_operands n) (section_lines cur ns s))"
  using assms
proof (induction ns arbitrary: cur)
  case (Cons n ns)
  show ?case
  proof (cases "node_id n = NT_INSTRUCTION")
    case True
    with Cons.prems have rest: "accepts known holds_code cur syms ns" and code: "node_code n = [] \<longleftrightarrow> two_operands n"
      using line_without_code [of n] by (simp_all add: accepts_instruction del: accepts.simps(2))
    have "section_lines cur (n # ns) s = (if s = cur then [n] else []) @ section_lines cur ns s"
      using True by (cases n) simp_all
    with Cons.IH [OF _ rest] Cons.prems(1) code show ?thesis
      by (cases rule: node_code_opcode [of n])
        (auto simp: instruction_not_other [OF True] disassembles_def simp del: section_lines.simps(2) emitted.simps(2))
  next
    case False
    with Cons.prems obtain t name args where "n = Directive t (name # args)" "t = DT_SECTION"
      by (cases n) (auto simp: line_shape_def length_Suc_conv)
    with Cons show ?thesis by simp
  qed
qed (simp add: disassembles_def)

text \<open>Without miscoded instructions the code determines the program.\<close>

lemma disassembles_exact:
  "disassembles bytes ns \<Longrightarrow> list_all (\<lambda>n. \<not> miscoded n) ns \<Longrightarrow> map cpu_decode bytes = map Some ns"
  unfolding disassembles_def by (induction bytes ns rule: list_all2_induct) auto

section \<open>The whole instruction set\<close>

text \<open>What holds of the bytes in a list that covers a range.\<close>

lemma byte_below:
  assumes "list_all P (map of_nat [0 ..< n])" and "unat (b :: u8) < n"
  shows "P b"
proof -
  from assms(1) have "\<forall>i \<in> {0 ..< n}. P (of_nat i)" by (simp add: list_all_iff)
  from bspec [OF this, of "unat b"] assms(2) show ?thesis by simp
qed

lemma byte_cases: "list_all P (map of_nat [0 ..< 256]) \<Longrightarrow> P (b :: u8)"
  using byte_below [of P 256 b] unsigned_less [of b] by simp






lemma assembled_byte:
  assumes "assembleInstruction n e = (Inr (), e')"
  shows "e' = e \<or> (\<exists>b. add_progbits [b] e = (Inr (), e') \<and> (cpu_decode b = Some n \<longleftrightarrow> \<not> miscoded n))"
proof (cases "code_of n")
  case (Inr c)
  show ?thesis
  proof (cases c)
    case (Some bytes)
    with Inr code_opcode [of n bytes] obtain b where "bytes = [b]" "cpu_decode b = Some n \<longleftrightarrow> \<not> miscoded n" by blast
    with assms Inr Some show ?thesis
      by (cases "add_progbits [b] e") (auto simp: assembleInstruction_code slift_def split: sum.splits)
  qed (use Inr assms in \<open>simp add: assembleInstruction_code\<close>)
qed (use assms in \<open>simp add: assembleInstruction_code\<close>)

text \<open>The encoders whose result never reaches a section. Their template parameters meet the \<open>static_assert\<close>s.\<close>

lemma asserted_list:
  "list_all (\<lambda>b :: u8. (b AND 0xfc = 0 \<longrightarrow> unat b < 4) \<and> (b AND 0xf0 = 0 \<longrightarrow> unat b < 16) \<and> (b AND 0xc0 = 0 \<longrightarrow> unat b < 64))
     (map of_nat [0 ..< 256])"
  by code_simp

lemma asserted:
  "(b :: u8) AND 0xfc = 0 \<Longrightarrow> unat b < 4" "b AND 0xf0 = 0 \<Longrightarrow> unat b < 16" "b AND 0xc0 = 0 \<Longrightarrow> unat b < 64"
  using byte_cases [OF asserted_list, of b] by blast+

lemma register_fields:
  "list_all (\<lambda>p :: u8. list_all (\<lambda>i. list_all (\<lambda>j. push_bit 6 p OR push_bit 3 (of_nat i) OR of_nat j =
     of_nat (64 * unat p + 8 * i + j)) [0 ..< 8]) [0 ..< 8]) (map of_nat [0 ..< 4])"
  by code_simp

lemma immediate_fields:
  "list_all (\<lambda>p :: u8. list_all (\<lambda>i. push_bit 6 (ucast p) OR push_bit 3 (ucast (of_nat i :: u8)) OR 6 =
     (of_nat (64 * unat p + 8 * i + 6) :: u16)) [0 ..< 8]) (map of_nat [0 ..< 4])"
  by code_simp

lemma pair_fields:
  "list_all (\<lambda>p :: u8. list_all (\<lambda>i. list_all (\<lambda>c :: u8. push_bit 6 p OR push_bit 4 (of_nat i) OR c =
     of_nat (64 * unat p + 8 * (2 * i + unat c div 8) + unat c mod 8)) (map of_nat [0 ..< 16])) [0 ..< 4]) (map of_nat [0 ..< 4])"
  by code_simp

lemma condition_fields:
  "list_all (\<lambda>p :: u8. list_all (\<lambda>c :: u8. push_bit 6 p OR c =
     of_nat (64 * unat p + 8 * (unat c div 8) + unat c mod 8)) (map of_nat [0 ..< 64])) (map of_nat [0 ..< 4])"
  by code_simp

lemma RR_fields:
  assumes "InstructionRR_encode p rd rs = Inr b" and "p AND 0xfc = 0"
  shows "op_x b = unat p \<and> cpu_register (op_y b) = Register rd \<and> cpu_register (op_z b) = Register rs"
    and "op_y b = 6 \<longleftrightarrow> rd = CHR ''m''" and "op_z b = 6 \<longleftrightarrow> rs = CHR ''m''"
proof -
  from assms(1) obtain i j where ij: "register_index rd = Some i" "register_index rs = Some j"
    and b: "b = push_bit 6 p OR push_bit 3 (of_nat i) OR of_nat j"
    by (auto simp: InstructionRR_encode_def register_index_encode rbind_Inr_iff split: option.splits)
  note ok = cpu_register_index [OF ij(1)] cpu_register_index [OF ij(2)] and p = asserted(1) [OF assms(2)]
  have "b = of_nat (64 * unat p + 8 * i + j)"
    using byte_below [OF register_fields p] ok unfolding b by (simp only: list_all_iff) simp
  note groups = op_groups_of [of "unat p" i j, folded this]
  show "op_x b = unat p \<and> cpu_register (op_y b) = Register rd \<and> cpu_register (op_z b) = Register rs"
    using ok p groups by simp
  show "op_y b = 6 \<longleftrightarrow> rd = CHR ''m''" "op_z b = 6 \<longleftrightarrow> rs = CHR ''m''"
    using ij ok p groups by (auto simp: register_index_def upt_8 split: if_splits)
qed

lemma RR_opcode:
  assumes "InstructionRR_encode 1 rd rs = Inr b"
  shows "cpu_decode b = Some (if rd = CHR ''m'' \<and> rs = CHR ''m'' then Instruction0 IT_HALT
    else Instruction2 IT_LD (Register rd) (Register rs))"
  using RR_fields [OF assms] by (simp add: cpu_decode_def Let_def)

lemma A_opcode:
  assumes "InstructionA_encode t r1 r2 = Inr b"
  shows "cpu_decode b =
    Some (Instruction1 t (if t = IT_JP then DRegister CHR ''h'' CHR ''l'' else Register CHR ''m''))"
proof -
  have "(t, b) \<in> {(IT_INC, 0x34), (IT_DEC, 0x35), (IT_JP, 0xe9)}"
    using assms by (cases t) (simp_all add: InstructionA_encode_def split: if_splits)
  moreover have "cpu_decode 0x34 = Some (Instruction1 IT_INC (Register CHR ''m''))"
      "cpu_decode 0x35 = Some (Instruction1 IT_DEC (Register CHR ''m''))"
      "cpu_decode 0xe9 = Some (Instruction1 IT_JP (DRegister CHR ''h'' CHR ''l''))"
    by code_simp+
  ultimately show ?thesis by auto
qed

lemma I8_opcode:
  assumes "InstructionI8_encode t = Inr b"
  shows "cpu_decode8 b v = Some (Instruction1 t v) \<longleftrightarrow> t \<noteq> IT_CP"
  using assms by (cases t) (auto simp: InstructionI8_encode_def cpu_simps)

lemma I16_opcode:
  assumes "InstructionI16_encode t = Inr b"
  shows "cpu_decode16 b v = Some (Instruction1 t v)"
  using assms by (cases t) (auto simp: InstructionI16_encode_def cpu_simps)

lemma RI8_fields:
  assumes "InstructionRI8_encode p r = Inr w" and "p AND 0xfc = 0"
  shows "w < 256" and "op_x (ucast w) = unat p" and "cpu_register (op_y (ucast w)) = Register r" and "op_z (ucast w) = 6"
proof -
  from assms(1) obtain i where i: "register_index r = Some i"
    and w: "w = push_bit 6 (ucast p) OR push_bit 3 (ucast (of_nat i :: u8)) OR 6"
    by (auto simp: InstructionRI8_encode_def register_index_encode rbind_Inr_iff split: option.splits)
  note ok = cpu_register_index [OF i] and p = asserted(1) [OF assms(2)]
  have n: "w = of_nat (64 * unat p + 8 * i + 6)"
    using byte_below [OF immediate_fields p] ok unfolding w by (simp only: list_all_iff) simp
  have small: "64 * unat p + 8 * i + 6 < 256" using p ok by simp
  then have "ucast w = (of_nat (64 * unat p + 8 * i + 6) :: u8)"
    unfolding n by (simp only: unsigned_of_nat) (simp only: take_bit_eq_mod, simp)
  note groups = op_groups_of [of "unat p" i 6, folded this]
  from small have "unat w < 256" unfolding n by (simp only: unat_of_nat take_bit_eq_mod) simp
  then show "w < 256" by (simp add: word_less_nat_alt)
  show "op_x (ucast w) = unat p" "cpu_register (op_y (ucast w)) = Register r" "op_z (ucast w) = 6"
    using groups ok p by simp_all
qed

lemma DI16_fields:
  assumes "InstructionDI16_encode p r1 r2 opcode imm = Inr w" and "p AND 0xfc = 0" and "opcode AND 0xf0 = 0"
  shows "ucast w = imm" and "op_x (ucast (drop_bit 16 w)) = unat p"
    and "cpu_pair ''af'' (op_y (ucast (drop_bit 16 w)) div 2) = DRegister r1 r2"
    and "8 * (op_y (ucast (drop_bit 16 w)) mod 2) + op_z (ucast (drop_bit 16 w)) = unat opcode"
    and "cpu_pair ''sp'' (op_y (ucast (drop_bit 16 w)) div 2) = DRegister r1 r2 \<longleftrightarrow> [r1, r2] \<noteq> ''af''"
proof -
  from assms(1) obtain i where i: "dregister_index r1 r2 = Some i"
    and w: "w = push_bit 16 (ucast (push_bit 6 p OR push_bit 4 (of_nat i) OR opcode :: u8)) OR ucast imm"
    by (auto simp: InstructionDI16_encode_def dregister_index_encode rbind_Inr_iff Let_def split: option.splits)
  note ok = cpu_pair_index [OF i] and p = asserted(1) [OF assms(2)] and c = asserted(2) [OF assms(3)]
  show "ucast w = imm"
    unfolding w by (rule bit_word_eqI) (auto simp: bit_simps)
  have "ucast (drop_bit 16 w) = (push_bit 6 p OR push_bit 4 (of_nat i) OR opcode :: u8)"
    unfolding w by (rule bit_word_eqI) (auto simp: bit_simps dest: bit_imp_le_length)
  also have "\<dots> = of_nat (64 * unat p + 8 * (2 * i + unat opcode div 8) + unat opcode mod 8)"
  proof -
    have "i \<in> set [0 ..< 4]" using ok by simp
    with byte_below [OF pair_fields p]
    have "list_all (\<lambda>c :: u8. push_bit 6 p OR push_bit 4 (of_nat i) OR c =
        of_nat (64 * unat p + 8 * (2 * i + unat c div 8) + unat c mod 8)) (map of_nat [0 ..< 16])"
      unfolding list_all_iff [of _ "[0 ..< 4]"] by blast
    from byte_below [OF this c] show ?thesis .
  qed
  finally have b: "ucast (drop_bit 16 w) = (of_nat (64 * unat p + 8 * (2 * i + unat opcode div 8) + unat opcode mod 8) :: u8)" .
  have small: "2 * i + unat opcode div 8 < 8" "unat opcode mod 8 < 8" "unat opcode div 8 < 2" using ok c by auto
  note groups = op_groups_of [OF p small(1,2), folded b]
  have half: "(2 * i + unat opcode div 8) div 2 = i" "(2 * i + unat opcode div 8) mod 2 = unat opcode div 8" using small(3) by auto
  show "op_x (ucast (drop_bit 16 w)) = unat p"
    and "cpu_pair ''af'' (op_y (ucast (drop_bit 16 w)) div 2) = DRegister r1 r2"
    and "8 * (op_y (ucast (drop_bit 16 w)) mod 2) + op_z (ucast (drop_bit 16 w)) = unat opcode"
    and "cpu_pair ''sp'' (op_y (ucast (drop_bit 16 w)) div 2) = DRegister r1 r2 \<longleftrightarrow> [r1, r2] \<noteq> ''af''"
    unfolding groups half using ok by simp_all
qed

lemma FI8_fields:
  assumes "p AND 0xfc = 0" and "opcode AND 0xc0 = 0"
  shows "op_x (InstructionFI8_encode p flag opcode imm8) = unat p"
    and "8 * op_y (InstructionFI8_encode p flag opcode imm8) + op_z (InstructionFI8_encode p flag opcode imm8) = unat opcode"
proof -
  note p = asserted(1) [OF assms(1)] and c = asserted(3) [OF assms(2)]
  have b: "InstructionFI8_encode p flag opcode imm8 = of_nat (64 * unat p + 8 * (unat opcode div 8) + unat opcode mod 8)"
    unfolding InstructionFI8_encode_def using byte_below [OF byte_below [OF condition_fields p] c] .
  have "unat opcode div 8 < 8" "unat opcode mod 8 < 8" using c by auto
  from op_groups_of [OF p this]
  show "op_x (InstructionFI8_encode p flag opcode imm8) = unat p"
    and "8 * op_y (InstructionFI8_encode p flag opcode imm8) + op_z (InstructionFI8_encode p flag opcode imm8) = unat opcode"
    unfolding b by simp_all
qed

text \<open>The other templates as instructions of the processor.\<close>

lemma RI8_opcode: "InstructionRI8_encode 0 r = Inr w \<Longrightarrow> cpu_decode8 (ucast w) v = Some (Instruction2 IT_LD (Register r) v)"
  using RI8_fields [of 0 r w] by (simp add: cpu_decode8_def)

lemma DI16_opcode:
  assumes "InstructionDI16_encode 0 r1 r2 1 imm = Inr w"
  shows "cpu_decode16 (ucast (drop_bit 16 w)) v = Some (Instruction2 IT_LD (DRegister r1 r2) v) \<longleftrightarrow> [r1, r2] \<noteq> ''af''"
proof -
  define b :: u8 where "b = ucast (drop_bit 16 w)"
  note f = DI16_fields [OF assms, folded b_def, simplified]
  from f(4) have "op_y b mod 2 = 0 \<and> op_z b = 1" by presburger
  with f(2,5) show ?thesis unfolding b_def [symmetric] by (auto simp: cpu_decode16_def)
qed

text \<open>The code of \<open>FI8\<close> does not depend on the condition, so that it can be right for one condition only.\<close>

lemma FI8_condition:
  assumes "cpu_condition (InstructionFI8_encode p flag opcode imm8) = Some (t, unat flag)"
    and "cpu_condition (InstructionFI8_encode p flag' opcode imm8') = Some (t', unat flag')"
  shows "flag' = flag"
proof -
  have "unat flag' = unat flag" using assms by (simp add: InstructionFI8_encode_def)
  then show ?thesis by (simp only: word_unat_eq_iff)
qed

section \<open>Properties\<close>

text \<open>C14: What \<open>assembleInstruction\<close> adds is the machine code of the instruction. If it returns then either the
  object is as before or the step was one \<open>add_progbits\<close> of a single byte, and the processor decodes this byte to
  the instruction that was assembled, except for the miscoded instructions (\<open>INC\<close> and \<open>DEC\<close> of a
  register other than \<open>b\<close> or of \<open>af\<close>), whose byte is never theirs. An instruction whose only operand is an
  expression throws.\<close>

theorem assembled_opcodes:
  "(assembleInstruction n e = (Inr (), e') \<longrightarrow>
      e' = e \<or> (\<exists>b. add_progbits [b] e = (Inr (), e') \<and> (cpu_decode b = Some n \<longleftrightarrow> \<not> miscoded n))) \<and>
   (is_expr a \<longrightarrow> \<not> is_value (fst (assembleInstruction (Instruction1 t a) e)))"
  using assembled_byte by (auto simp: assembleInstruction_code code_of_expr no_format_def)

theorem assembled_opcodes_witness:
  "\<not> is_value (fst (assembleInstruction (Instruction1 IT_SUB (Number 5)) (new_object 0))) \<and>
   (let n = Instruction1 IT_XOR (Register CHR ''a''); e = (new_object 0)\<lparr>curr_section := 5\<rparr>;
      e' = snd (assembleInstruction n e)
    in e' = e \<or> (\<exists>b. add_progbits [b] e = (Inr (), e') \<and> cpu_decode b = Some n))"
proof -
  let ?n = "Instruction1 IT_XOR (Register CHR ''a'')" and ?e = "(new_object 0)\<lparr>curr_section := 5\<rparr>"
  have "fst (assembleInstruction ?n ?e) = Inr ()" by code_simp
  then have "assembleInstruction ?n ?e = (Inr (), snd (assembleInstruction ?n ?e))" by (simp add: prod_eq_iff)
  then show ?thesis
    using assembled_opcodes [of ?n ?e]
      assembled_opcodes [of "Instruction0 IT_NOP" "new_object 0" "new_object 0" "Number 5" IT_SUB]
    by (simp add: Let_def miscoded_def)
qed



text \<open>C29: The seven encoders whose result never reaches a section. No format reaches those of \<open>InstructionRR\<close>,
  \<open>InstructionA\<close>, \<open>InstructionRI8\<close>, \<open>InstructionDI16\<close> and \<open>InstructionFI8\<close>; \<open>InstructionI8\<close> and \<open>InstructionI16\<close> are reached, but
  the code is dropped. For all template parameters that the \<open>static_assert\<close>s admit, prefix, opcode, registers and immediate are
  found in their bit groups. As instructions the codes are right in all operands but for these cases: a load of \<open>m\<close> from \<open>m\<close>
  is encoded as \<open>HALT\<close>; \<open>CP\<close> of an immediate operand has the wrong code; loads of an immediate operand into \<open>af\<close>, which
  do not exist, get the code for \<open>sp\<close>; and the code with a condition ignores the condition, so that for no
  prefix and opcode is it right for two conditions.\<close>

theorem encoders_opcodes:
  "(InstructionRR_encode p rd rs = Inr b \<and> p AND 0xfc = 0 \<longrightarrow>
      op_x b = unat p \<and> cpu_register (op_y b) = Register rd \<and> cpu_register (op_z b) = Register rs \<and>
      (p = 1 \<longrightarrow> cpu_decode b = Some (if rd = CHR ''m'' \<and> rs = CHR ''m'' then Instruction0 IT_HALT
        else Instruction2 IT_LD (Register rd) (Register rs)))) \<and>
   (InstructionA_encode t r1 r2 = Inr b \<longrightarrow>
      cpu_decode b = Some (Instruction1 t (if t = IT_JP then DRegister CHR ''h'' CHR ''l'' else Register CHR ''m''))) \<and>
   (InstructionI8_encode t = Inr b \<longrightarrow> (cpu_decode8 b v = Some (Instruction1 t v) \<longleftrightarrow> t \<noteq> IT_CP)) \<and>
   (InstructionI16_encode t = Inr b \<longrightarrow> cpu_decode16 b v = Some (Instruction1 t v)) \<and>
   (InstructionRI8_encode p rd = Inr w \<and> p AND 0xfc = 0 \<longrightarrow>
      w < 256 \<and> op_x (ucast w) = unat p \<and> cpu_register (op_y (ucast w)) = Register rd \<and> op_z (ucast w) = 6 \<and>
      (p = 0 \<longrightarrow> cpu_decode8 (ucast w) v = Some (Instruction2 IT_LD (Register rd) v))) \<and>
   (InstructionDI16_encode p r1 r2 opcode imm = Inr d \<and> p AND 0xfc = 0 \<and> opcode AND 0xf0 = 0 \<longrightarrow>
      (let b = ucast (drop_bit 16 d) in
        ucast d = imm \<and> op_x b = unat p \<and> cpu_pair ''af'' (op_y b div 2) = DRegister r1 r2 \<and>
        8 * (op_y b mod 2) + op_z b = unat opcode \<and>
        (p = 0 \<and> opcode = 1 \<longrightarrow>
          (cpu_decode16 b v = Some (Instruction2 IT_LD (DRegister r1 r2) v) \<longleftrightarrow> [r1, r2] \<noteq> ''af'')))) \<and>
   (p AND 0xfc = 0 \<and> opcode AND 0xc0 = 0 \<longrightarrow>
      (let b = InstructionFI8_encode p flag opcode imm8; b' = InstructionFI8_encode p flag' opcode imm8' in
        op_x b = unat p \<and> 8 * op_y b + op_z b = unat opcode \<and>
        (flag \<noteq> flag' \<longrightarrow> \<not> (cpu_condition b = Some (t, unat flag) \<and> cpu_condition b' = Some (t', unat flag')))))"
  (is "?RR \<and> ?A \<and> ?I8 \<and> ?I16 \<and> ?RI8 \<and> ?DI16 \<and> ?FI8")
proof (intro conjI)
  show ?RR using RR_fields [of p rd rs b] RR_opcode [of rd rs b] by blast
  show ?A using A_opcode by blast
  show ?I8 using I8_opcode by blast
  show ?I16 using I16_opcode by blast
  show ?RI8 using RI8_fields [of p rd w] RI8_opcode [of rd w v] by blast
  show ?DI16 unfolding Let_def using DI16_fields [of p r1 r2 opcode imm d] DI16_opcode [of r1 r2 imm d v] by blast
  show ?FI8 unfolding Let_def using FI8_fields [of p opcode] FI8_condition by blast
qed

theorem encoders_opcodes_witness:
  "cpu_decode 0x41 = Some (Instruction2 IT_LD (Register CHR ''b'') (Register CHR ''c'')) \<and>
   cpu_decode 0xe9 = Some (Instruction1 IT_JP (DRegister CHR ''h'' CHR ''l'')) \<and>
   cpu_decode8 0xff (Number 5) \<noteq> Some (Instruction1 IT_CP (Number 5)) \<and>
   cpu_decode16 0xcd (Number 5) = Some (Instruction1 IT_CALL (Number 5)) \<and>
   cpu_decode8 0x3e (Number 5) = Some (Instruction2 IT_LD (Register CHR ''a'') (Number 5)) \<and>
   cpu_decode16 (ucast (drop_bit 16 (0x211234 :: u32))) (Number 5) = Some (Instruction2 IT_LD (DRegister CHR ''h'' CHR ''l'') (Number 5)) \<and>
   \<not> (cpu_condition (InstructionFI8_encode 0 1 0x28 5) = Some (IT_JR, 1) \<and>
      cpu_condition (InstructionFI8_encode 0 3 0x28 5) = Some (IT_JR, 3))"
proof -
  have codes: "InstructionRR_encode 1 CHR ''b'' CHR ''c'' = Inr 0x41" "InstructionA_encode IT_JP CHR ''h'' CHR ''l'' = Inr 0xe9"
      "InstructionI8_encode IT_CP = Inr 0xff" "InstructionI16_encode IT_CALL = Inr 0xcd"
      "InstructionRI8_encode 0 CHR ''a'' = Inr 0x3e" "InstructionDI16_encode 0 CHR ''h'' CHR ''l'' 1 0x1234 = Inr 0x211234"
    by code_simp+
  show ?thesis
  proof (intro conjI)
    show "cpu_decode 0x41 = Some (Instruction2 IT_LD (Register CHR ''b'') (Register CHR ''c''))"
      using encoders_opcodes [where p = 1 and rd = "CHR ''b''" and rs = "CHR ''c''" and b = "0x41"] by (simp add: codes)
    show "cpu_decode 0xe9 = Some (Instruction1 IT_JP (DRegister CHR ''h'' CHR ''l''))"
      using encoders_opcodes [where t = IT_JP and ?r1.0 = "CHR ''h''" and ?r2.0 = "CHR ''l''" and b = "0xe9"] by (simp add: codes)
    show "cpu_decode8 0xff (Number 5) \<noteq> Some (Instruction1 IT_CP (Number 5))"
      using encoders_opcodes [where t = IT_CP and b = "0xff" and v = "Number 5"] by (simp add: codes)
    show "cpu_decode16 0xcd (Number 5) = Some (Instruction1 IT_CALL (Number 5))"
      using encoders_opcodes [where t = IT_CALL and b = "0xcd" and v = "Number 5"] by (simp add: codes)
    show "cpu_decode8 0x3e (Number 5) = Some (Instruction2 IT_LD (Register CHR ''a'') (Number 5))"
      using encoders_opcodes [where p = 0 and rd = "CHR ''a''" and w = "0x3e" and v = "Number 5"] by (simp add: codes)
    show "cpu_decode16 (ucast (drop_bit 16 (0x211234 :: u32))) (Number 5) =
        Some (Instruction2 IT_LD (DRegister CHR ''h'' CHR ''l'') (Number 5))"
      using encoders_opcodes [where p = 0 and ?r1.0 = "CHR ''h''" and ?r2.0 = "CHR ''l''" and opcode = 1 and imm = "0x1234"
          and d = "0x211234" and v = "Number 5"] by (simp add: codes Let_def)
    show "\<not> (cpu_condition (InstructionFI8_encode 0 1 0x28 5) = Some (IT_JR, 1) \<and>
        cpu_condition (InstructionFI8_encode 0 3 0x28 5) = Some (IT_JR, 3))"
      using encoders_opcodes [where p = 0 and flag = 1 and flag' = 3 and opcode = "0x28" and ?imm8.0 = 5 and imm8' = 5
          and t = IT_JR and t' = IT_JR] by (simp add: Let_def)
  qed
qed

end
