(* ===== verification/File_Image.thy ===== *)
theory File_Image
  imports Elf_Writer Assembler_Spec
begin

unbundle bit_operations_syntax

text \<open>
  The file of a compiled program, byte for byte. \<open>object_file\<close> is a description of the whole
  file by the code of the five program sections: the headers as lists of big-endian numbers, the
  names, the data. It mentions neither the assembler nor the object in memory. For a program without
  labels the object that the assembler fills is the new object with the code in its program sections,
  and the writer turns it into this file.
\<close>

section \<open>The layout of the file\<close>

definition be16 :: "nat \<Rightarrow> u8 list" where
  "be16 n = map of_nat [n div 2 ^ 8, n]"

definition be32 :: "nat \<Rightarrow> u8 list" where
  "be32 n = map of_nat [n div 2 ^ 24, n div 2 ^ 16, n div 2 ^ 8, n]"

text \<open>A section of the file: its name, type, flags, size of an entry and data.\<close>

type_synonym section_row = "string \<times> nat \<times> nat \<times> nat \<times> u8 list"

definition name_table :: "string list \<Rightarrow> u8 list" where
  "name_table names = concat (map (\<lambda>n. map char_byte n @ [0]) ([] # names))"

definition section_rows :: "(string \<Rightarrow> u8 list) \<Rightarrow> section_row list" where
  "section_rows code =
     [(''shstrtab'', 3, 0, 0,
        name_table [''shstrtab'', ''strtab'', ''data'', ''rodata'', ''bss'', ''text'', ''init'', ''symtab'']),
      (''strtab'', 3, 0, 0, name_table []),
      (''data'', 1, 3, 0, code ''data''),
      (''rodata'', 1, 2, 0, code ''rodata''),
      (''bss'', 8, 3, 0, code ''bss''),
      (''text'', 1, 6, 0, code ''text''),
      (''init'', 1, 6, 0, code ''init''),
      (''symtab'', 2, 2, 16, replicate 16 0)]"

fun header_rows :: "nat \<Rightarrow> nat \<Rightarrow> section_row list \<Rightarrow> u8 list" where
  "header_rows nm offs [] = []"
| "header_rows nm offs ((name, ty, flags, entsize, body) # rows) =
     concat (map be32 [nm, ty, flags, 0, offs, length body, 0, 0, 0, entsize]) @
     header_rows (nm + length name + 1) (offs + length body) rows"

definition object_file :: "(string \<Rightarrow> u8 list) \<Rightarrow> u8 list" where
  "object_file code =
     map of_nat [0x7f, 0x45, 0x4c, 0x46, 1, 2, 1, 255, 0, 0, 0, 0, 0, 0, 0, 0] @
     be16 1 @ be16 0 @ be32 1 @ be32 0 @ be32 0 @ be32 52 @ be32 0 @
     be16 52 @ be16 32 @ be16 0 @ be16 40 @ be16 8 @ be16 1 @
     replicate 40 0 @ header_rows 1 (52 + 9 * 40) (section_rows code) @
     concat (map (\<lambda>(_, _, _, _, body). body) (section_rows code))"

lemma length_be [simp]: "length (be16 n) = 2" "length (be32 n) = 4"
  by (simp_all add: be16_def be32_def)

lemma length_header_rows: "length (header_rows nm offs rows) = 40 * length rows"
  by (induction nm offs rows rule: header_rows.induct) simp_all

text \<open>The size of the file.\<close>

lemma length_object_file:
  "length (object_file code) = 479 + (\<Sum>name \<leftarrow> code_sections. length (code name))"
  by (simp add: object_file_def length_header_rows section_rows_def name_table_def code_sections_def)

text \<open>The number of a word in the byte order of the file.\<close>

lemma byte_of_nat: "(of_nat (n div 2 ^ k) :: u8) = ucast (drop_bit k (of_nat n :: u32))" if "k \<le> 24"
  using that by (intro bit_word_eqI) (auto simp: bit_simps drop_bit_eq_div [symmetric])

lemma be32_swap: "u32_bytes (swap32 (of_nat n)) = be32 n"
  unfolding u32_bytes_swap unfolding be32_def u32_bytes_def
  using byte_of_nat [of 0 n] byte_of_nat [of 8 n] byte_of_nat [of 16 n] byte_of_nat [of 24 n] by simp

lemma be16_swap: "u16_bytes (swap16 (of_nat n)) = be16 n"
proof -
  have "n div 2 ^ 8 = drop_bit 8 n" by (simp add: drop_bit_eq_div)
  then show ?thesis
    unfolding u16_bytes_swap unfolding be16_def u16_bytes_def
    by (simp only: list.map rev.simps append.simps) (auto intro!: bit_word_eqI simp: bit_simps)
qed

section \<open>What the writer writes\<close>

definition row_of :: "ISection \<Rightarrow> section_row" where
  "row_of s = (s_name s, unat (sh_type (s_header s)), unat (sh_flags (s_header s)), unat (sh_entsize (s_header s)),
     section_write s)"

text \<open>The headers of the program set nothing but type, flags and entry size.\<close>

definition plain_header :: "Elf32_Shdr \<Rightarrow> bool" where
  "plain_header h \<longleftrightarrow> sh_addr h = 0 \<and> sh_link h = 0 \<and> sh_info h = 0 \<and> sh_addralign h = 0"

lemma header_image:
  assumes "plain_header h"
  shows "Shdr_bytes (swap_section_header (h\<lparr>sh_name := of_nat nm, sh_size := of_nat len, sh_offset := of_nat offs\<rparr>)) =
    concat (map be32 [nm, unat (sh_type h), unat (sh_flags h), 0, offs, len, 0, 0, 0, unat (sh_entsize h)])"
proof -
  have "u32_bytes (swap32 w) = be32 (unat w)" for w using be32_swap [of "unat w"] by simp
  moreover from this [of "of_nat n" for n] have "be32 (unat (of_nat n :: u32)) = be32 n" for n
    by (simp only: be32_swap)
  ultimately show ?thesis
    using assms by (simp add: Shdr_bytes_def swap_section_header_def plain_header_def)
qed

lemma write_section_rows:
  assumes "list_all (\<lambda>s. plain_header (s_header s)) ss" and "(ucast (off64 :: u64) :: u32) = of_nat offs"
  shows "snd (write_section_headers (of_nat nm) off64 ss) = header_rows nm offs (map row_of ss)"
  using assms
proof (induction ss arbitrary: nm offs off64)
  case (Cons s ss)
  have step: "(ucast (off64 + section_size s) :: u32) = of_nat (offs + length (section_write s))"
    using Cons.prems(2) by (simp add: ucast_plus section_size_low)
  have nm: "of_nat nm + of_nat (length (s_name s)) + 1 = (of_nat (nm + length (s_name s) + 1) :: u32)" by simp
  have hdr: "Shdr_bytes (swap_section_header (fill_section_header (of_nat nm) off64 s)) =
      concat (map be32 [nm, unat (sh_type (s_header s)), unat (sh_flags (s_header s)), 0, offs,
        length (section_write s), 0, 0, 0, unat (sh_entsize (s_header s))])"
    using Cons.prems header_image [where h = "s_header s" and nm = nm and len = "length (section_write s)" and offs = offs]
    by (simp add: fill_section_header_def section_size_low)
  from Cons.prems(1) have "list_all (\<lambda>s. plain_header (s_header s)) ss" by simp
  from Cons.IH [OF this step, of "nm + length (s_name s) + 1"] show ?case
    unfolding write_section_headers.simps Let_def nm
    by (simp only: hdr split: prod.split) (auto simp: row_of_def split: prod.splits)
qed simp

text \<open>Filling the program sections of an object.\<close>

definition fill_code :: "(string \<Rightarrow> u8 list) \<Rightarrow> ISection \<Rightarrow> ISection" where
  "fill_code code s = (case s_data s of ProgramSection _ \<Rightarrow> s\<lparr>s_data := ProgramSection (code (s_name s))\<rparr> | _ \<Rightarrow> s)"

lemma filled_rows: "map row_of (map (fill_code code) initial_sections) = section_rows code"
proof -
  have "replicate 16 (0 :: u8) = [0, 0, 0, 0, 0, 0, 0, 0, 0, 0, 0, 0, 0, 0, 0, 0]" by code_simp
  then show ?thesis
    by (simp add: initial_sections_def make_section_defs fill_code_def row_of_def section_rows_def section_write_def
        name_table_def make_Shdr_def c_bytes_def Sym_bytes_def null_symbol_def u32_bytes_def u16_bytes_def)
qed

lemma filled_plain: "list_all (\<lambda>s. plain_header (s_header s)) (map (fill_code code) initial_sections)"
  by (simp add: initial_sections_def make_section_defs fill_code_def plain_header_def make_Shdr_def)

lemma filled_strtab:
  "find_if (\<lambda>s. sh_type (s_header s) = SHT_STRTAB) (map (fill_code code) initial_sections) = 0"
  "length (map (fill_code code) initial_sections) = 8"
  by (simp_all add: initial_sections_def make_section_defs fill_code_def find_if_def make_Shdr_def)

lemma filled_file:
  assumes "elf_header e = ELF_initial_header junk" and "elf_sections e = map (fill_code code) initial_sections"
  shows "file_bytes e = object_file code"
proof -
  define ss where "ss = map (fill_code code) initial_sections"
  have strtab: "find_if (\<lambda>s. sh_type (s_header s) = SHT_STRTAB) ss = 0" "length ss = 8" and rows: "map row_of ss = section_rows code"
    and plain: "list_all (\<lambda>s. plain_header (s_header s)) ss"
    unfolding ss_def by (rule filled_strtab filled_rows filled_plain)+
  have bytes: "fst (write_stream e) = Inr (Ehdr_bytes (swap_elf_header (fill_elf_header ss (ELF_initial_header junk))) @
      Shdr_bytes null_Shdr @ snd (write_section_headers 1 (of_nat (52 + 9 * 40)) ss) @ concat (map section_write ss))"
  proof -
    obtain ss' bs where run: "write_section_headers 1 (of_nat (52 + 9 * 40)) ss = (ss', bs)"
      by (cases "write_section_headers 1 (of_nat (52 + 9 * 40)) ss")
    have "concat (map section_write ss') = concat (map section_write ss)"
      using write_headers_file [of ss] run by (auto simp: strtab)
    with run show ?thesis
      by (simp add: write_stream_def Let_def assms strtab flip: ss_def)
  qed
  have headers: "snd (write_section_headers 1 (of_nat (52 + 9 * 40)) ss) = header_rows 1 (52 + 9 * 40) (section_rows code)"
    using write_section_rows [OF plain, of "of_nat (52 + 9 * 40)" "52 + 9 * 40" 1] by (simp add: rows)
  have data: "concat (map section_write ss) = concat (map (\<lambda>(_, _, _, _, body). body) (section_rows code))"
    unfolding rows [symmetric] by (simp add: row_of_def o_def)
  have null: "Shdr_bytes null_Shdr = replicate 40 0" by code_simp
  have ehdr: "Ehdr_bytes (swap_elf_header (fill_elf_header ss (ELF_initial_header junk))) =
      map of_nat [0x7f, 0x45, 0x4c, 0x46, 1, 2, 1, 255, 0, 0, 0, 0, 0, 0, 0, 0] @
      be16 1 @ be16 0 @ be32 1 @ be32 0 @ be32 0 @ be32 52 @ be32 0 @
      be16 52 @ be16 32 @ be16 0 @ be16 40 @ be16 8 @ be16 1"
    unfolding fill_elf_header_def strtab
    by (simp add: Ehdr_bytes_def swap_elf_header_def ELF_initial_header_def ELF_IDENT_def be16_def be32_def
      u16_bytes_swap u32_bytes_swap, simp add: u16_bytes_def u32_bytes_def)
  from write_stream_bytes [of e] bytes show ?thesis
    unfolding headers data null ehdr by (simp add: object_file_def)
qed

section \<open>The object of a compiled program\<close>

text \<open>What stays in an object without new symbols: the headers, and the data that is not code.\<close>

definition emptied :: "ISection \<Rightarrow> ISection" where
  "emptied s = fill_code (\<lambda>_. []) s"

interpretation skel: preserved "\<lambda>e. (elf_header e, map emptied (elf_sections e)) = c" for c .

lemma emptied_insert: "emptied (insert_data d s) = emptied s"
  by (simp add: emptied_def fill_code_def insert_data_def split: section_data.split)

lemma skel_set_section: "skel.keeps c (set_section name)"
  by (rule skel.keepsI) (auto simp: set_section_def Let_def)

lemma skel_add_progbits: "skel.keeps c (add_progbits d)"
proof -
  have "skel.keeps c (smodify (\<lambda>e. update_section (curr_section e) (insert_data d) e))"
    by (rule skel.keepsI) (use update_section_map [of emptied "insert_data d", OF emptied_insert] in auto)
  then show ?thesis unfolding add_progbits_def by (auto intro!: skel.keeps_sbind simp del: s_simps)
qed

lemma skel_node: "node_id n \<noteq> NT_LABEL \<Longrightarrow> skel.keeps c (assemble_node n)"
  by (cases n rule: node_cases)
    (auto simp: assemble_node_simps emit_code_def simp del: s_simps split: sum.split option.split
      intro!: skel.keeps_slift skel.keeps_sthen skel_set_section skel_add_progbits)

lemma no_labels: "defined_labels ns = [] \<longleftrightarrow> (\<forall>n \<in> set ns. node_id n \<noteq> NT_LABEL)"
  by (induction ns) (auto split: BaseNode.splits)

lemma skel_program:
  assumes "defined_labels ns = []"
  shows "skel.keeps c (assemble (Root ns))"
  unfolding assemble_Root using assms by (auto intro!: skel.keeps_sforeach skel_node simp: no_labels)

lemma emptied_fill:
  assumes "emptied s = emptied t" and "\<And>d. s_data s = ProgramSection d \<Longrightarrow> d = code (s_name t)"
  shows "s = fill_code code t"
  using assms by (cases s; cases t) (auto simp: emptied_def fill_code_def split: section_data.splits)

lemma emptied_initial: "map emptied initial_sections = initial_sections"
  by (simp add: emptied_def fill_code_def initial_sections_def make_section_defs)

lemma compiled_object:
  assumes "assemble (Root ns) (new_object junk) = (Inr (), e)" and "defined_labels ns = []"
  shows "elf_header e = ELF_initial_header junk"
    and "elf_sections e = map (fill_code (emitted ''shstrtab'' ns)) initial_sections"
proof -
  have skel: "(elf_header e, map emptied (elf_sections e)) = (ELF_initial_header junk, map emptied initial_sections)"
    using skel.keepsD [OF skel_program [OF assms(2)] refl, of "new_object junk"] assms(1)
    by (simp add: new_object_def ELF_blank_def)
  then show "elf_header e = ELF_initial_header junk" by simp
  from skel have emp: "map emptied (elf_sections e) = map emptied initial_sections" by simp
  have names: "map s_name (elf_sections e) = map s_name initial_sections"
  proof -
    have "map s_name ss = map s_name (map emptied ss)" for ss
      by (simp add: emptied_def fill_code_def split: section_data.split)
    then show ?thesis using emp by metis
  qed
  have dist: "distinct (map s_name (elf_sections e))"
    unfolding names by (simp add: initial_sections_def make_section_defs)
  have program: "t_data = emitted ''shstrtab'' ns (s_name s)"
    if s: "s \<in> set (elf_sections e)" "s_data s = ProgramSection t_data" for s t_data
  proof -
    have "emptied s \<in> set (map emptied initial_sections)" using s(1) emp by (metis image_eqI list.set_map)
    then have "s_name s \<in> set code_sections"
      using s(2) by (cases s) (auto simp: emptied_def fill_code_def initial_sections_def make_section_defs code_sections_def)
    from new_object_section [OF assms(1) this] obtain s' where
      "s' \<in> set (elf_sections e)" "s_name s' = s_name s" "s_data s' = ProgramSection (emitted ''shstrtab'' ns (s_name s))"
      by blast
    moreover from this(1,2) s(1) dist have "s' = s" by (auto simp: distinct_map dest: inj_onD)
    ultimately show ?thesis using s(2) by simp
  qed
  show "elf_sections e = map (fill_code (emitted ''shstrtab'' ns)) initial_sections"
  proof (rule nth_equalityI)
    show len: "length (elf_sections e) = length (map (fill_code (emitted ''shstrtab'' ns)) initial_sections)"
      using arg_cong [OF emp, of length] by simp
    fix i
    assume i: "i < length (elf_sections e)"
    then have "emptied (elf_sections e ! i) = emptied (initial_sections ! i)"
      using len by (metis emp length_map nth_map)
    moreover have "s_name (elf_sections e ! i) = s_name (initial_sections ! i)"
      using i len by (metis names length_map nth_map)
    ultimately show "elf_sections e ! i = map (fill_code (emitted ''shstrtab'' ns)) initial_sections ! i"
      using i len program [OF nth_mem [OF i]] by (auto intro!: emptied_fill)
  qed
qed

text \<open>The file of a compiled program is the image of its code.\<close>

lemma compiled_file:
  assumes "accepted ns" and "defined_labels ns = []"
  shows "file_bytes (snd (assemble (Root ns) (new_object junk))) = object_file (emitted ''shstrtab'' ns)"
proof -
  from assms(1) have "is_value (fst (assemble (Root ns) (new_object junk)))" by (simp only: accepts_new)
  then obtain e where "assemble (Root ns) (new_object junk) = (Inr (), e)"
    by (cases "assemble (Root ns) (new_object junk)") (auto simp: is_value_iff)
  with filled_file [OF compiled_object [OF this assms(2)]] show ?thesis by simp
qed

end
