(* ===== verification/Composition.thy ===== *)
theory Composition
  imports Assembler_Spec Parser_Properties Lexer_Spec
begin

text \<open>
  Programs put one after the other: the tokens, the tree, the acceptance and the code of a
  source that is the concatenation of two sources, from those of its parts.
\<close>

section \<open>Tokens\<close>

definition whole_lines :: "string \<Rightarrow> bool" where
  "whole_lines s \<longleftrightarrow> s = [] \<or> last s = newline"

lemma lines_of_append: "whole_lines s \<Longrightarrow> lines_of (s @ r) = lines_of s @ lines_of r"
proof (induction s rule: lines_of.induct)
  case (1 s)
  show ?case
  proof (cases "s = []")
    case True
    then show ?thesis by (simp add: lines_of.simps [of "[]"] getline_def)
  next
    case False
    with "1.prems" have "newline \<in> set s" using last_in_set [of s] by (auto simp: whole_lines_def)
    then obtain l t where s: "s = l @ newline # t" and l: "newline \<notin> set l" by (auto dest: split_list_first)
    have "list_all (\<lambda>c. c \<noteq> newline) l" using l by (auto simp: list_all_iff)
    then have "getline s = Some (l, t)" by (simp add: s getline_def takeWhile_all dropWhile_all)
    moreover have "whole_lines t" using "1.prems" by (auto simp: s whole_lines_def split: if_splits)
    ultimately have "lines_of (t @ r) = lines_of t @ lines_of r" using "1.IH" by blast
    then show ?thesis by (simp add: s lines_of_Cons [OF l])
  qed
qed

lemma rbind_Inr: "rbind m Inr = m"
  by (cases m) simp_all

lemma lex_lines_append:
  "lex_lines n (ls @ ms) = rbind (lex_lines n ls) (\<lambda>ts. rbind (lex_lines (n + length ls) ms) (\<lambda>us. Inr (ts @ us)))"
  by (induction ls arbitrary: n) (auto simp: rbind_assoc rbind_Inr split: sum.split)

lemma lex_lines_shift: "lex_lines n ls = Inr ts \<Longrightarrow> lex_lines m ls = Inr ts"
proof (induction ls arbitrary: n m ts)
  case (Cons l ls)
  from Cons.prems obtain us vs where "lex l = Inr us" "lex_lines (n + 1) ls = Inr vs" "ts = us @ [''EOL''] @ vs"
    by (cases "lex l"; cases "lex_lines (n + 1) ls") auto
  moreover from this(2) have "lex_lines (m + 1) ls = Inr vs" by (rule Cons.IH)
  ultimately show ?case by simp
qed simp

lemma lex_source_append:
  assumes "whole_lines s" and "lex_lines 0 (lines_of s) = Inr ts" and "lex_lines 0 (lines_of r) = Inr us"
  shows "lex_lines 0 (lines_of (s @ r)) = Inr (ts @ us)"
  using assms(2) lex_lines_shift [OF assms(3)] by (simp add: lines_of_append [OF assms(1)] lex_lines_append)

section \<open>Trees\<close>

lemma g_program_nonempty: "g_program ts ns \<Longrightarrow> ts \<noteq> []"
  by (induction rule: g_program.induct) auto

text \<open>A program whose only \<open>EOF\<close> is the last token can be continued.\<close>

lemma g_program_append:
  assumes "g_program (ts @ [''EOF'']) ns" and "''EOF'' \<notin> set ts" and "g_program us ms"
  shows "g_program (ts @ us) (ns @ ms)"
proof -
  have "ws = ts @ [''EOF''] \<Longrightarrow> ''EOF'' \<notin> set ts \<Longrightarrow> g_program (ts @ us) (ns @ ms)" if "g_program ws ns" for ws ns ts
    using that
  proof (induction arbitrary: ts rule: g_program.induct)
    case (g_eof vs)
    then have "ts = []" by (cases ts) auto
    with assms(3) show ?case by simp
  next
    case (g_newline vs ns)
    then obtain ts' where "ts = ''EOL'' # ts'" "vs = ts' @ [''EOF'']" by (cases ts) auto
    with g_newline show ?case by (auto intro: g_program.g_newline)
  next
    case (g_instruction_line vs n ws ns)
    from g_program_nonempty [OF g_instruction_line.hyps(2)] obtain ws' where "ws = ws' @ [''EOF'']" "ts = vs @ ''EOL'' # ws'"
      using g_instruction_line.prems(1) by (cases ws rule: rev_cases) auto
    with g_instruction_line show ?case by (auto intro: g_program.g_instruction_line)
  next
    case (g_directive_line arg ws ns)
    from g_program_nonempty [OF g_directive_line.hyps(2)] obtain ws' where "ws = ws' @ [''EOF'']" "ts = ''.section'' # arg # ws'"
      using g_directive_line.prems(1) by (cases ws rule: rev_cases) auto
    with g_directive_line show ?case by (auto intro: g_program.g_directive_line)
  qed
  with assms(1,2) show ?thesis by blast
qed

section \<open>Acceptance and code\<close>

fun last_section :: "string \<Rightarrow> BaseNode list \<Rightarrow> string" where
  "last_section cur [] = cur"
| "last_section cur (n # ns) = (case n of Directive _ (name # _) \<Rightarrow> last_section name ns | _ \<Rightarrow> last_section cur ns)"

lemma emitted_append: "emitted cur (ns @ ms) s = emitted cur ns s @ emitted (last_section cur ns) ms s"
  by (induction ns arbitrary: cur) (auto split: BaseNode.split list.split)

lemma accepts_append:
  "accepts known holds_code cur syms (ns @ ms) \<longleftrightarrow>
     accepts known holds_code cur syms ns \<and>
     accepts known holds_code (last_section cur ns) (syms @ defined_labels ns) ms"
proof (induction ns arbitrary: cur syms)
  case (Cons n ns)
  show ?case
  proof (cases n rule: node_cases)
    case instruction
    then have "last_section cur (n # ns) = last_section cur ns" "defined_labels (n # ns) = defined_labels ns"
      by (cases n; simp)+
    with Cons show ?thesis
      by (simp add: accepts_instruction [OF instruction] del: accepts.simps(2) last_section.simps(2) defined_labels.simps(2))
  next
    case other
    then show ?thesis using accepts_other by (simp del: accepts.simps(2))
  qed (use Cons in auto)
qed simp

text \<open>A program without labels that starts in a section that holds no code starts with a directive or with
  instructions without code: it has the same code when it is read in another section.\<close>

lemma accepts_syms:
  "defined_labels ns = [] \<Longrightarrow> accepts known holds_code cur syms ns \<longleftrightarrow> accepts known holds_code cur syms' ns"
proof (induction ns arbitrary: cur)
  case (Cons n ns)
  then show ?case by (cases n) (auto split: DirectiveType.split list.split)
qed simp

lemma accepts_restart:
  assumes "accepts known holds_code cur syms ns" and "\<not> holds_code cur" and "defined_labels ns = []"
  shows "accepts known holds_code cur' syms' ns \<and> emitted cur' ns s = emitted cur ns s"
  using assms
proof (induction ns)
  case (Cons n ns)
  show ?case
  proof (cases n rule: node_cases)
    case (directive name ts)
    with Cons.prems accepts_syms [of ns known holds_code name syms syms'] show ?thesis by auto
  next
    case instruction
    then have "defined_labels (n # ns) = defined_labels ns" by (cases n; simp)
    with Cons instruction show ?thesis
      by (auto simp: accepts_instruction instruction_not_other node_code_def
          simp del: accepts.simps(2) emitted.simps(2) defined_labels.simps(2))
  next
    case other
    with Cons.prems(1) show ?thesis using accepts_other by blast
  qed (use Cons in auto)
qed simp

lemma accepted_append:
  assumes "accepted ns" and "accepted ms" and "defined_labels ns = []" and "defined_labels ms = []"
  shows "accepted (ns @ ms)" 
    and "emitted ''shstrtab'' (ns @ ms) s = emitted ''shstrtab'' ns s @ emitted ''shstrtab'' ms s"
proof -
  have "\<not> ''shstrtab'' \<in> set code_sections" by (simp add: code_sections_def)
  note restart = accepts_restart [OF assms(2) [unfolded accepted_def] this assms(4), of "last_section ''shstrtab'' ns" "[]" s]
  show "accepted (ns @ ms)" using restart assms(1,3) by (simp add: accepted_def accepts_append)
  show "emitted ''shstrtab'' (ns @ ms) s = emitted ''shstrtab'' ns s @ emitted ''shstrtab'' ms s"
    using restart by (simp add: emitted_append)
qed

end
