(* ===== verification/Test_Suite.thy ===== *)
theory Test_Suite
  imports Game_Boy Elf_Objects Parser Evaluator
begin

text \<open>
  The unit tests of the repository, run on the model: for every test case of \<open>test/\<close> the model returns
  what the test expects of the code, or throws where the test expects an exception. Each lemma has the name of its test
  case, or of a group of them. Values and exceptions are compared as they are in the model: nodes
  with \<open>=\<close> in place of \<open>isAstEqual\<close>. The blocks that the tests disable (\<open>#if 0\<close>, \<open>if (false)\<close>) are left out.
\<close>

section \<open>\<open>char_utils_test.cpp\<close>\<close>

lemma char_utils_test_isNumber:
  "filter isNumber [[], ''1'', ''42'', '' 42'', ''42 '', ''a42'', ''42a''] = [''1'', ''42'']"
  by code_simp

lemma char_utils_test_isNumericOp:
  "filter isNumericOp ('' +-*/aA0'' @ [backslash] @ ''9'') = ''+-*/''"
  by code_simp

section \<open>\<open>tokenizer_test.cpp\<close> and \<open>test/data\<close>\<close>

lemma tokenizer_test_isReserved:
  "filter isReserved [''add'', ''73'', ''.section'', ''EOL''] = [''EOL'']"
  by code_simp

text \<open>The input files with the tokens that are expected of them.\<close>

text \<open>From \<open>arith0\<close> to \<open>directive_balign1\<close>.\<close>

lemma tokenizer_test_files_1:
  "list_all (\<lambda>(source, tokens). tokenize source = Inr tokens)
    [
      (''add a, 32'' @ [newline], [''add'', ''a'', '','', ''32'', ''EOL'', ''EOF'']),
      (''add a,32'' @ [newline] @ ''add     a,  32'' @ [newline] @ ''    add a, 32'' @ [newline],
       [''add'', ''a'', '','', ''32'', ''EOL'', ''add'', ''a'', '','', ''32'', ''EOL'', ''add'', ''a'', '','',
         ''32'', ''EOL'', ''EOF'']),
      (''add a, b+2'' @ [newline], [''add'', ''a'', '','', ''b'', ''+'', ''2'', ''EOL'', ''EOF'']),
      (''; File containing only a comment, starting at the beginning of a line'' @ [newline], [''EOL'', ''EOF'']),
      (''  ; Comment with a couple of spaces before it begins.'' @ [newline], [''EOL'', ''EOF'']),
      (''add a, 32           ; End of line comment'' @ [newline], [''add'', ''a'', '','', ''32'', ''EOL'', ''EOF'']),
      (''.align'' @ [newline], [''.align'', ''EOL'', ''EOF'']),
      (''.align 16, 0, 256'' @ [newline], [''.align'', ''16'', '','', ''0'', '','', ''256'', ''EOL'', ''EOF'']),
      (''.ascii '' @ [dquote] @ ''a string'' @ [dquote] @ [newline],
       [''.ascii'', [dquote] @ ''a string'' @ [dquote], ''EOL'', ''EOF'']),
      (''.ascii '' @ [dquote] @ '' a string starting with a space'' @ [dquote] @ [newline],
       [''.ascii'', [dquote] @ '' a string starting with a space'' @ [dquote], ''EOL'', ''EOF'']),
      (''.ascii '' @ [dquote] @ ''a string ending with a null byte'' @ [backslash] @ ''0'' @ [dquote] @ [newline],
       [''.ascii'', [dquote] @ ''a string ending with a null byte'' @ [backslash] @ ''0'' @ [dquote], ''EOL'',
         ''EOF'']),
      (''.ascii '' @ [dquote] @ ''a string'' @ [dquote] @ '', '' @ [dquote] @ ''another string'' @ [dquote] @ '', '' @ [dquote] @ ''a third string'' @ [dquote] @ [newline],
       [''.ascii'', [dquote] @ ''a string'' @ [dquote], '','', [dquote] @ ''another string'' @ [dquote], '','',
         [dquote] @ ''a third string'' @ [dquote], ''EOL'', ''EOF'']),
      (''.asciz '' @ [dquote] @ ''a string'' @ [dquote] @ [newline],
       [''.asciz'', [dquote] @ ''a string'' @ [dquote], ''EOL'', ''EOF'']),
      (''.asciz '' @ [dquote] @ ''a string'' @ [dquote] @ '', '' @ [dquote] @ ''another string'' @ [dquote] @ [newline],
       [''.asciz'', [dquote] @ ''a string'' @ [dquote], '','', [dquote] @ ''another string'' @ [dquote], ''EOL'',
         ''EOF'']),
      (''; Invalid balign directive (no arguments)'' @ [newline] @ ''.balign'' @ [newline],
       [''EOL'', ''.balign'', ''EOL'', ''EOF'']),
      (''; balign with one argument.'' @ [newline] @ ''.balign 4'' @ [newline],
       [''EOL'', ''.balign'', ''4'', ''EOL'', ''EOF''])]"
  by code_simp

text \<open>From \<open>directive_balign2\<close> to \<open>directive_double1\<close>.\<close>

lemma tokenizer_test_files_2:
  "list_all (\<lambda>(source, tokens). tokenize source = Inr tokens)
    [
      (''; balign with two arguments.'' @ [newline] @ ''.balign 4, 0xff'' @ [newline],
       [''EOL'', ''.balign'', ''4'', '','', ''0xff'', ''EOL'', ''EOF'']),
      (''; balign with two arguments.'' @ [newline] @ ''.balign 4, 0xff, 256'' @ [newline],
       [''EOL'', ''.balign'', ''4'', '','', ''0xff'', '','', ''256'', ''EOL'', ''EOF'']),
      (''; .data directive with no argument (default 0)'' @ [newline] @ ''.data'' @ [newline],
       [''EOL'', ''.data'', ''EOL'', ''EOF'']),
      (''; .data directive with one argument'' @ [newline] @ ''.data 2'' @ [newline],
       [''EOL'', ''.data'', ''2'', ''EOL'', ''EOF'']),
      (''; .dc with no arguments'' @ [newline] @ ''.dc'' @ [newline], [''EOL'', ''.dc'', ''EOL'', ''EOF'']),
      (''; .dc with no arguments and specified size'' @ [newline] @ ''.dc.a   ; Address-sized arguments, based on size of address on target system'' @ [newline] @ ''.dc.b   ; 8-bit (byte) arguments'' @ [newline] @ ''.dc.d   ; Double-precision float arguments'' @ [newline] @ ''.dc.l   ; 32-bit (4-byte) arguments'' @ [newline] @ ''.dc.s   ; Single-precision float arguments'' @ [newline] @ ''.dc.w   ; 16-bit (2-byte) arguments'' @ [newline] @ ''.dc.x   ; Long double-precision float arguments'' @ [newline],
       [''EOL'', ''.dc.a'', ''EOL'', ''.dc.b'', ''EOL'', ''.dc.d'', ''EOL'', ''.dc.l'', ''EOL'', ''.dc.s'',
         ''EOL'', ''.dc.w'', ''EOL'', ''.dc.x'', ''EOL'', ''EOF'']),
      (''; .dc with one argument and unspecified size (default .w)'' @ [newline] @ ''.dc 0xffff'' @ [newline],
       [''EOL'', ''.dc'', ''0xffff'', ''EOL'', ''EOF'']),
      (''; .dc with one argument and unspecified size (default .w)'' @ [newline] @ ''; argument exceeds 16 bits (no error, truncated)'' @ [newline] @ ''.dc 0x1ffff'' @ [newline],
       [''EOL'', ''EOL'', ''.dc'', ''0x1ffff'', ''EOL'', ''EOF'']),
      (''; .dc with multiple argument and unspecified size (default .w)'' @ [newline] @ ''.dc 0xffff, 1, 2, 3'' @ [newline],
       [''EOL'', ''.dc'', ''0xffff'', '','', ''1'', '','', ''2'', '','', ''3'', ''EOL'', ''EOF'']),
      (''; .dc with multiple argument and specified size'' @ [newline] @ ''.dc.a 1, 2, 3, 4    ; Address-sized arguments, based on size of address on target system'' @ [newline] @ ''.dc.b 1, 2, 3, 4    ; 8-bit (byte) arguments'' @ [newline] @ ''.dc.d 1, 2, 3, 4    ; Double-precision float arguments'' @ [newline] @ ''.dc.l 1, 2, 3, 4    ; 32-bit (4-byte) arguments'' @ [newline] @ ''.dc.s 1, 2, 3, 4    ; Single-precision float arguments'' @ [newline] @ ''.dc.w 1, 2, 3, 4    ; 16-bit (2-byte) arguments'' @ [newline] @ ''.dc.x 1, 2, 3, 4    ; Long double-precision float arguments'' @ [newline],
       [''EOL'', ''.dc.a'', ''1'', '','', ''2'', '','', ''3'', '','', ''4'', ''EOL'', ''.dc.b'', ''1'', '','',
         ''2'', '','', ''3'', '','', ''4'', ''EOL'', ''.dc.d'', ''1'', '','', ''2'', '','', ''3'', '','', ''4'',
         ''EOL'', ''.dc.l'', ''1'', '','', ''2'', '','', ''3'', '','', ''4'', ''EOL'', ''.dc.s'', ''1'', '','',
         ''2'', '','', ''3'', '','', ''4'', ''EOL'', ''.dc.w'', ''1'', '','', ''2'', '','', ''3'', '','', ''4'',
         ''EOL'', ''.dc.x'', ''1'', '','', ''2'', '','', ''3'', '','', ''4'', ''EOL'', ''EOF'']),
      (''; .dcb with unspecified size (default .w) and fill (default 0)'' @ [newline] @ ''.dcb 5'' @ [newline],
       [''EOL'', ''.dcb'', ''5'', ''EOL'', ''EOF'']),
      (''; .dcb with specified size and unspecified fill (default 0)'' @ [newline] @ ''.dcb.b 5    ; 1 byte'' @ [newline] @ ''.dcb.d 5    ; double-precision float'' @ [newline] @ ''.dcb.l 5    ; 4 bytes'' @ [newline] @ ''.dcb.s 5    ; single-precision float'' @ [newline] @ ''.dcb.w 5    ; 2 bytes'' @ [newline] @ ''.dcb.x 5    ; long double-precision float'' @ [newline],
       [''EOL'', ''.dcb.b'', ''5'', ''EOL'', ''.dcb.d'', ''5'', ''EOL'', ''.dcb.l'', ''5'', ''EOL'', ''.dcb.s'',
         ''5'', ''EOL'', ''.dcb.w'', ''5'', ''EOL'', ''.dcb.x'', ''5'', ''EOL'', ''EOF'']),
      (''; .dcb with unspecified size (default .w) and specified fill'' @ [newline] @ ''.dcb 5, 1'' @ [newline],
       [''EOL'', ''.dcb'', ''5'', '','', ''1'', ''EOL'', ''EOF'']),
      (''; .dcb with specified size and specified fill'' @ [newline] @ ''.dcb.b 5, 1    ; 1 byte'' @ [newline] @ ''.dcb.d 5, 1    ; double-precision float'' @ [newline] @ ''.dcb.l 5, 1    ; 4 bytes'' @ [newline] @ ''.dcb.s 5, 1    ; single-precision float'' @ [newline] @ ''.dcb.w 5, 1    ; 2 bytes'' @ [newline] @ ''.dcb.x 5, 1    ; long double-precision float'' @ [newline],
       [''EOL'', ''.dcb.b'', ''5'', '','', ''1'', ''EOL'', ''.dcb.d'', ''5'', '','', ''1'', ''EOL'', ''.dcb.l'',
         ''5'', '','', ''1'', ''EOL'', ''.dcb.s'', ''5'', '','', ''1'', ''EOL'', ''.dcb.w'', ''5'', '','', ''1'',
         ''EOL'', ''.dcb.x'', ''5'', '','', ''1'', ''EOL'', ''EOF'']),
      (''; .double with no arguments--invalid for Z80'' @ [newline] @ ''.double'' @ [newline],
       [''EOL'', ''.double'', ''EOL'', ''EOF'']),
      (''; .double with a single argument--invalid for Z80'' @ [newline] @ ''.double 4.0'' @ [newline],
       [''EOL'', ''.double'', ''4.0'', ''EOL'', ''EOF''])]"
  by code_simp

text \<open>From \<open>directive_double2\<close> to \<open>directive_fill2\<close>.\<close>

lemma tokenizer_test_files_3:
  "list_all (\<lambda>(source, tokens). tokenize source = Inr tokens)
    [
      (''; .double with multiple arguments--invalid for Z80'' @ [newline] @ ''.double 4.0, 3.0, 2.125'' @ [newline],
       [''EOL'', ''.double'', ''4.0'', '','', ''3.0'', '','', ''2.125'', ''EOL'', ''EOF'']),
      (''; .ds with unspecified size (default .w) and unspecified fill (default 0)'' @ [newline] @ ''.ds 4'' @ [newline],
       [''EOL'', ''.ds'', ''4'', ''EOL'', ''EOF'']),
      (''; .ds with specified size and unspecified fill (default 0)'' @ [newline] @ ''.ds.b 4 ; 1 byte'' @ [newline] @ ''.ds.d 4 ; 8 bytes'' @ [newline] @ ''.ds.l 4 ; 4 bytes'' @ [newline] @ ''.ds.p 4 ; 12 bytes'' @ [newline] @ ''.ds.s 4 ; 4 bytes'' @ [newline] @ ''.ds.w 4 ; 2 bytes'' @ [newline] @ ''.ds.x 4 ; 12 bytes'' @ [newline],
       [''EOL'', ''.ds.b'', ''4'', ''EOL'', ''.ds.d'', ''4'', ''EOL'', ''.ds.l'', ''4'', ''EOL'', ''.ds.p'',
         ''4'', ''EOL'', ''.ds.s'', ''4'', ''EOL'', ''.ds.w'', ''4'', ''EOL'', ''.ds.x'', ''4'', ''EOL'', ''EOF'']),
      (''; .ds with unspecified size (default .w) and specified fill'' @ [newline] @ ''.ds 4, 2'' @ [newline],
       [''EOL'', ''.ds'', ''4'', '','', ''2'', ''EOL'', ''EOF'']),
      (''; .ds with specified size and specified fill'' @ [newline] @ ''.ds.b 4, 2  ; 1 byte'' @ [newline] @ ''.ds.d 4, 2  ; 8 bytes'' @ [newline] @ ''.ds.l 4, 2  ; 4 bytes'' @ [newline] @ ''.ds.p 4, 2  ; 12 bytes'' @ [newline] @ ''.ds.s 4, 2  ; 4 bytes'' @ [newline] @ ''.ds.w 4, 2  ; 2 bytes'' @ [newline] @ ''.ds.x 4, 2  ; 12 bytes'' @ [newline],
       [''EOL'', ''.ds.b'', ''4'', '','', ''2'', ''EOL'', ''.ds.d'', ''4'', '','', ''2'', ''EOL'', ''.ds.l'',
         ''4'', '','', ''2'', ''EOL'', ''.ds.p'', ''4'', '','', ''2'', ''EOL'', ''.ds.s'', ''4'', '','', ''2'',
         ''EOL'', ''.ds.w'', ''4'', '','', ''2'', ''EOL'', ''.ds.x'', ''4'', '','', ''2'', ''EOL'', ''EOF'']),
      (''; set symbol testsym to 0xbeef'' @ [newline] @ ''.equ testsym, 0xbeef'' @ [newline],
       [''EOL'', ''.equ'', ''testsym'', '','', ''0xbeef'', ''EOL'', ''EOF'']),
      (''; set symbol testsym to 0xfeed'' @ [newline] @ ''.equiv testsym, 0xfeed'' @ [newline],
       [''EOL'', ''.equiv'', ''testsym'', '','', ''0xfeed'', ''EOL'', ''EOF'']),
      (''; set symbol testsym to 0xffff'' @ [newline] @ ''.eqv testsym, 0xfffe+1'' @ [newline],
       [''EOL'', ''.eqv'', ''testsym'', '','', ''0xfffe'', ''+'', ''1'', ''EOL'', ''EOF'']),
      (''.err'' @ [newline], [''.err'', ''EOL'', ''EOF'']),
      (''; .error with no message'' @ [newline] @ ''.error'' @ [newline], [''EOL'', ''.error'', ''EOL'', ''EOF'']),
      (''; .error with message'' @ [newline] @ ''.error '' @ [dquote] @ ''Test error message'' @ [dquote] @ [newline],
       [''EOL'', ''.error'', [dquote] @ ''Test error message'' @ [dquote], ''EOL'', ''EOF'']),
      (''; generate error message'' @ [newline] @ ''.fail 499'' @ [newline],
       [''EOL'', ''.fail'', ''499'', ''EOL'', ''EOF'']),
      (''; generate error message'' @ [newline] @ ''.fail 500'' @ [newline],
       [''EOL'', ''.fail'', ''500'', ''EOL'', ''EOF'']),
      (''; .fill with unspecified size and value'' @ [newline] @ ''.fill 2'' @ [newline],
       [''EOL'', ''.fill'', ''2'', ''EOL'', ''EOF'']),
      (''; .fill with unspecified value'' @ [newline] @ ''.fill 2, 2'' @ [newline],
       [''EOL'', ''.fill'', ''2'', '','', ''2'', ''EOL'', ''EOF'']),
      (''; .fill specified size and value'' @ [newline] @ ''.fill 2, 2, 0x3'' @ [newline],
       [''EOL'', ''.fill'', ''2'', '','', ''2'', '','', ''0x3'', ''EOL'', ''EOF''])]"
  by code_simp

text \<open>From \<open>directive_func0\<close> to \<open>directive_ifdef0\<close>.\<close>

lemma tokenizer_test_files_4:
  "list_all (\<lambda>(source, tokens). tokenize source = Inr tokens)
    [
      (''; .func with unspecified label'' @ [newline] @ ''.func myfunc'' @ [newline],
       [''EOL'', ''.func'', ''myfunc'', ''EOL'', ''EOF'']),
      (''; .func with specified label'' @ [newline] @ ''.func myfunc, myfunc_label'' @ [newline],
       [''EOL'', ''.func'', ''myfunc'', '','', ''myfunc_label'', ''EOL'', ''EOF'']),
      (''.global mysym'' @ [newline], [''.global'', ''mysym'', ''EOL'', ''EOF'']),
      (''.globl mysym'' @ [newline], [''.globl'', ''mysym'', ''EOL'', ''EOF'']),
      (''.hidden sym0'' @ [newline] @ ''.hidden sym1, sym2'' @ [newline],
       [''.hidden'', ''sym0'', ''EOL'', ''.hidden'', ''sym1'', '','', ''sym2'', ''EOL'', ''EOF'']),
      (''; .hword with no arguments'' @ [newline] @ ''.hword'' @ [newline], [''EOL'', ''.hword'', ''EOL'', ''EOF'']),
      (''; .hword with one or more arguments'' @ [newline] @ ''.hword 42'' @ [newline] @ ''.hword 41+1, 0xffff'' @ [newline],
       [''EOL'', ''.hword'', ''42'', ''EOL'', ''.hword'', ''41'', ''+'', ''1'', '','', ''0xffff'', ''EOL'',
         ''EOF'']),
      (''.if 0'' @ [newline], [''.if'', ''0'', ''EOL'', ''EOF'']),
      (''.if 1'' @ [newline], [''.if'', ''1'', ''EOL'', ''EOF'']),
      (''.if 1'' @ [newline] @ ''.endif'' @ [newline], [''.if'', ''1'', ''EOL'', ''.endif'', ''EOL'', ''EOF'']),
      (''.ifb'' @ [newline], [''.ifb'', ''EOL'', ''EOF'']),
      (''.ifb '' @ [dquote] @ ''text'' @ [dquote] @ [newline] @ ''.endif'' @ [newline],
       [''.ifb'', [dquote] @ ''text'' @ [dquote], ''EOL'', ''.endif'', ''EOL'', ''EOF'']),
      (''.ifc '' @ [dquote] @ ''ab'' @ [dquote] @ '', '' @ [dquote] @ ''cd'' @ [dquote] @ [newline],
       [''.ifc'', [dquote] @ ''ab'' @ [dquote], '','', [dquote] @ ''cd'' @ [dquote], ''EOL'', ''EOF'']),
      (''.ifc '' @ [dquote] @ ''ab'' @ [dquote] @ '', '' @ [dquote] @ ''ab'' @ [dquote] @ [newline],
       [''.ifc'', [dquote] @ ''ab'' @ [dquote], '','', [dquote] @ ''ab'' @ [dquote], ''EOL'', ''EOF'']),
      (''.ifc '' @ [dquote] @ ''ab'' @ [dquote] @ '', '' @ [dquote] @ ''ab'' @ [dquote] @ [newline] @ ''.endif'' @ [newline],
       [''.ifc'', [dquote] @ ''ab'' @ [dquote], '','', [dquote] @ ''ab'' @ [dquote], ''EOL'', ''.endif'', ''EOL'',
         ''EOF'']),
      (''.ifdef undefined_symbol'' @ [newline], [''.ifdef'', ''undefined_symbol'', ''EOL'', ''EOF''])]"
  by code_simp

text \<open>From \<open>directive_ifdef1\<close> to \<open>directive_ifle1\<close>.\<close>

lemma tokenizer_test_files_5:
  "list_all (\<lambda>(source, tokens). tokenize source = Inr tokens)
    [
      (''.equ mysym, 0x35'' @ [newline] @ ''.ifdef symbol'' @ [newline],
       [''.equ'', ''mysym'', '','', ''0x35'', ''EOL'', ''.ifdef'', ''symbol'', ''EOL'', ''EOF'']),
      (''.equ mysym, 0x35'' @ [newline] @ ''.ifdef symbol'' @ [newline] @ ''.endif'' @ [newline],
       [''.equ'', ''mysym'', '','', ''0x35'', ''EOL'', ''.ifdef'', ''symbol'', ''EOL'', ''.endif'', ''EOL'',
         ''EOF'']),
      (''.ifeq 0'' @ [newline], [''.ifeq'', ''0'', ''EOL'', ''EOF'']),
      (''.ifeq 1'' @ [newline], [''.ifeq'', ''1'', ''EOL'', ''EOF'']),
      (''.ifeq 1'' @ [newline] @ ''.endif'' @ [newline], [''.ifeq'', ''1'', ''EOL'', ''.endif'', ''EOL'', ''EOF'']),
      (''.ifeqs '' @ [dquote] @ ''12'' @ [dquote] @ '', '' @ [dquote] @ ''23'' @ [dquote] @ [newline],
       [''.ifeqs'', [dquote] @ ''12'' @ [dquote], '','', [dquote] @ ''23'' @ [dquote], ''EOL'', ''EOF'']),
      (''.ifeqs '' @ [dquote] @ ''12'' @ [dquote] @ '', '' @ [dquote] @ ''12'' @ [dquote] @ [newline],
       [''.ifeqs'', [dquote] @ ''12'' @ [dquote], '','', [dquote] @ ''12'' @ [dquote], ''EOL'', ''EOF'']),
      (''.ifeqs '' @ [dquote] @ ''12'' @ [dquote] @ '', '' @ [dquote] @ ''23'' @ [dquote] @ [newline] @ ''.endif'' @ [newline],
       [''.ifeqs'', [dquote] @ ''12'' @ [dquote], '','', [dquote] @ ''23'' @ [dquote], ''EOL'', ''.endif'',
         ''EOL'', ''EOF'']),
      (''.ifge 2'' @ [newline], [''.ifge'', ''2'', ''EOL'', ''EOF'']),
      (''.ifge 0'' @ [newline] @ ''.endif'' @ [newline], [''.ifge'', ''0'', ''EOL'', ''.endif'', ''EOL'', ''EOF'']),
      (''.ifge -1'' @ [newline] @ ''.endif'' @ [newline],
       [''.ifge'', ''-'', ''1'', ''EOL'', ''.endif'', ''EOL'', ''EOF'']),
      (''.ifgt 0'' @ [newline], [''.ifgt'', ''0'', ''EOL'', ''EOF'']),
      (''.ifgt 1'' @ [newline], [''.ifgt'', ''1'', ''EOL'', ''EOF'']),
      (''.ifge 1'' @ [newline] @ ''.endif'' @ [newline], [''.ifge'', ''1'', ''EOL'', ''.endif'', ''EOL'', ''EOF'']),
      (''.ifle -1'' @ [newline] @ ''.endif'' @ [newline],
       [''.ifle'', ''-'', ''1'', ''EOL'', ''.endif'', ''EOL'', ''EOF'']),
      (''.ifle 0'' @ [newline] @ ''.endif'' @ [newline], [''.ifle'', ''0'', ''EOL'', ''.endif'', ''EOL'', ''EOF''])]"
  by code_simp

text \<open>From \<open>directive_ifle2\<close> to \<open>directive_include0\<close>.\<close>

lemma tokenizer_test_files_6:
  "list_all (\<lambda>(source, tokens). tokenize source = Inr tokens)
    [
      (''.ifle 256'' @ [newline] @ ''.endif'' @ [newline],
       [''.ifle'', ''256'', ''EOL'', ''.endif'', ''EOL'', ''EOF'']),
      (''.iflt -1'' @ [newline] @ ''.endif'' @ [newline],
       [''.iflt'', ''-'', ''1'', ''EOL'', ''.endif'', ''EOL'', ''EOF'']),
      (''.iflt 0'' @ [newline] @ ''.endif'' @ [newline], [''.iflt'', ''0'', ''EOL'', ''.endif'', ''EOL'', ''EOF'']),
      (''.ifnb 0'' @ [newline] @ ''.endif'' @ [newline], [''.ifnb'', ''0'', ''EOL'', ''.endif'', ''EOL'', ''EOF'']),
      (''.ifnb'' @ [newline] @ ''.endif'' @ [newline], [''.ifnb'', ''EOL'', ''.endif'', ''EOL'', ''EOF'']),
      (''.ifnc '' @ [dquote] @ ''12'' @ [dquote] @ '', '' @ [dquote] @ ''34'' @ [dquote] @ [newline] @ ''.endif'' @ [newline],
       [''.ifnc'', [dquote] @ ''12'' @ [dquote], '','', [dquote] @ ''34'' @ [dquote], ''EOL'', ''.endif'',
         ''EOL'', ''EOF'']),
      (''.ifnc '' @ [dquote] @ ''12'' @ [dquote] @ '', '' @ [dquote] @ ''12'' @ [dquote] @ [newline] @ ''.endif'' @ [newline],
       [''.ifnc'', [dquote] @ ''12'' @ [dquote], '','', [dquote] @ ''12'' @ [dquote], ''EOL'', ''.endif'',
         ''EOL'', ''EOF'']),
      (''.ifndef undef_sym'' @ [newline] @ ''.endif'' @ [newline],
       [''.ifndef'', ''undef_sym'', ''EOL'', ''.endif'', ''EOL'', ''EOF'']),
      (''.equ defined_sym, 44'' @ [newline] @ ''.ifndef defined_sym'' @ [newline] @ ''.endif'' @ [newline],
       [''.equ'', ''defined_sym'', '','', ''44'', ''EOL'', ''.ifndef'', ''defined_sym'', ''EOL'', ''.endif'',
         ''EOL'', ''EOF'']),
      (''.ifne 0'' @ [newline] @ ''.endif'' @ [newline], [''.ifne'', ''0'', ''EOL'', ''.endif'', ''EOL'', ''EOF'']),
      (''.ifne 23'' @ [newline] @ ''.endif'' @ [newline], [''.ifne'', ''23'', ''EOL'', ''.endif'', ''EOL'', ''EOF'']),
      (''.equ defined_sym, 44'' @ [newline] @ ''.ifnotdef defined_sym'' @ [newline] @ ''.endif'' @ [newline],
       [''.equ'', ''defined_sym'', '','', ''44'', ''EOL'', ''.ifnotdef'', ''defined_sym'', ''EOL'', ''.endif'',
         ''EOL'', ''EOF'']),
      (''.ifnotdef undefined_sym'' @ [newline] @ ''.endif'' @ [newline],
       [''.ifnotdef'', ''undefined_sym'', ''EOL'', ''.endif'', ''EOL'', ''EOF'']),
      (''; incbin with unspecified skip and count'' @ [newline] @ ''.incbin '' @ [dquote] @ ''file.bin'' @ [dquote] @ [newline],
       [''EOL'', ''.incbin'', [dquote] @ ''file.bin'' @ [dquote], ''EOL'', ''EOF'']),
      (''; incbin with unspecified count'' @ [newline] @ ''.incbin '' @ [dquote] @ ''file.bin'' @ [dquote] @ '', 4'' @ [newline],
       [''EOL'', ''.incbin'', [dquote] @ ''file.bin'' @ [dquote], '','', ''4'', ''EOL'', ''EOF'']),
      (''; include with no following code'' @ [newline] @ ''.include '' @ [dquote] @ ''incfile.asm'' @ [dquote] @ [newline],
       [''EOL'', ''.include'', [dquote] @ ''incfile.asm'' @ [dquote], ''EOL'', ''EOF''])]"
  by code_simp

text \<open>From \<open>directive_include1\<close> to \<open>directive_linkonce2\<close>.\<close>

lemma tokenizer_test_files_7:
  "list_all (\<lambda>(source, tokens). tokenize source = Inr tokens)
    [
      (''; include with following code'' @ [newline] @ ''.include '' @ [dquote] @ ''incfile.asm'' @ [dquote] @ [newline] @ ''add a, 15'' @ [newline],
       [''EOL'', ''.include'', [dquote] @ ''incfile.asm'' @ [dquote], ''EOL'', ''add'', ''a'', '','', ''15'',
         ''EOL'', ''EOF'']),
      (''.int'' @ [newline] @ ''.int 1'' @ [newline] @ ''.int 1, 2, 3, 4'' @ [newline],
       [''.int'', ''EOL'', ''.int'', ''1'', ''EOL'', ''.int'', ''1'', '','', ''2'', '','', ''3'', '','', ''4'',
         ''EOL'', ''EOF'']),
      (''; untermintated .irp'' @ [newline] @ ''.irp name,1,2'' @ [newline] @ ''add a, '' @ [backslash] @ ''name'' @ [newline],
       [''EOL'', ''.irp'', ''name'', '','', ''1'', '','', ''2'', ''EOL'', ''add'', ''a'', '','',
         [backslash] @ ''name'', ''EOL'', ''EOF'']),
      (''; termintated .irp'' @ [newline] @ ''.irp name,1,2'' @ [newline] @ ''add a, '' @ [backslash] @ ''name'' @ [newline] @ ''.endr'' @ [newline],
       [''EOL'', ''.irp'', ''name'', '','', ''1'', '','', ''2'', ''EOL'', ''add'', ''a'', '','',
         [backslash] @ ''name'', ''EOL'', ''.endr'', ''EOL'', ''EOF'']),
      (''; untermintated .irpc'' @ [newline] @ ''.irp name,12'' @ [newline] @ ''add a, '' @ [backslash] @ ''name'' @ [newline],
       [''EOL'', ''.irp'', ''name'', '','', ''12'', ''EOL'', ''add'', ''a'', '','', [backslash] @ ''name'',
         ''EOL'', ''EOF'']),
      (''; termintated .irp'' @ [newline] @ ''.irpc name,123'' @ [newline] @ ''add a, '' @ [backslash] @ ''name'' @ [newline] @ ''.endr'' @ [newline],
       [''EOL'', ''.irpc'', ''name'', '','', ''123'', ''EOL'', ''add'', ''a'', '','', [backslash] @ ''name'',
         ''EOL'', ''.endr'', ''EOL'', ''EOF'']),
      (''; termintated .irp with substitution symbol preceded directly by another'' @ [newline] @ ''; character that should not be escaped. Should add 10, 11, and 12 to reg a.'' @ [newline] @ ''.irpc name,012'' @ [newline] @ ''add a, 1'' @ [backslash] @ ''name'' @ [newline] @ ''.endr'' @ [newline],
       [''EOL'', ''EOL'', ''.irpc'', ''name'', '','', ''012'', ''EOL'', ''add'', ''a'', '','',
         ''1'' @ [backslash] @ ''name'', ''EOL'', ''.endr'', ''EOL'', ''EOF'']),
      (''; invalid .lcomm with no args'' @ [newline] @ ''.lcomm'' @ [newline],
       [''EOL'', ''.lcomm'', ''EOL'', ''EOF'']),
      (''; invalid .lcomm with only symbol argument'' @ [newline] @ ''.lcomm name'' @ [newline],
       [''EOL'', ''.lcomm'', ''name'', ''EOL'', ''EOF'']),
      (''; valid .lcomm'' @ [newline] @ ''.lcomm name, 4'' @ [newline],
       [''EOL'', ''.lcomm'', ''name'', '','', ''4'', ''EOL'', ''EOF'']),
      (''; invalid .line'' @ [newline] @ ''.line'' @ [newline], [''EOL'', ''.line'', ''EOL'', ''EOF'']),
      (''; valid .line'' @ [newline] @ ''.line 15'' @ [newline], [''EOL'', ''.line'', ''15'', ''EOL'', ''EOF'']),
      (''; valid .line inside .def'' @ [newline] @ ''.def'' @ [newline] @ [newline] @ ''.line 15'' @ [newline] @ [newline] @ ''.endef'' @ [newline],
       [''EOL'', ''.def'', ''EOL'', ''EOL'', ''.line'', ''15'', ''EOL'', ''EOL'', ''.endef'', ''EOL'', ''EOF'']),
      (''; .linkonce with no arguments'' @ [newline] @ ''.linkonce'' @ [newline],
       [''EOL'', ''.linkonce'', ''EOL'', ''EOF'']),
      (''; .linkonce with valid arguments'' @ [newline] @ ''.linkonce discard'' @ [newline] @ ''.linkonce one_only'' @ [newline] @ ''.linkonce same_size'' @ [newline] @ ''.linkonce same_contents'' @ [newline],
       [''EOL'', ''.linkonce'', ''discard'', ''EOL'', ''.linkonce'', ''one_only'', ''EOL'', ''.linkonce'',
         ''same_size'', ''EOL'', ''.linkonce'', ''same_contents'', ''EOL'', ''EOF'']),
      (''; .linkonce with invalid arguments'' @ [newline] @ ''.linkonce unicorn'' @ [newline],
       [''EOL'', ''.linkonce'', ''unicorn'', ''EOL'', ''EOF''])]"
  by code_simp

text \<open>From \<open>directive_list\<close> to \<open>directive_long1\<close>.\<close>

lemma tokenizer_test_files_8:
  "list_all (\<lambda>(source, tokens). tokenize source = Inr tokens)
    [
      (''.list'' @ [newline], [''.list'', ''EOL'', ''EOF'']),
      (''; invalid .ln'' @ [newline] @ ''.ln'' @ [newline], [''EOL'', ''.ln'', ''EOL'', ''EOF'']),
      (''; valid .ln'' @ [newline] @ ''.ln 15'' @ [newline], [''EOL'', ''.ln'', ''15'', ''EOL'', ''EOF'']),
      (''; invalid .loc'' @ [newline] @ ''.loc'' @ [newline], [''EOL'', ''.loc'', ''EOL'', ''EOF'']),
      (''; invalid .loc---missing lineno'' @ [newline] @ ''.loc 3'' @ [newline],
       [''EOL'', ''.loc'', ''3'', ''EOL'', ''EOF'']),
      (''; valid .loc with no optional arguments'' @ [newline] @ ''.loc 3 25'' @ [newline],
       [''EOL'', ''.loc'', ''3'', ''25'', ''EOL'', ''EOF'']),
      (''; valid .loc with optional column argument'' @ [newline] @ ''.loc 3 25 11'' @ [newline],
       [''EOL'', ''.loc'', ''3'', ''25'', ''11'', ''EOL'', ''EOF'']),
      (''; invalid .local'' @ [newline] @ ''.local'' @ [newline], [''EOL'', ''.local'', ''EOL'', ''EOF'']),
      (''; valid .local'' @ [newline] @ ''.local sym0'' @ [newline] @ ''.local sym1, sym2,sym3,   sym4'' @ [newline],
       [''EOL'', ''.local'', ''sym0'', ''EOL'', ''.local'', ''sym1'', '','', ''sym2'', '','', ''sym3'', '','',
         ''sym4'', ''EOL'', ''EOF'']),
      (''; invalid .long'' @ [newline] @ ''.long'' @ [newline], [''EOL'', ''.long'', ''EOL'', ''EOF'']),
      (''; valid .long'' @ [newline] @ ''.long 3'' @ [newline] @ ''.long 3, 4, 5'' @ [newline] @ ''.long 0xffffffff'' @ [newline] @ ''.long 0b11001010'' @ [newline] @ ''.long 073'' @ [newline],
       [''EOL'', ''.long'', ''3'', ''EOL'', ''.long'', ''3'', '','', ''4'', '','', ''5'', ''EOL'', ''.long'',
         ''0xffffffff'', ''EOL'', ''.long'', ''0b11001010'', ''EOL'', ''.long'', ''073'', ''EOL'', ''EOF''])]"
  by code_simp

section \<open>\<open>parser_test.cpp\<close>\<close>

definition parsed :: "parser_error + BaseNode \<times> pstate \<Rightarrow> BaseNode option" where
  "parsed m = (case m of Inr (n, _) \<Rightarrow> Some n | _ \<Rightarrow> None)"

definition parser_throws :: "parser_error + BaseNode \<times> pstate \<Rightarrow> bool" where
  "parser_throws m \<longleftrightarrow> (case m of Inl (ParserException _) \<Rightarrow> True | _ \<Rightarrow> False)"

lemma parser_test_isNumericOp:
  "filter isNumericOp_tok [[], ''+'', ''-'', ''*'', ''/'', ''++'', ''--'', ''**'', ''//'', ''1+'', '' +'', ''+ ''] =
     [''+'', ''-'', ''*'', ''/'']"
  by code_simp

lemma parser_test_isInstruction:
  "list_all (\<lambda>t. \<not> isInstruction t) [[], ''42'', ''+'', ''label20'']"
  "list_all isInstruction
     [''add'', ''adc'', ''inc'', ''sub'', ''sbc'', ''and'', ''xor'', ''or'', ''cp'', ''dec'', ''rlc'', ''rlca'',
      ''rl'', ''rla'', ''rrc'', ''rrca'', ''rr'', ''rra'', ''daa'', ''scf'', ''cpl'', ''ccf'', ''ld'', ''ldi'',
      ''ldd'', ''push'', ''pop'', ''jr'', ''ret'', ''jp'', ''call'', ''rst'', ''nop'', ''stop'', ''halt'', ''di'',
      ''ei'', ''sla'', ''sra'', ''swap'', ''srl'', ''bit'', ''res'', ''set'']"
  by code_simp+

lemma parser_test_isLabel:
  "filter isLabel [[], ''42'', ''-'', '' '', '':'', ''add'', ''lbl'', ''lbl1'', ''lbl_1'', ''lbl-1'', ''1lbl''] =
     [''lbl'', ''lbl1'', ''lbl_1'']"
  by code_simp

lemma parser_test_isRegister:
  "filter isRegister [[], ''af'', ''a'', ''b'', ''c'', ''d'', ''f'', ''h'', ''l'', '' l''] =
     [''a'', ''b'', ''c'', ''d'', ''f'', ''h'', ''l'']"
  by code_simp

lemma parser_test_isDRegister:
  "filter isDRegister [[], ''a'', ''b'', ''c'', ''d'', ''f'', ''h'', ''l'', '' l'', '' af'', ''aa'', ''af'', ''bc'',
     ''de'', ''hl'', ''sp'', ''pc''] = [''af'', ''bc'', ''de'', ''hl'', ''sp'', ''pc'']"
  by code_simp

lemma parser_test_parseRegister:
  "list_all (\<lambda>t. parser_throws (parse_register (Parser [t]))) [[], ''af'']"
  "list_all (\<lambda>c. parsed (parse_register (Parser [[c]])) = Some (Register c)) ''afbcde''"
  by code_simp+

lemma parser_test_dregister:
  "list_all (\<lambda>t. parser_throws (dregister (Parser [t]))) [[], ''a'']"
  "list_all (\<lambda>(c, d). parsed (dregister (Parser [[c, d]])) = Some (DRegister c d)) (zip ''abdhsp'' ''fcelpc'')"
  by code_simp+

lemma parser_test_number:
  "map (\<lambda>t. parsed (number (Parser [t]))) [''123'', ''-123'', ''0'', ''notnumber'', ''255''] =
     [Some (Number 123), Some (Number (- 123)), Some (Number 0), Some (Number 0), Some (Number 255)]"
  by code_simp

lemma parser_test_unary:
  "parsed (unary (Parser [''123''])) = Some (Number 123)"
  "parsed (unary (Parser [''-'', ''123''])) = Some (UnaryOp UO_NEG (Number 123))"
  by code_simp+

lemma parser_test_label: "parsed (label (Parser [''asdf12aa23''])) = Some (Label ''asdf12aa23'')"
  by code_simp

lemma parser_test_operand:
  "list_all (\<lambda>t. parser_throws (operand (Parser [t]))) [[], ''halt'', ''+'']"
  "map (\<lambda>t. parsed (operand (Parser [t]))) [''asdf12aa23'', ''123'', ''d''] =
     [Some (Label ''asdf12aa23''), Some (Number 123), Some (Register CHR ''d'')]"
  by code_simp+

lemma parser_test_multiplication:
  "parsed (multiplication (Parser [''20''])) = Some (Number 20)"
  "parsed (multiplication (Parser [''20'', ''*'', ''123''])) = Some (BinaryOp BO_MULT (Number 20) (Number 123))"
  "parsed (multiplication (Parser [''200'', ''/'', ''20''])) = Some (BinaryOp BO_DIV (Number 200) (Number 20))"
  "parsed (multiplication (Parser [''-'', ''20'', ''/'', ''10'', ''*'', ''6''])) =
     Some (BinaryOp BO_MULT (BinaryOp BO_DIV (UnaryOp UO_NEG (Number 20)) (Number 10)) (Number 6))"
  "parsed (multiplication (Parser [''20'', ''*'', ''10'', ''*'', ''-'', ''6''])) =
     Some (BinaryOp BO_MULT (BinaryOp BO_MULT (Number 20) (Number 10)) (UnaryOp UO_NEG (Number 6)))"
  by code_simp+

lemma parser_test_addition:
  "parsed (addition (Parser [''123'', ''+'', ''112''])) = Some (BinaryOp BO_ADD (Number 123) (Number 112))"
  "parsed (addition (Parser [''123'', ''-'', ''200'', ''-'', ''20''])) =
     Some (BinaryOp BO_SUB (BinaryOp BO_SUB (Number 123) (Number 200)) (Number 20))"
  by code_simp+

section \<open>\<open>assembler_test.cpp\<close>\<close>

definition assembler_throws :: "asm_error + 'a \<Rightarrow> bool" where
  "assembler_throws m \<longleftrightarrow> (case m of Inl (AssemblerException _) \<Rightarrow> True | _ \<Rightarrow> False)"

lemma assembler_test_evaluate_basic:
  "list_all (\<lambda>n. evaluate n = Inr n)
     [Root [], Root [Number 42], Number 42, Label ''asdf_1234'', Register CHR ''e'', DRegister CHR ''d'' CHR ''e'']"
  "assembler_throws (evaluate InvalidNode)"
  by code_simp+

lemma assembler_test_evaluateUnaryOp:
  "list_all (\<lambda>n. evaluateUnaryOp n = Inr n)
     [UnaryOp UO_NEG (Register CHR ''a''), UnaryOp UO_NEG (Label ''asdf'')]"
  "evaluateUnaryOp (UnaryOp UO_NEG (Number 42)) = Inr (Number (- 42))"
  "assembler_throws (evaluateUnaryOp (UnaryOp UO_INVALID (Number 42)))"
  by code_simp+

lemma assembler_test_evaluateBinaryOp:
  "list_all (\<lambda>n. evaluateBinaryOp n = Inr n)
     [BinaryOp BO_MULT (Register CHR ''a'') (Register CHR ''b''), BinaryOp BO_MULT (Label ''asdf1'') (Label ''asdf2''),
      BinaryOp BO_ADD (Number 42) (Label ''asdf2''), BinaryOp BO_SUB (Label ''asdf2'') (Number 42),
      BinaryOp BO_DIV (Register CHR ''d'') (Number 42)]"
  "list_all (\<lambda>n. evaluateBinaryOp n = Inr (Number 42))
     [BinaryOp BO_MULT (Number 21) (Number 2), BinaryOp BO_ADD (Number 40) (Number 2),
      BinaryOp BO_SUB (Number 50) (Number 8), BinaryOp BO_SUB (BinaryOp BO_DIV (Number 92) (Number 2)) (Number 4)]"
  "assembler_throws (evaluateBinaryOp (BinaryOp BO_INVALID l r))"
  by code_simp+

lemma assembler_test_evaluateInstruction:
  "list_all (\<lambda>n. evaluateInstruction n = Inr n)
     [Instruction0 IT_NOP, Instruction1 IT_INC (Register CHR ''b''),
      Instruction2 IT_ADD (Register CHR ''b'') (Label ''asdf'')]"
  "assembler_throws (evaluateInstruction (InstructionN IT_INVALID 0))"
  "evaluateInstruction (Instruction1 IT_DEC (UnaryOp UO_NEG (Number (- 42)))) = Inr (Instruction1 IT_DEC (Number 42))"
  "evaluateInstruction (Instruction1 IT_INC (BinaryOp BO_MULT (Number 21) (Number 2))) =
     Inr (Instruction1 IT_INC (Number 42))"
  "evaluateInstruction (Instruction2 IT_ADD (UnaryOp UO_NEG (Number (- 42))) (BinaryOp BO_DIV (Number 84) (Number 2))) =
     Inr (Instruction2 IT_ADD (Number 42) (Number 42))"
  by code_simp+

lemma assembler_test_evaluate:
  "let n = Root [Instruction0 IT_NOP, Instruction1 IT_JP (Label ''asdf''),
       Instruction2 IT_LD (DRegister CHR ''b'' CHR ''c'') (Number 16)]
   in evaluate n = Inr n"
  "evaluate (Root [Instruction0 IT_NOP, Instruction1 IT_JP (UnaryOp UO_NEG (Number (- 42))),
       Instruction2 IT_LD (BinaryOp BO_ADD (Number (- 42)) (Number 84))
         (UnaryOp UO_NEG (UnaryOp UO_NEG (BinaryOp BO_DIV (Number 84) (Number 2))))]) =
     Inr (Root [Instruction0 IT_NOP, Instruction1 IT_JP (Number 42), Instruction2 IT_LD (Number 42) (Number 42)])"
  by code_simp+

lemma assembler_test_instructionNone:
  "map InstructionNone_encode
     [IT_NOP, IT_STOP, IT_RLCA, IT_RLA, IT_DAA, IT_SCF, IT_RRCA, IT_RRA, IT_CPL, IT_CCF, IT_HALT, IT_DI, IT_RET, IT_RETI, IT_EI] =
   map Inr [0x00, 0x10, 0x07, 0x17, 0x27, 0x37, 0x0f, 0x1f, 0x2f, 0x3f, 0x76, 0xf3, 0xc9, 0xd9, 0xfb]"
  "assembler_throws (InstructionNone_encode IT_RST)"
  by code_simp+

text \<open>The data of the section \<open>text\<close> after assembling a program, or \<open>None\<close> if that throws.\<close>

definition text_after :: "BaseNode list \<Rightarrow> section_data option" where
  "text_after ns =
     (case assemble (Root ns) (new_object 0) of
        (Inr _, e) \<Rightarrow> map_option s_data (List.find (\<lambda>s. s_name s = ''text'') (elf_sections e))
      | _ \<Rightarrow> None)"

lemma assembler_test_assemble:
  "map text_after
     [[Directive DT_SECTION [''text'']],
      [Directive DT_SECTION [''text''], Instruction0 IT_NOP],
      [Directive DT_SECTION [''text''], Label ''nop'', Instruction0 IT_NOP]] =
   map (Some \<circ> ProgramSection) [[], [0x00], [0x00]]"
  by code_simp

section \<open>\<open>elf_test.cpp\<close>\<close>

definition elf_throws :: "(elf_error + 'a) \<times> ELF \<Rightarrow> bool" where
  "elf_throws m \<longleftrightarrow> (case m of (Inl (ELFException _), _) \<Rightarrow> True | _ \<Rightarrow> False)"

lemma elf_test_constructor_header:
  "elf_header (new_object junk) =
     \<lparr>e_ident = [0x7f, 0x45, 0x4c, 0x46, ELFCLASS32, ELFDATA2MSB, 1, ELFOSABI_STANDALONE, 0, 0, 0, 0, 0, 0, 0, 0],
      e_type = ET_REL, e_machine = EM_NONE, e_version = EV_CURRENT, e_entry = 0, e_phoff = 0, e_shoff = 0, e_flags = 0,
      e_ehsize = 52, e_phentsize = 32, e_phnum = 0, e_shentsize = 40, e_shnum = 0, e_shstrndx = junk\<rparr>"
  by (simp add: new_object_def ELF_blank_def ELF_initial_header_def ELF_IDENT_def)

lemma elf_test_constructor_sections:
  "map (\<lambda>s. (s_name s, s_header s)) (elf_sections (new_object junk)) =
     [(''shstrtab'', make_Shdr SHT_STRTAB 0 0), (''strtab'', make_Shdr SHT_STRTAB 0 0),
      (''data'', make_Shdr SHT_PROGBITS (SHF_ALLOC OR SHF_WRITE) 0), (''rodata'', make_Shdr SHT_PROGBITS SHF_ALLOC 0),
      (''bss'', make_Shdr SHT_NOBITS (SHF_ALLOC OR SHF_WRITE) 0),
      (''text'', make_Shdr SHT_PROGBITS (SHF_ALLOC OR SHF_EXECINSTR) 0),
      (''init'', make_Shdr SHT_PROGBITS (SHF_ALLOC OR SHF_EXECINSTR) 0), (''symtab'', make_Shdr SHT_SYMTAB SHF_ALLOC 16)]"
  by (simp add: new_object_def initial_sections_def make_section_defs)

lemma elf_test_add_section:
  "elf_throws (add_section (make_SymTabSection ''symtab'' (make_Shdr SHT_SYMTAB SHF_ALLOC 16)) False (new_object 0))"
  "map (\<lambda>relocatable. map (\<lambda>s. (s_name s, sh_type (s_header s))) (drop 8 (elf_sections (snd
       (add_section (make_SymTabSection ''new_section'' (make_Shdr SHT_PROGBITS SHF_ALLOC 16)) relocatable (new_object 0))))))
     [False, True] =
   [[(''new_section'', SHT_PROGBITS)], [(''new_section'', SHT_PROGBITS), (''relnew_section'', SHT_REL)]]"
  by code_simp+

lemma elf_test_add_string:
  "let e = snd (add_string ''mstring123'' (new_object 0))
   in string_table e = Inr [[], ''mstring123''] \<and> sh_size (s_header (elf_sections e ! strtab_idx e)) = 11"
  by code_simp

lemma elf_test_add_symbol:
  "let e = snd (set_section ''data'' (new_object 0));
       define = (\<lambda>v. add_symbol ''asdf'' v 0 Type_object Binding_local Visibility_default False);
       symbol = \<lparr>st_name = 1, st_value = 1234, st_size = 0, st_info = ELF32_ST_INFO STB_LOCAL STT_OBJECT,
         st_other = STV_DEFAULT, st_shndx = of_nat (section_named ''data'' e)\<rparr>;
       (ret, e1) = define 1234 e
   in ret = Inr symbol \<and> string_table e1 = Inr [[], ''asdf''] \<and>
      current_symbol_table e1 = Inr [null_symbol, symbol] \<and> elf_throws (define 0 e1)"
  by code_simp

end
