(* ===== verification/Spec2Isabelle.thy ===== *)
theory Spec2Isabelle
  imports Driver Printer Elf_Reader Elf_Decoder Game_Boy File_Image Composition Test_Suite
begin

text \<open>
  \<open>gbas\<close>, an assembler for the Game Boy: the text of a program becomes tokens, a syntax tree,
  an object in memory and an ELF file. This development models the whole pipeline and proves
  what its parts promise each other.

  The program and its theories, in the order of the data.

  \<^item> \<open>Gbas_Prelude\<close>: results (\<open>error + value\<close>), operations on a state that may throw and
    keep the state (\<open>sbind\<close>, \<open>sthen\<close>, \<open>slift\<close>, \<open>sforeach\<close>), the locales \<open>preserved\<close>
    (an invariant that every operation keeps) and \<open>simulation\<close> (a step that carries over to
    loops), decimal numbers, \<open>std::find_if\<close>, narrowing of words.
  \<^item> \<open>Char_Utils\<close>: \<open>include/char_utils.hpp\<close>. A \<open>char\<close> is a byte.
  \<^item> \<open>Tokenizer\<close>: \<open>include/tokenizer.hpp\<close>, \<open>src/tokenizer.cpp\<close>. The inner loop of
    \<open>Tokenizer::tokenize\<close> is the step function \<open>tok_step\<close> on the record of its local variables;
    \<open>tok_line\<close> and \<open>tokenize_lines\<close> are the two loops. \<open>Lexer_Spec\<close> has the reference lexer
    \<open>lex\<close>, proves that the state machine computes it, positions of errors included, and that
    tokenizing inverts printing.
  \<^item> \<open>Ast\<close>: the node classes of \<open>include/parser.hpp\<close> as one datatype, and what their members
    and visitors return.
  \<^item> \<open>Parser\<close>: \<open>class Parser\<close> of \<open>include/parser.hpp\<close> and \<open>src/parser.cpp\<close>: the cursor is the
    record \<open>pstate\<close>, a member function an operation on it. The locale \<open>consuming\<close> is the contract
    between the member functions (on return the cursor has moved forward), and the reason why
    the loops end; \<open>left_assoc\<close> extends it for the two levels of operators. \<open>Grammar\<close> has the
    grammar as inductive relations and proves that the parser accepts exactly that;
    \<open>Parser_Properties\<close> bounds and shapes; \<open>Printer\<close> the way back from a tree to source text.
  \<^item> \<open>Evaluator\<close>: \<open>Assembler::evaluate\<close> and its helpers; \<open>denote\<close> is the value of an
    expression in \<open>uint8_t\<close> arithmetic.
  \<^item> \<open>Encoders\<close>: the encoding structures and the table \<open>formats\<close> of \<open>src/assembler.cpp\<close>.
  \<^item> \<open>Assembler\<close>: \<open>assemble\<close>, \<open>assembleInstruction\<close> and the helpers. \<open>Assembler_Spec\<close>
    describes the code of an instruction without the search through formats (\<open>code_of\<close>), the
    code of a program section by section (\<open>emitted\<close>), and which programs assemble
    (\<open>accepted\<close>).
    \<open>Game_Boy\<close>: the instruction set of the processor as a decoder of operation codes (\<open>cpu_decode\<close>),
    written from the bit groups of the codes; the encoders and the emitted code are compared with it.
  \<^item> \<open>Elf_Format\<close>: the structures of \<open><elf.h>\<close>, their layout and byte order, \<open>swap_helpers.hpp\<close>;
    the locale \<open>fixed_width\<close> and its extensions \<open>byte_codec\<close> and \<open>swapped_codec\<close> are the contract of a layout.
    \<open>Elf\<close>: sections and \<open>class ELF\<close> of \<open>include/elf.hpp\<close> and \<open>src/elf.cpp\<close>, a record of the
    members. \<open>Elf_Invariants\<close>: the invariants of the tables; the locale \<open>table_invariant\<close> proves once
    what every relation between the tables gives that defining a symbol keeps. \<open>Elf_Objects\<close>: the calls of public
    operations as a step relation, and what holds of every \<open>reachable\<close> object.
    \<open>Elf_Store\<close>: the abstract store that the assembler needs, and the proof that the object
    implements it.
  \<^item> \<open>Elf_Writer\<close>, \<open>Elf_Reader\<close>: \<open>src/elf_writer.cpp\<close> and \<open>src/elf_reader.cpp\<close>, the reader with what it
    prints. \<open>Elf_Decoder\<close>: a reference decoder of big-endian ELF files, written from the format, what it finds
    in a written file, and where it finds the fields of the structures that \<open>swap_elf_header\<close> and
    \<open>swap_section_header\<close> prepare.
    \<open>File_Image\<close> writes the file of a compiled program down byte by byte (\<open>object_file\<close>), in terms of the
    emitted code alone, and proves that the writer produces it.
  \<^item> \<open>Driver\<close>: \<open>src/main.cpp\<close>.
  \<^item> \<open>Composition\<close>: the stages on a concatenation of sources. Lexing, grammar, check and emitted code of the
    concatenation are those of the parts one after the other.
  \<^item> \<open>Test_Suite\<close>: the unit tests of the repository, each as a lemma that evaluates the model on the test's
    input. They tie the model to the behaviour that the authors recorded.

  What throws and what has no defined behaviour is a value: the exceptions of the program with
  their messages, \<open>out_of_range\<close> and \<open>at_out_of_range\<close> for \<open>vector::at\<close>, \<open>bad_cast\<close> for a
  \<open>dynamic_cast\<close>, \<open>atoi_undefined\<close>, \<open>division_by_zero\<close>, and \<open>Undefined\<close> in the reader. Integers
  have the width of the code where it shows: bytes, the fields of the ELF structures, the
  \<open>int\<close> sum in \<open>StrTabSection::size\<close>, the \<open>uint8_t\<close> of a number. Positions, line numbers and
  indices into vectors are natural numbers; a program would have to be larger than 2 GiB for the
  \<open>int\<close> cursor or the \<open>int\<close> line number to overflow, and more than \<open>2^32\<close> sections would be needed
  for the 32-bit section indices. No loop has fuel: all of them
  end, with measures that are part of the definitions.

  Parameters, for what is outside of the sources: the run of \<open>getopt_long\<close>, the readable
  files, the paths that can be opened for writing, the positions that \<open>seekg\<close> accepts, and the
  indeterminate value of \<open>e_shstrndx\<close> in a new object (\<open>junk\<close>).

  This theory composes the parts: what a run of \<open>gbas\<close> writes (\<open>gbas_compiles\<close>,
  \<open>gbas_on_printed_source\<close>), exactly when it writes (\<open>gbas_writes_exactly\<close>), what other tools find in the
  file (\<open>gbas_output_decodes\<close>) and what the processor runs (\<open>gbas_disassembles\<close>), what two
  sources give together (\<open>gbas_concatenates\<close>), how a run ends and what it prints (\<open>gbas_failures\<close>, and \<open>main_options\<close> in
  \<open>Driver\<close>), and three limits of the language that it accepts.

  Not modelled. What \<open>getopt_long\<close> prints about an unknown option, and what the run time prints about an
  exception that nothing catches, come from outside of the sources. The
  functions \<open>comput_section_offsets\<close>,
  \<open>populate_section_headers\<close>, \<open>instructionNone\<close>, \<open>isOperator\<close>, \<open>parseRegister\<close>,
  \<open>parseDRegister\<close>, \<open>parseNumericOp\<close>, \<open>parseInstruction\<close> and \<open>parseOperand\<close> are declared and have no
  definition in the repository; \<open>ELF::computeSectionOffsets\<close> and \<open>ELF::write\<close> are commented out. Failures of
  memory allocation and of writing to an open stream
  are left out. \<open>tl::expected\<close> is a submodule that is not in the repository; the reader uses it
  as a result type only. What is left of the headers are declarations and comments. The programs of
  \<open>test/\<close> are not modelled themselves, their cases are run on the model; the build files hold no logic.
\<close>

section \<open>From the text of a program to its sections\<close>

text \<open>A parsed program defines no labels, and its directives are those of its sections.\<close>

lemma shape_no_labels: "list_all line_shape ns \<Longrightarrow> defined_labels ns = []"
  by (induction ns) (auto simp: line_shape_def split: BaseNode.splits)

definition has_directive :: "BaseNode list \<Rightarrow> bool" where
  "has_directive ns \<longleftrightarrow> list_ex (\<lambda>n. node_id n = NT_DIRECTIVE) ns"

lemma evaluate_directive: "node_id n = NT_DIRECTIVE \<Longrightarrow> evaluate n = Inl (AssemblerException ''Unrecognized AST node type'')"
  by (cases n) simp_all

lemma evaluate_no_directive:
  assumes "evaluate (Root ns) = Inr r"
  shows "\<not> has_directive ns"
proof -
  from assms obtain ns' where "list_all2 (\<lambda>x y. evaluate x = Inr y) ns ns'"
    by (auto simp: rbind_Inr_iff map_result_Inr_iff)
  then have "\<exists>y. evaluate n = Inr y" if "n \<in> set ns" for n
    using that by (auto simp: list_all2_conv_all_nth in_set_conv_nth)
  then show ?thesis
    using evaluate_directive by (force simp: has_directive_def list_ex_iff)
qed

text \<open>Without a directive nothing is emitted by a program that assembles.\<close>

lemma accepts_silent:
  assumes "accepts known holds_code cur syms ns" and "\<not> holds_code cur" and "\<not> has_directive ns"
  shows "emitted cur ns s = []"
  using assms
proof (induction ns arbitrary: syms)
  case (Cons n ns)
  show ?case
  proof (cases n rule: node_cases)
    case instruction
    with Cons show ?thesis
      using instruction_not_other [OF instruction, of cur ns s]
      by (auto simp: accepts_instruction has_directive_def node_code_def simp del: accepts.simps(2) emitted.simps(2))
  next
    case other
    with Cons.prems(1) show ?thesis using accepts_other by blast
  qed (use Cons in \<open>auto simp: has_directive_def node_code_def code_of_def\<close>)
qed simp

text \<open>The program sections of an object hold the code of the program.\<close>

definition holds_program :: "BaseNode list \<Rightarrow> ELF \<Rightarrow> bool" where
  "holds_program ns e \<longleftrightarrow>
     (\<forall>name \<in> set code_sections. \<exists>s \<in> set (elf_sections e).
        s_name s = name \<and> s_data s = ProgramSection (emitted ''shstrtab'' ns name))"

lemma run_holds_program:
  "assemble (Root ns) (new_object junk) = (Inr (), e) \<Longrightarrow> holds_program ns e \<and> object_ok e"
  unfolding holds_program_def by (blast dest: new_object_sections)

text \<open>What other tools find in the file of a compiled object.\<close>

lemma assembled_run: "assemble (Root ns) (new_object junk) = (Inr (), e) \<Longrightarrow> reachable junk e"
  using assembled_program [OF assembled_new, of junk ns] by (simp add: assembled_reachable)

lemma decoded_names:
  assumes "reachable junk e" and "length (file_bytes e) < 2 ^ 32"
  shows "map d_name (decode_file (file_bytes e)) =
    map (map char_byte) [''shstrtab'', ''strtab'', ''data'', ''rodata'', ''bss'', ''text'', ''init'']"
proof -
  have "map s_name (elf_sections e) = map fst (map section_frame (elf_sections e))" by (simp add: section_frame_def)
  then have "butlast (map s_name (elf_sections e)) =
      [''shstrtab'', ''strtab'', ''data'', ''rodata'', ''bss'', ''text'', ''init'']"
    by (simp add: reachable_frame(3) [OF assms(1)])
  moreover have "map d_name (decode_file (file_bytes e)) = map (map char_byte) (butlast (map s_name (elf_sections e)))"
    by (simp add: decode_written(2) [OF assms] section_view_def map_butlast o_def)
  ultimately show ?thesis by simp
qed

lemma decoded_code:
  assumes "reachable junk e" and "length (file_bytes e) < 2 ^ 32" and "holds_program ns e"
    and "name \<in> set code_sections"
  shows "\<exists>d \<in> set (decode_file (file_bytes e)). d_name d = map char_byte name \<and>
    (let code = emitted ''shstrtab'' ns name in
     if name = ''bss'' then d_type d = 8 \<and> d_bytes d = replicate (length code) 0 else d_type d = 1 \<and> d_bytes d = code)"
proof -
  from assms(3,4) obtain s where s: "s \<in> set (elf_sections e)" "s_name s = name"
      "s_data s = ProgramSection (emitted ''shstrtab'' ns name)"
    by (auto simp: holds_program_def)
  have "s \<in> set (butlast (elf_sections e)) \<and>
      sh_type (s_header s) = (if name = ''bss'' then SHT_NOBITS else SHT_PROGBITS)"
    using reachable_frame(3) [OF assms(1)] s(1,2) assms(4)
    by (auto simp: map_eq_Cons_conv section_frame_def code_sections_def)
  then have "s \<in> set (butlast (elf_sections e))"
    and ty: "sh_type (s_header s) = (if name = ''bss'' then SHT_NOBITS else SHT_PROGBITS)"
    by blast+
  then have "section_view s \<in> set (decode_file (file_bytes e))"
    by (simp add: decode_written(2) [OF assms(1,2)])
  then show ?thesis
    by (rule bexI [rotated]) (simp add: section_view_def s(2,3) ty section_write_def)
qed

section \<open>Evaluating parsed programs\<close>

lemma evaluate_operand:
  assumes "operand_shape a"
  shows "case evaluate a of Inr a' \<Rightarrow> operand_shape a' | Inl x \<Rightarrow> x = division_by_zero"
proof -
  have "case evaluate a of Inr a' \<Rightarrow> operand_shape a' | Inl x \<Rightarrow> x = division_by_zero" if "is_expr a"
    using evaluate_expr [OF that] evaluate_expr_error [OF that]
    by (auto intro: is_expr_shape split: sum.split)
  then show ?thesis
    using assms by (cases a) (simp_all add: operand_shape_def)
qed

lemma evaluate_line:
  assumes "line_shape n"
  shows "case evaluate n of
      Inr n' \<Rightarrow> line_shape n' \<and> node_id n = NT_INSTRUCTION
    | Inl x \<Rightarrow> x = division_by_zero \<or>
        node_id n = NT_DIRECTIVE \<and> x = AssemblerException ''Unrecognized AST node type''"
proof (cases n)
  case (Instruction1 t a)
  with assms evaluate_operand [of a] show ?thesis
    by (cases "evaluate a") (auto simp: line_shape_def)
next
  case (Instruction2 t a b)
  with assms evaluate_operand [of a] evaluate_operand [of b] show ?thesis
    by (cases "evaluate a"; cases "evaluate b") (auto simp: line_shape_def)
qed (use assms in \<open>simp_all add: line_shape_def\<close>)

lemma evaluate_lines:
  assumes "list_all line_shape ns"
  shows "case map_result evaluate ns of
      Inr ns' \<Rightarrow> list_all line_shape ns' \<and> length ns' = length ns \<and> \<not> has_directive ns
    | Inl x \<Rightarrow> x = division_by_zero \<or>
        has_directive ns \<and> x = AssemblerException ''Unrecognized AST node type''"
  using assms
proof (induction ns)
  case (Cons n ns)
  then have "line_shape n" by simp
  from evaluate_line [OF this] Cons show ?case
    by (cases "evaluate n"; cases "map_result evaluate ns") (auto simp: has_directive_def)
qed (simp add: has_directive_def)

section \<open>How assembly fails\<close>

text \<open>The exceptions that the interfaces document.\<close>

definition documented :: "asm_error \<Rightarrow> bool" where
  "documented x =
     (case x of
        AssemblerException _ \<Rightarrow> True
      | elf_failure (ELFException _) \<Rightarrow> True
      | _ \<Rightarrow> False)"

lemma sforeach_error:
  assumes "fst (sforeach f ns s) = Inl x" and "\<And>n s x. n \<in> set ns \<Longrightarrow> fst (f n s) = Inl x \<Longrightarrow> P x"
  shows "P x"
  using assms
proof (induction ns arbitrary: s)
  case (Cons n ns)
  obtain r t where st: "f n s = (r, t)" by (cases "f n s")
  show ?case
  proof (cases r)
    case (Inl y)
    with Cons.prems(1) st have "y = x" by simp
    with Cons.prems(2) [of n s x] st Inl show ?thesis by simp
  next
    case (Inr u)
    with Cons.prems(1) st have "fst (sforeach f ns t) = Inl x" by simp
    then show ?thesis by (rule Cons.IH) (use Cons.prems(2) in auto)
  qed
qed simp

lemma encode_documented:
  "InstructionRA_encode t c = Inl x \<Longrightarrow> documented x" "InstructionR_encode t c = Inl x \<Longrightarrow> documented x"
  "InstructionD_encode t c d = Inl x \<Longrightarrow> documented x" "InstructionNone_encode t = Inl x \<Longrightarrow> documented x"
  by (auto simp: InstructionRA_encode_def InstructionR_encode_def InstructionD_encode_def InstructionNone_encode_def
      encodeRegister_def encodeDRegister_def documented_def rbind_Inl_iff Let_def
      split: InstructionType.splits if_splits)

lemma code_documented: "node_id n = NT_INSTRUCTION \<Longrightarrow> code_of n = Inl x \<Longrightarrow> documented x"
  by (cases n) (auto simp: code_of_def one_byte_def no_format_def rbind_Inl_iff dest: encode_documented
      split: if_splits BaseNode.splits simp: documented_def [of "AssemblerException _"])

lemma assemble_documented:
  assumes "list_all line_shape ns" and "fst (assemble (Root ns) (new_object junk)) = Inl x"
  shows "documented x"
proof -
  have "fst (sforeach store_assemble_node ns (store_of (new_object junk))) = Inl x"
    using assms(2) asm.foreach_sim [OF new_object_ok, of ns junk] by (simp add: assemble_Root)
  then show ?thesis
  proof (rule sforeach_error)
    fix n \<sigma> y
    assume n: "n \<in> set ns" and y: "fst (store_assemble_node n \<sigma>) = Inl y"
    then have shape: "line_shape n" using assms(1) by (simp add: list_all_iff)
    show "documented y"
    proof (cases n rule: node_cases)
      case (directive name ts)
      with y show ?thesis
        by (auto simp: store_assemble_node_def store_set_section_def documented_def split: if_splits)
    next
      case instruction
      with y code_documented [OF instruction] show ?thesis
        by (auto simp: store_node_simps store_add_progbits_def documented_def
            split: sum.splits option.splits contents.splits)
    qed (use shape in \<open>auto simp: line_shape_def split: BaseNode.splits\<close>)
  qed
qed

lemma accepts_codes:
  "accepts known holds_code cur syms ns \<Longrightarrow> n \<in> set ns \<Longrightarrow> node_id n = NT_INSTRUCTION \<Longrightarrow> is_value (code_of n)"
proof (induction ns arbitrary: cur syms)
  case (Cons m ns)
  show ?case
  proof (cases m rule: node_cases)
    case instruction
    with Cons show ?thesis by (auto simp: accepts_instruction simp del: accepts.simps(2))
  next
    case other
    with Cons.prems(1) show ?thesis using accepts_other by blast
  qed (use Cons in auto)
qed simp

text \<open>The lines of the parser with a jump, a call or a restart.\<close>

lemma jump_arity:
  "table_arity IT_JP k \<longleftrightarrow> k = 0" "table_arity IT_CALL k \<longleftrightarrow> k = 0" "table_arity IT_RST k \<longleftrightarrow> k = 1"
  "table_arity IT_JR k \<longleftrightarrow> k \<in> {1, 2}"
  by (auto simp: table_arity_def instructions_def iprops_def)

lemma jump_line:
  assumes "line_shape n" and "n \<in> {Instruction0 t, Instruction1 t a, Instruction2 t a b}"
    and "t \<in> {IT_JP, IT_CALL, IT_JR, IT_RST}"
  shows "(t \<in> {IT_JP, IT_CALL} \<longrightarrow> n = Instruction0 t) \<and> (two_operands n \<longrightarrow> t = IT_JR \<and> code_of n = Inr None) \<and>
    (\<not> two_operands n \<longrightarrow> \<not> is_value (code_of n))"
proof -
  have "\<not> is_value (code_of (Instruction1 t a))"
    using assms(3) by (cases a) (auto simp: code_of_def no_format_def)
  moreover have "\<not> is_value (code_of (Instruction0 t))" if "t \<in> {IT_JP, IT_CALL}"
    using that by (auto simp: code_of_def InstructionNone_encode_def has_format_def format_list_def)
  ultimately show ?thesis
    using assms by (auto simp: line_shape_def jump_arity two_operands_def) (simp_all add: code_of_def)
qed

section \<open>Properties of the whole program\<close>

text \<open>What a compilation writes.\<close>

lemma program_no_labels: "g_program ts ns \<Longrightarrow> defined_labels ns = []"
  by (intro shape_no_labels g_program_shape)

lemma run_file_compiles:
  assumes "tokenize source = Inr ts" and "parse ts = Inr (Root ns)" and "opens ''a.out''" and "accepted ns"
  shows "run_file junk opens False False source =
      \<lparr>m_outcome = Returned 0, m_stdout = [], m_stderr = [],
       m_file = Some (object_file (emitted ''shstrtab'' ns))\<rparr>"
proof -
  from assms(4) have "is_value (fst (assemble (Root ns) (new_object junk)))" by (simp only: accepts_new)
  then obtain e where e: "assemble (Root ns) (new_object junk) = (Inr (), e)"
    by (cases "assemble (Root ns) (new_object junk)") (auto simp: is_value_iff)
  have "defined_labels ns = []" using assms(2) program_no_labels by (auto simp: parse_iff_grammar)
  then have "fst (write_stream e) = Inr (object_file (emitted ''shstrtab'' ns))"
    using compiled_file [OF assms(4), of junk] e by (simp add: write_stream_bytes)
  with assms e show ?thesis
    by (cases "write_stream e")
      (simp add: run_file_def assemble_and_write_def ELF_new_object write_path_def exit_with_def)
qed

lemma run_file_writes:
  "m_file (run_file junk opens t p source) = Some bytes \<longleftrightarrow>
     \<not> t \<and> \<not> p \<and> opens ''a.out'' \<and>
     (\<exists>ts ns. lex_lines 0 (lines_of source) = Inr ts \<and> g_program (ts @ [''EOF'']) ns \<and> accepted ns \<and>
        bytes = object_file (emitted ''shstrtab'' ns))"
  (is "?file = Some bytes \<longleftrightarrow> ?source")
proof
  assume written: "?file = Some bytes"
  then obtain ts root where ts: "tokenize source = Inr ts" "parse ts = Inr root" and tp: "\<not> t" "\<not> p"
    and out: "m_file (assemble_and_write junk opens root) = Some bytes"
    by (auto simp: run_file_def exit_with_def split: sum.splits if_splits)
  from ts(2) obtain ns where root: "root = Root ns" and g: "g_program ts ns" by (auto simp: parse_iff_grammar)
  from ts(1) tokenize_lex [of source] obtain us where us: "lex_lines 0 (lines_of source) = Inr us" "ts = us @ [''EOF'']"
    by (auto split: sum.splits prod.splits)
  from out obtain e where e: "assemble (Root ns) (new_object junk) = (Inr (), e)" "opens ''a.out''"
    by (auto simp: assemble_and_write_def ELF_new_object exit_with_def root write_path_def
        split: prod.splits sum.splits if_splits)
  from e(1) have "is_value (fst (assemble (Root ns) (new_object junk)))" by simp
  then have acc: "accepted ns" by (simp only: accepts_new)
  have "bytes = object_file (emitted ''shstrtab'' ns)"
    using run_file_compiles [where opens = opens and junk = junk, OF ts(1) ts(2) [unfolded root] e(2) acc] written tp by simp
  with tp e(2) acc us g show ?source by auto
next
  assume ?source
  then obtain ts ns where run: "\<not> t" "\<not> p" "opens ''a.out''" "lex_lines 0 (lines_of source) = Inr ts"
      "g_program (ts @ [''EOF'']) ns" "accepted ns" "bytes = object_file (emitted ''shstrtab'' ns)"
    by blast
  have "tokenize source = Inr (ts @ [''EOF''])" using tokenize_lex [of source] run(4) by simp
  moreover have "parse (ts @ [''EOF'']) = Inr (Root ns)" using run(5) by (simp add: parse_iff_grammar)
  ultimately show "?file = Some bytes" using run by (simp add: run_file_compiles)
qed

lemma compile_run:
  assumes "length argv \<ge> 2" and "getopt argv = ([], args, i)" and "i < length args"
    and "files (args ! i) = Some source" and "opens ''a.out''"
    and "lex_lines 0 (lines_of source) = Inr ts" and "g_program (ts @ [''EOF'']) ns"
    and "accepted ns"
  shows "main getopt files opens junk argv =
      \<lparr>m_outcome = Returned 0, m_stdout = [], m_stderr = [], m_file = Some (object_file (emitted ''shstrtab'' ns))\<rparr>"
proof -
  have "tokenize source = Inr (ts @ [''EOF''])" using tokenize_lex [of source] assms(6) by simp
  moreover have "parse (ts @ [''EOF'']) = Inr (Root ns)" using assms(7) by (simp add: parse_iff_grammar)
  ultimately show ?thesis
    using assms(1-5,8) by (simp add: main_cases run_file_compiles)
qed

definition sample_source :: string where
  "sample_source = ''.section text'' @ [newline] @ ''nop'' @ [newline] @ ''sub b'' @ [newline]"

definition sample_program :: "BaseNode list" where
  "sample_program =
     [Directive DT_SECTION [''text''], Instruction0 IT_NOP, Instruction1 IT_SUB (Register CHR ''b'')]"

definition sample_getopt :: "string list \<Rightarrow> getopt_code list \<times> string list \<times> nat" where
  "sample_getopt argv = ([], argv, 1)"

text \<open>A program on which the properties below are applied.\<close>

lemma sample_lex:
  "lex_lines 0 (lines_of sample_source) =
     Inr [''.section'', ''text'', ''EOL'', ''nop'', ''EOL'', ''sub'', ''b'', ''EOL'']"
  by code_simp

lemma sample_parse:
  "g_program ([''.section'', ''text'', ''EOL'', ''nop'', ''EOL'', ''sub'', ''b'', ''EOL''] @ [''EOF'']) sample_program"
proof -
  have "parse ([''.section'', ''text'', ''EOL'', ''nop'', ''EOL'', ''sub'', ''b'', ''EOL''] @ [''EOF'']) =
      Inr (Root sample_program)" by code_simp
  then show ?thesis by (simp add: parse_iff_grammar)
qed

lemma sample_codes:
  "code_of (Instruction0 IT_NOP) = Inr (Some [0x00])"
  "code_of (Instruction1 IT_SUB (Register CHR ''b'')) = Inr (Some [0x90])"
  by (simp_all add: code_of_def one_byte_def InstructionNone_encode_def InstructionRA_encode_def
      encodeRegister_def)

lemma sample_accepts: "accepted sample_program"
  by (simp add: accepted_def sample_program_def sample_codes code_sections_def)

lemma sample_code: "emitted ''shstrtab'' sample_program = (\<lambda>name. if name = ''text'' then [0x00, 0x90] else [])"
  by (rule ext) (simp add: sample_program_def node_code_def sample_codes)

lemma sample_emitted: "emitted ''shstrtab'' sample_program ''text'' = [0x00, 0x90]"
  by (simp add: sample_code)

lemmas sample_run = sample_lex sample_parse sample_accepts

text \<open>C1: End to end: if the text tokenizes, its tokens derive the lines \<open>ns\<close> of a program, and
  these pass the check of \<open>accepts\<close>, then \<open>gbas file\<close> prints nothing, returns 0 and writes to \<open>a.out\<close>, byte for byte,
  the image of the code that the program emits into the five program sections.\<close>

theorem gbas_compiles:
  assumes "length argv \<ge> 2" and "getopt argv = ([], args, i)" and "i < length args"
    and "files (args ! i) = Some source" and "opens ''a.out''"
    and "lex_lines 0 (lines_of source) = Inr ts" and "g_program (ts @ [''EOF'']) ns"
    and "accepted ns"
  shows "main getopt files opens junk argv =
      \<lparr>m_outcome = Returned 0, m_stdout = [], m_stderr = [], m_file = Some (object_file (emitted ''shstrtab'' ns))\<rparr>"
  using assms by (rule compile_run)

theorem gbas_compiles_witness:
  "main sample_getopt [''a.s'' \<mapsto> sample_source] (\<lambda>_. True) 0 [''gbas'', ''a.s''] =
      \<lparr>m_outcome = Returned 0, m_stdout = [], m_stderr = [],
       m_file = Some (object_file (\<lambda>name. if name = ''text'' then [0x00, 0x90] else []))\<rparr>"
proof -
  have "main sample_getopt [''a.s'' \<mapsto> sample_source] (\<lambda>_. True) 0 [''gbas'', ''a.s''] =
      \<lparr>m_outcome = Returned 0, m_stdout = [], m_stderr = [],
       m_file = Some (object_file (emitted ''shstrtab'' sample_program))\<rparr>"
    by (rule gbas_compiles [OF _ _ _ _ _ sample_run, where i = 1 and args = "[''gbas'', ''a.s'']"]) (simp_all add: sample_getopt_def)
  then show ?thesis by (simp only: sample_code)
qed

text \<open>C3: Exactly when a file is written, and what it holds: \<open>gbas\<close> writes \<open>a.out\<close> if and only if
  it is called without an option that stops it early and with the name of a readable file whose text
  tokenizes, whose tokens derive the lines of a program that passes the check, and \<open>a.out\<close> can be opened; the
  bytes are the image of its code. In particular they depend on nothing but the code of the five sections, not on the
  member \<open>e_shstrndx\<close> that the constructor leaves without a value.\<close>

theorem gbas_writes_exactly:
  "m_file (main getopt files opens junk argv) = Some bytes \<longleftrightarrow>
     (\<exists>codes args i source ts ns. 2 \<le> length argv \<and> getopt argv = (codes, args, i) \<and>
        \<not> list_ex (selects ''tokenize'' CHR ''t'') codes \<and> \<not> list_ex (selects ''parse'' CHR ''p'') codes \<and>
        i < length args \<and> files (args ! i) = Some source \<and>
        lex_lines 0 (lines_of source) = Inr ts \<and> g_program (ts @ [''EOF'']) ns \<and> accepted ns \<and> opens ''a.out'' \<and>
        bytes = object_file (emitted ''shstrtab'' ns))"
proof -
  obtain codes args i where g: "getopt argv = (codes, args, i)" by (cases "getopt argv") auto
  have none: "m_file (exit_with r err) \<noteq> Some b" for r err b by (simp add: exit_with_def)
  show ?thesis
    by (auto simp: main_cases g none Let_def run_file_writes not_le split: option.splits)
qed

text \<open>What the decoder finds in a written file.\<close>

lemma output_decodes:
  assumes "m_file (run_file junk opens tokenize_only parse_only source) = Some bytes" and "length bytes < 2 ^ 32"
  shows "\<exists>ts ns. lex_lines 0 (lines_of source) = Inr ts \<and> g_program (ts @ [''EOF'']) ns \<and> accepted ns \<and>
    map d_name (decode_file bytes) =
      map (map char_byte) [''shstrtab'', ''strtab'', ''data'', ''rodata'', ''bss'', ''text'', ''init''] \<and>
    (\<forall>name \<in> set code_sections. \<exists>d \<in> set (decode_file bytes). d_name d = map char_byte name \<and>
      (let code = emitted ''shstrtab'' ns name in
       if name = ''bss'' then d_type d = 8 \<and> d_bytes d = replicate (length code) 0
       else d_type d = 1 \<and> d_bytes d = code))"
proof -
  from assms(1) obtain ts ns where run: "lex_lines 0 (lines_of source) = Inr ts" "g_program (ts @ [''EOF'']) ns"
      "accepted ns" "bytes = object_file (emitted ''shstrtab'' ns)"
    by (auto simp: run_file_writes)
  obtain e where e: "assemble (Root ns) (new_object junk) = (Inr (), e)"
    using run(3) by (cases "assemble (Root ns) (new_object junk)") (auto simp: accepts_new [symmetric, of _ junk] is_value_iff)
  then have bytes: "bytes = file_bytes e"
    using compiled_file [OF run(3) program_no_labels [OF run(2)], of junk] by (simp add: run(4))
  note small = assms(2) [unfolded bytes]
  have "holds_program ns e" using run_holds_program [OF e] by blast
  from decoded_code [OF assembled_run [OF e] small this] decoded_names [OF assembled_run [OF e] small] run(1,2,3)
  show ?thesis unfolding bytes by blast
qed

text \<open>The bytes of the file against the instruction set.\<close>

lemma output_disassembles:
  assumes "m_file (run_file junk opens tokenize_only parse_only source) = Some bytes" and "length bytes < 2 ^ 32"
    and "name \<in> set code_sections - {''bss''}"
  shows "\<exists>ts ns d. lex_lines 0 (lines_of source) = Inr ts \<and> g_program (ts @ [''EOF'']) ns \<and>
    d \<in> set (decode_file bytes) \<and> d_name d = map char_byte name \<and>
    disassembles (d_bytes d) (filter (\<lambda>n. \<not> two_operands n) (section_lines ''shstrtab'' ns name))"
proof -
  from output_decodes [OF assms(1,2)] obtain ts ns where
    src: "lex_lines 0 (lines_of source) = Inr ts" "g_program (ts @ [''EOF'']) ns" and acc: "accepted ns" and
    code: "\<forall>name \<in> set code_sections. \<exists>d \<in> set (decode_file bytes). d_name d = map char_byte name \<and>
      (let code = emitted ''shstrtab'' ns name in
       if name = ''bss'' then d_type d = 8 \<and> d_bytes d = replicate (length code) 0
       else d_type d = 1 \<and> d_bytes d = code)"
    by blast
  from code assms(3) obtain d where "d \<in> set (decode_file bytes)" "d_name d = map char_byte name"
      "d_bytes d = emitted ''shstrtab'' ns name"
    by (auto simp: Let_def)
  with src emitted_disassembles [OF g_program_shape [OF src(2)] acc [unfolded accepted_def]] show ?thesis by metis
qed

text \<open>C6: What a linker or loader finds in \<open>a.out\<close>: if \<open>gbas\<close> writes a file of less than 4 GiB, a decoder that follows
  the ELF format finds in it the seven sections from \<open>shstrtab\<close> to \<open>init\<close>, and the bytes of each of the four sections
  \<open>data\<close>, \<open>rodata\<close>, \<open>text\<close> and \<open>init\<close> are the code that the source emits into it. What the source emits into \<open>bss\<close> is
  lost for the decoder, which finds as many zero bytes.\<close>

theorem gbas_output_decodes:
  assumes "m_file (run_file junk opens tokenize_only parse_only source) = Some bytes" and "length bytes < 2 ^ 32"
  shows "\<exists>ts ns. lex_lines 0 (lines_of source) = Inr ts \<and> g_program (ts @ [''EOF'']) ns \<and>
    map d_name (decode_file bytes) =
      map (map char_byte) [''shstrtab'', ''strtab'', ''data'', ''rodata'', ''bss'', ''text'', ''init''] \<and>
    (\<forall>name \<in> set code_sections. \<exists>d \<in> set (decode_file bytes). d_name d = map char_byte name \<and>
      (let code = emitted ''shstrtab'' ns name in
       if name = ''bss'' then d_type d = 8 \<and> d_bytes d = replicate (length code) 0
       else d_type d = 1 \<and> d_bytes d = code))"
  using output_decodes [OF assms] by blast

text \<open>The file of the sample program.\<close>

definition sample_file :: "u8 list" where
  "sample_file = object_file (\<lambda>name. if name = ''text'' then [0x00, 0x90] else [])"

lemma sample_file_run: "m_file (run_file 0 (\<lambda>_. True) False False sample_source) = Some sample_file"
  using sample_run unfolding sample_file_def sample_code [symmetric] by (auto simp: run_file_writes)

lemma sample_file_small: "length sample_file < 2 ^ 32"
  by (simp add: sample_file_def length_object_file code_sections_def)

lemma sample_tree:
  assumes "lex_lines 0 (lines_of sample_source) = Inr ts" and "g_program (ts @ [''EOF'']) ns"
  shows "ns = sample_program"
proof -
  have tree: "parse toks = Inr (Root ns')" if "g_program toks ns'" for toks ns'
    using that by (simp add: parse_iff_grammar)
  show ?thesis using tree [OF assms(2)] tree [OF sample_run(2)] assms(1) sample_run(1) by auto
qed

theorem gbas_output_decodes_witness:
  "\<exists>d \<in> set (decode_file sample_file). d_name d = map char_byte ''text'' \<and> d_bytes d = [0x00, 0x90]"
proof -
  from gbas_output_decodes [OF sample_file_run sample_file_small] obtain ts ns
    where *: "lex_lines 0 (lines_of sample_source) = Inr ts" "g_program (ts @ [''EOF'']) ns"
      "\<forall>name \<in> set code_sections. \<exists>d \<in> set (decode_file sample_file).
        d_name d = map char_byte name \<and> (let code = emitted ''shstrtab'' ns name in
         if name = ''bss'' then d_type d = 8 \<and> d_bytes d = replicate (length code) 0 else d_type d = 1 \<and> d_bytes d = code)"
    by blast
  from *(3) sample_emitted show ?thesis unfolding sample_tree [OF *(1,2)] by (force simp: code_sections_def)
qed

text \<open>C7: The machine code in \<open>a.out\<close>: for each of the sections \<open>data\<close>, \<open>rodata\<close>, \<open>text\<close> and \<open>init\<close>,
  leave out of the source's instructions for this section those with two operands, which the assembler accepts and gives no
  code. The processor's instruction set decodes the bytes that a decoder of ELF files (for files below 4 GiB) finds in the section,
  one by one, to all the others, in the order of the source, except that the byte of a miscoded instruction
  does not decode to it. No other instruction is skipped.\<close>

theorem gbas_disassembles:
  assumes "m_file (run_file junk opens tokenize_only parse_only source) = Some bytes" and "length bytes < 2 ^ 32"
    and "name \<in> set code_sections - {''bss''}"
  shows "\<exists>ts ns d. lex_lines 0 (lines_of source) = Inr ts \<and> g_program (ts @ [''EOF'']) ns \<and>
    d \<in> set (decode_file bytes) \<and> d_name d = map char_byte name \<and>
    disassembles (d_bytes d) (filter (\<lambda>n. \<not> two_operands n) (section_lines ''shstrtab'' ns name))"
  by (rule output_disassembles [OF assms])

theorem gbas_disassembles_witness:
  "\<exists>d \<in> set (decode_file sample_file).
     d_name d = map char_byte ''text'' \<and> map cpu_decode (d_bytes d) = map Some (tl sample_program)"
proof -
  from gbas_disassembles [OF sample_file_run sample_file_small, of "''text''"] obtain ts ns d
    where *: "lex_lines 0 (lines_of sample_source) = Inr ts" "g_program (ts @ [''EOF'']) ns"
      "d \<in> set (decode_file sample_file)"
      "d_name d = map char_byte ''text''" "disassembles (d_bytes d) (filter (\<lambda>n. \<not> two_operands n) (section_lines ''shstrtab'' ns ''text''))"
    by (auto simp: code_sections_def)
  have "filter (\<lambda>n. \<not> two_operands n) (section_lines ''shstrtab'' sample_program ''text'') = tl sample_program" by code_simp
  then have "disassembles (d_bytes d) (tl sample_program)" using *(5) by (simp add: sample_tree [OF *(1,2)])
  then have "map cpu_decode (d_bytes d) = map Some (tl sample_program)"
    by (rule disassembles_exact) code_simp
  with *(3,4) show ?thesis by blast
qed

text \<open>C4: On every program that can be written down, \<open>gbas\<close> decides as the check says. If the check
  accepts the lines then their printed text compiles, and \<open>a.out\<close> is the image of the emitted code;
  otherwise the assembler throws and nothing is written.\<close>

theorem gbas_on_printed_source:
  assumes "list_all line_ok ns" and "opens ''a.out''"
  shows "if accepted ns
    then run_file junk opens False False (print_source ns) =
      \<lparr>m_outcome = Returned 0, m_stdout = [], m_stderr = [], m_file = Some (object_file (emitted ''shstrtab'' ns))\<rparr>
    else \<exists>x. run_file junk opens False False (print_source ns) =
      \<lparr>m_outcome = Assembler_failed x, m_stdout = [], m_stderr = asm_report x, m_file = None\<rparr>"
proof -
  obtain ts where src: "tokenize (print_source ns) = Inr ts" "parse ts = Inr (Root ns)"
    using print_parse [OF assms(1)] by blast
  show ?thesis
  proof (cases "accepted ns")
    case True
    with run_file_compiles [where opens = opens and junk = junk, OF src assms(2)] show ?thesis by simp
  next
    case False
    obtain r e where run: "assemble (Root ns) (new_object junk) = (r, e)" by (cases "assemble (Root ns) (new_object junk)")
    with False accepts_new [of ns junk] obtain x where "r = Inl x" by (cases r) auto
    with False src run show ?thesis
      by (simp add: run_file_def assemble_and_write_def ELF_new_object exit_with_def)
  qed
qed

theorem gbas_on_printed_source_witness:
  "m_file (run_file 0 (\<lambda>_. True) False False (print_source sample_program)) = Some sample_file"
proof -
  have ok: "list_all line_ok sample_program" by code_simp
  have "if accepted sample_program
    then run_file 0 (\<lambda>_. True) False False (print_source sample_program) =
      \<lparr>m_outcome = Returned 0, m_stdout = [], m_stderr = [],
       m_file = Some (object_file (emitted ''shstrtab'' sample_program))\<rparr>
    else \<exists>x. run_file 0 (\<lambda>_. True) False False (print_source sample_program) =
      \<lparr>m_outcome = Assembler_failed x, m_stdout = [], m_stderr = asm_report x, m_file = None\<rparr>"
    by (rule gbas_on_printed_source [OF ok]) simp
  with sample_accepts show ?thesis by (simp add: sample_code sample_file_def)
qed

text \<open>C5: Sources can be put one after the other. If two sources compile, the first is made of whole lines and has no word
  \<open>EOF\<close>, then their concatenation compiles, and each section of its file is the section of the first file followed by
  that of the second: no state of the tokenizer, the parser or the assembler leaks from one into the other.\<close>

theorem gbas_concatenates:
  assumes "m_file (run_file junk opens False False s1) = Some b1" and "m_file (run_file junk opens False False s2) = Some b2"
    and "tokenize s1 = Inr (ts @ [''EOF''])" and "''EOF'' \<notin> set ts" and "whole_lines s1"
  shows "\<exists>c1 c2. b1 = object_file c1 \<and> b2 = object_file c2 \<and>
    m_file (run_file junk opens False False (s1 @ s2)) = Some (object_file (\<lambda>name. c1 name @ c2 name))"
proof -
  from assms(1) obtain ts1 ns1 where one: "lex_lines 0 (lines_of s1) = Inr ts1" "g_program (ts1 @ [''EOF'']) ns1"
      "accepted ns1" "b1 = object_file (emitted ''shstrtab'' ns1)" and out: "opens ''a.out''"
    by (auto simp: run_file_writes)
  from assms(2) obtain ts2 ns2 where two: "lex_lines 0 (lines_of s2) = Inr ts2" "g_program (ts2 @ [''EOF'']) ns2"
      "accepted ns2" "b2 = object_file (emitted ''shstrtab'' ns2)"
    by (auto simp: run_file_writes)
  have "''EOF'' \<notin> set ts1" using tokenize_lex [of s1] one(1) assms(3,4) by simp
  from g_program_append [OF one(2) this two(2)] have tree: "g_program ((ts1 @ ts2) @ [''EOF'']) (ns1 @ ns2)" by simp
  note code = accepted_append [OF one(3) two(3) program_no_labels [OF one(2)] program_no_labels [OF two(2)]]
  have "emitted ''shstrtab'' (ns1 @ ns2) = (\<lambda>name. emitted ''shstrtab'' ns1 name @ emitted ''shstrtab'' ns2 name)"
    by (rule ext) (rule code(2))
  then have "m_file (run_file junk opens False False (s1 @ s2)) =
      Some (object_file (\<lambda>name. emitted ''shstrtab'' ns1 name @ emitted ''shstrtab'' ns2 name))"
    unfolding run_file_writes using out lex_source_append [OF assms(5) one(1) two(1)] tree code(1) by metis
  with one(4) two(4) show ?thesis by blast
qed

theorem gbas_concatenates_witness:
  "\<exists>c1 c2. sample_file = object_file c1 \<and> sample_file = object_file c2 \<and>
    m_file (run_file 0 (\<lambda>_. True) False False (sample_source @ sample_source)) = Some (object_file (\<lambda>name. c1 name @ c2 name))"
proof -
  have "tokenize sample_source = Inr ([''.section'', ''text'', ''EOL'', ''nop'', ''EOL'', ''sub'', ''b'', ''EOL''] @ [''EOF''])"
    using tokenize_lex [of sample_source] sample_run(1) by simp
  from gbas_concatenates [OF sample_file_run sample_file_run this] show ?thesis
    by (simp add: whole_lines_def sample_source_def)
qed

text \<open>C2: How a compilation ends, and what the user is told: with success and silence, with the report
  of the tokenizer under the line of the error, with a message from the
  parser, the assembler or the object, of which only the object's is printed, or with the message that \<open>a.out\<close>
  cannot be opened. No
  access beyond a container and no division by zero is reached; the one undefined behaviour that
  is left is \<open>std::atoi\<close> on a number beyond the range of \<open>int\<close>.\<close>

theorem gbas_failures:
  "let r = run_file junk opens tokenize_only parse_only source in
   case m_outcome r of
     Returned k \<Rightarrow> k = 0 \<and> m_stderr r = []
   | Tokenizer_failed x \<Rightarrow>
       m_stderr r = fault_report (lines_of source ! tex_line x) (tex_line x) (tex_col x)
   | Parser_failed x \<Rightarrow> ((\<exists>msg. x = ParserException msg) \<or> x = atoi_undefined) \<and> m_stderr r = []
   | Assembler_failed x \<Rightarrow> \<exists>msg. x = AssemblerException msg \<and> m_stderr r = [] \<or>
       x = elf_failure (ELFException msg) \<and> m_stderr r = msg @ [newline]
   | Writer_failed x \<Rightarrow> x = ELFException ''Failed to open a.out'' \<and> m_stderr r = []
   | Null_argument \<Rightarrow> False"
proof (cases "lex_lines 0 (lines_of source)")
  case (Inl q)
  with tokenize_lex [of source] show ?thesis
    by (cases q) (auto simp: run_file_def exit_with_def)
next
  case (Inr us)
  define ts where "ts = us @ [''EOF'']"
  from Inr tokenize_lex [of source] have tok: "tokenize source = Inr ts" by (simp add: ts_def)
  show ?thesis
  proof (cases "parse ts")
    case (Inl x)
    with parse_in_bounds [of ts] have "x \<noteq> out_of_range" by (auto simp: ts_def)
    with Inl tok show ?thesis by (cases x) (simp_all add: run_file_def exit_with_def)
  next
    case (Inr root)
    then obtain ns where root: "root = Root ns" and g: "g_program ts ns" by (auto simp: parse_iff_grammar)
    have doc: "\<exists>msg. x = AssemblerException msg \<and> asm_report x = [] \<or>
        x = elf_failure (ELFException msg) \<and> asm_report x = msg @ [newline]"
      if "assemble root (new_object junk) = (Inl x, e)" for x e
      using that assemble_documented [OF g_program_shape [OF g], of junk x]
      by (auto simp: root documented_def asm_report_def elf_report_def split: asm_error.splits elf_error.splits)
    show ?thesis
      using tok Inr doc
      by (auto simp: run_file_def exit_with_def assemble_and_write_def ELF_new_object write_path_def
          write_stream_file split: prod.split sum.split)
  qed
qed

text \<open>Evaluation and assembly do not go together: a program that \<open>evaluate\<close> accepts has no
  directive, and if such a program assembles, no code at all is emitted.\<close>

lemma evaluated_programs_emit_nothing:
  assumes "evaluate (Root ns) = Inr r" and "assemble (Root ns) (new_object junk) = (Inr (), e)"
  shows "\<not> has_directive ns \<and> emitted ''shstrtab'' ns name = []"
proof -
  note nd = evaluate_no_directive [OF assms(1)]
  from assms(2) have "is_value (fst (assemble (Root ns) (new_object junk)))" by simp
  then have "accepted ns" by (simp only: accepts_new)
  from accepts_silent [OF this [unfolded accepted_def] _ nd] nd show ?thesis by (simp add: code_sections_def)
qed


text \<open>No symbol reaches the object: the trees of the parser have no label lines, so that after
  every compilation the string table is empty but for its first entry.\<close>

lemma compiled_programs_have_no_symbols:
  assumes "parse ts = Inr root" and "assemble root (new_object junk) = (Inr (), e)"
  shows "string_table e = Inr [[]] \<and> symbol_names e = {}"
proof -
  from assms(1) obtain ns where root: "root = Root ns" and g: "g_program ts ns" by (auto simp: parse_iff_grammar)
  have ok: "object_ok e" and st: "string_table e = Inr ([] # defined_labels ns)"
    using new_object_section [OF assms(2) [unfolded root], of "''text''"] by (simp_all add: code_sections_def)
  from st shape_no_labels [OF g_program_shape [OF g]] have st: "string_table e = Inr [[]]" by simp
  with ok show ?thesis by (auto simp: object_inv_def elim!: symbols_wfE)
qed

text \<open>C39: Evaluating a parsed program gives a program of the same length whose lines are again
  such as the parser builds. It can only fail on a division by a literal zero, or because the
  program has a directive, which \<open>evaluate\<close> does not know.\<close>

theorem evaluate_parsed_program:
  assumes "parse ts = Inr (Root ns)"
  shows "case evaluate (Root ns) of
      Inr root \<Rightarrow> \<exists>ns'. root = Root ns' \<and> list_all line_shape ns' \<and> length ns' = length ns \<and> \<not> has_directive ns
    | Inl x \<Rightarrow> x = division_by_zero \<or>
        has_directive ns \<and> x = AssemblerException ''Unrecognized AST node type''"
proof -
  from assms have "list_all line_shape ns" using g_program_shape by (auto simp: parse_iff_grammar)
  from evaluate_lines [OF this] show ?thesis by (auto split: sum.splits)
qed

theorem evaluate_parsed_program_witness:
  "\<exists>ns'. evaluate (Root [Instruction1 IT_SUB (BinaryOp BO_MULT (Number 100) (Number 3))]) = Inr (Root ns') \<and>
    list_all line_shape ns' \<and> length ns' = 1"
proof -
  have "parse [''sub'', ''100'', ''*'', ''3'', ''EOL'', ''EOF''] =
      Inr (Root [Instruction1 IT_SUB (BinaryOp BO_MULT (Number 100) (Number 3))])" by code_simp
  from evaluate_parsed_program [OF this] show ?thesis
    by (simp add: fold_binary_def)
qed

text \<open>C40: No jump, call or restart can be compiled. \<open>jp\<close> and \<open>call\<close> have no operand in the tree, since the
  parser gives them none. A program in which one of them occurs, or a restart, or \<open>jr\<close> with one operand, is refused by the
  assembler; \<open>jr\<close> with two operands, the only remaining form, is accepted and changes nothing in the object.\<close>

theorem jumps_emit_nothing:
  assumes "parse ts = Inr (Root ns)" and "n \<in> set ns"
    and "n \<in> {Instruction0 t, Instruction1 t a, Instruction2 t a b}" and "t \<in> {IT_JP, IT_CALL, IT_JR, IT_RST}"
  shows "(t \<in> {IT_JP, IT_CALL} \<longrightarrow> n = Instruction0 t) \<and>
    (if two_operands n then t = IT_JR \<and> (\<forall>e. assembleInstruction n e = (Inr (), e))
     else \<not> is_value (fst (assemble (Root ns) (new_object junk))))"
proof -
  have "line_shape n"
    using assms(1,2) g_program_shape by (auto simp: parse_iff_grammar list_all_iff)
  from jump_line [OF this assms(3,4)] have n: "t \<in> {IT_JP, IT_CALL} \<Longrightarrow> n = Instruction0 t"
    and two: "two_operands n \<Longrightarrow> t = IT_JR \<and> code_of n = Inr None"
    and other: "\<not> two_operands n \<Longrightarrow> \<not> is_value (code_of n)" by blast+
  have "node_id n = NT_INSTRUCTION" using assms(3) by auto
  with other accepts_codes [of _ _ _ _ ns n] assms(2) have "\<not> two_operands n \<Longrightarrow> \<not> accepted ns"
    by (auto simp: accepted_def)
  then have refused: "\<not> two_operands n \<Longrightarrow> \<not> is_value (fst (assemble (Root ns) (new_object junk)))"
    unfolding accepts_new by blast
  show ?thesis
  proof (cases "two_operands n")
    case True
    with two have "t = IT_JR" "assembleInstruction n = emit_code (Inr None)" by (simp_all add: assembleInstruction_code)
    with True n show ?thesis by simp
  next
    case False
    with refused n show ?thesis by (simp only: if_False) blast
  qed
qed

theorem jumps_emit_nothing_witness:
  "\<not> is_value (fst (assemble (Root [Instruction0 IT_JP]) (new_object 0))) \<and>
   \<not> is_value (fst (assemble (Root [Instruction1 IT_JR (Number 5)]) (new_object 0))) \<and>
   assembleInstruction (Instruction2 IT_JR (Label ''z'') (Number 5)) (new_object 0) = (Inr (), new_object 0)"
proof -
  have "parse [''jp'', ''EOL'', ''EOF''] = Inr (Root [Instruction0 IT_JP])"
    "parse [''jr'', ''5'', ''EOL'', ''EOF''] = Inr (Root [Instruction1 IT_JR (Number 5)])"
    "parse [''jr'', ''z'', '','', ''5'', ''EOL'', ''EOF''] = Inr (Root [Instruction2 IT_JR (Label ''z'') (Number 5)])"
    by code_simp+
  note run = this [THEN jumps_emit_nothing]
  show ?thesis
    using run(1) [of "Instruction0 IT_JP" IT_JP _ _ 0] run(2) [of "Instruction1 IT_JR (Number 5)" IT_JR "Number 5" _ 0]
      run(3) [of "Instruction2 IT_JR (Label ''z'') (Number 5)" IT_JR "Label ''z''" "Number 5" 0]
    by (simp add: two_operands_def)
qed

end
